(* ===== verification/Prelude.thy ===== *)
theory Prelude
  imports Main "HOL-Library.Word"
begin

text \<open>
  Prelude of the development: the result of a Go function (value, error or run-time panic), the
  error values of the repository, the sequencing combinators that the stateful components are
  composed with, and the generic lemmas on lists that the components share.

  A Go function that can fail is modelled by a value of type \<open>'a outcome\<close>; one that also
  acts on the system is a function from the state of the system to an outcome and the next state.
  \<open>Panic\<close> stands for a Go run-time panic (index out of range, nil dereference, division by zero,
  failed type assertion): no later statement of the function runs.
\<close>

section \<open>Theorem collections\<close>

named_theorems go_run \<open>equations that execute the sequencing combinators\<close>
named_theorems go_str \<open>facts on the string functions of the Go library\<close>
named_theorems go_path \<open>facts on lexical paths\<close>

section \<open>Machine integers\<close>

type_synonym u16 = "16 word"
type_synonym u32 = "32 word"
type_synonym u64 = "64 word"
text \<open>Go's \<open>int64\<close> (and \<open>int\<close>) is a 64-bit word read with \<open>sint\<close>.\<close>
type_synonym i64 = "64 word"

section \<open>Errors\<close>

datatype errno =
    ENOENT | EINVAL | EAGAIN | EBUSY | ESRCH | ENODEV | EPERM | EACCES | EEXIST
  | EISDIR | ENOTDIR | ENOTEMPTY | EOPNOTSUPP | EIO

text \<open>The text that package \<open>syscall\<close> gives for an error number.\<close>

fun errno_text :: "errno \<Rightarrow> string" where
  "errno_text ENOENT = ''no such file or directory''"
| "errno_text EINVAL = ''invalid argument''"
| "errno_text EAGAIN = ''resource temporarily unavailable''"
| "errno_text EBUSY = ''device or resource busy''"
| "errno_text ESRCH = ''no such process''"
| "errno_text ENODEV = ''no such device''"
| "errno_text EPERM = ''operation not permitted''"
| "errno_text EACCES = ''permission denied''"
| "errno_text EEXIST = ''file exists''"
| "errno_text EISDIR = ''is a directory''"
| "errno_text ENOTDIR = ''not a directory''"
| "errno_text ENOTEMPTY = ''directory not empty''"
| "errno_text EOPNOTSUPP = ''operation not supported''"
| "errno_text EIO = ''input/output error''"

text \<open>The verb \<open>%q\<close>: a string as a Go literal. Bytes beyond ASCII are kept, as Go does for printable characters.\<close>

definition hex_digit :: "nat \<Rightarrow> char" where
  "hex_digit d = char_of (if d < 10 then 48 + d else 87 + d)"

definition quoted_char :: "char \<Rightarrow> string" where
  "quoted_char c =
     (if c = CHR 0x22 \<or> c = CHR 0x5C then [CHR 0x5C, c]
      else if c = CHR 0x07 then [CHR 0x5C, CHR ''a'']
      else if c = CHR 0x08 then [CHR 0x5C, CHR ''b'']
      else if c = CHR 0x09 then [CHR 0x5C, CHR ''t'']
      else if c = CHR 0x0A then [CHR 0x5C, CHR ''n'']
      else if c = CHR 0x0B then [CHR 0x5C, CHR ''v'']
      else if c = CHR 0x0C then [CHR 0x5C, CHR ''f'']
      else if c = CHR 0x0D then [CHR 0x5C, CHR ''r'']
      else if of_char c < (32 :: nat) \<or> c = CHR 0x7F
      then [CHR 0x5C, CHR ''x'', hex_digit (of_char c div 16), hex_digit (of_char c mod 16)]
      else [c])"

definition quoted :: "string \<Rightarrow> string" where
  "quoted s = CHR 0x22 # concat (map quoted_char s) @ [CHR 0x22]"

text \<open>\<open>strconv.ErrSyntax\<close> and \<open>strconv.ErrRange\<close>, the causes of a \<open>*strconv.NumError\<close>, which also holds the
  function that failed and its argument.\<close>

datatype num_error = ErrSyntax | ErrRange

fun num_error_text :: "num_error \<Rightarrow> string" where
  "num_error_text ErrSyntax = ''invalid syntax''"
| "num_error_text ErrRange = ''value out of range''"

text \<open>
  Error values: an error number with the operation and the path (\<open>*fs.PathError\<close>), a number that
  does not parse, the scanner's and the reader's errors, the error variables of \<open>cgroup2/errors.go\<close>,
  \<open>cgroup1/errors.go\<close>, \<open>cgroup1/opts.go\<close> and \<open>cgroup1/paths.go\<close>, a message built with
  \<open>errors.New\<close> or \<open>fmt.Errorf\<close>, and an error wrapped with the verb \<open>%w\<close>.
\<close>

datatype gerror =
    PathError string string errno
  | NumError string string num_error
  | ErrTooLong
  | ErrEOF
  | ErrInvalidFormat
  | ErrInvalidGroupPath
  | ErrInvalidPid
  | ErrMountPointNotExist
  | ErrFreezerNotSupported
  | ErrMemoryNotSupported
  | ErrCgroupDeleted
  | ErrNoCgroupMountDestination
  | ErrIgnoreSubsystem
  | ErrDevicesRequired
  | ErrControllerNotActive
  | ErrMsg string
  | Wrap string gerror

fun error_text :: "gerror \<Rightarrow> string" where
  "error_text (PathError opn p e) = opn @ '' '' @ p @ '': '' @ errno_text e"
| "error_text (NumError f s e) = ''strconv.'' @ f @ '': parsing '' @ quoted s @ '': '' @ num_error_text e"
| "error_text ErrTooLong = ''bufio.Scanner: token too long''"
| "error_text ErrEOF = ''EOF''"
| "error_text ErrInvalidFormat = ''cgroups: parsing file with invalid format failed''"
| "error_text ErrInvalidGroupPath = ''cgroups: invalid group path''"
| "error_text ErrInvalidPid = ''cgroups: pid must be greater than 0''"
| "error_text ErrMountPointNotExist = ''cgroups: cgroup mountpoint does not exist''"
| "error_text ErrFreezerNotSupported = ''cgroups: freezer cgroup not supported on this system''"
| "error_text ErrMemoryNotSupported = ''cgroups: memory cgroup not supported on this system''"
| "error_text ErrCgroupDeleted = ''cgroups: cgroup deleted''"
| "error_text ErrNoCgroupMountDestination = ''cgroups: cannot find cgroup mount destination''"
| "error_text ErrIgnoreSubsystem = ''skip subsystem''"
| "error_text ErrDevicesRequired = ''devices subsystem is required''"
| "error_text ErrControllerNotActive = ''controller is not supported''"
| "error_text (ErrMsg m) = m"
| "error_text (Wrap m e) = m @ '': '' @ error_text e"

text \<open>\<open>os.IsNotExist\<close> looks into a \<open>PathError\<close> but not through \<open>%w\<close>; \<open>errors.Is\<close> does both.\<close>

fun is_not_exist :: "gerror \<Rightarrow> bool" where
  "is_not_exist (PathError opn p ENOENT) = True"
| "is_not_exist e = False"

fun errors_is_errno :: "gerror \<Rightarrow> errno \<Rightarrow> bool" where
  "errors_is_errno (PathError opn p e) n = (e = n)"
| "errors_is_errno (Wrap m e) n = errors_is_errno e n"
| "errors_is_errno e n = False"

section \<open>Outcomes and sequencing\<close>

datatype 'a outcome = Ok 'a | Err gerror | Panic

type_synonym ('w, 'a) go = "'w \<Rightarrow> 'a outcome \<times> 'w"

fun bind_out :: "'a outcome \<Rightarrow> ('a \<Rightarrow> 'b outcome) \<Rightarrow> 'b outcome" where
  "bind_out (Ok x) k = k x"
| "bind_out (Err e) k = Err e"
| "bind_out Panic k = Panic"

definition ret :: "'a \<Rightarrow> ('w, 'a) go" where
  "ret x w = (Ok x, w)"

definition fail :: "gerror \<Rightarrow> ('w, 'a) go" where
  "fail e w = (Err e, w)"

definition bnd :: "('w, 'a) go \<Rightarrow> ('a \<Rightarrow> ('w, 'b) go) \<Rightarrow> ('w, 'b) go" where
  "bnd m k w = (case m w of
     (Ok x, w1) \<Rightarrow> k x w1
   | (Err e, w1) \<Rightarrow> (Err e, w1)
   | (Panic, w1) \<Rightarrow> (Panic, w1))"

text \<open>\<open>if err := m(); err != nil { return err }; k\<close>\<close>

definition seqn :: "('w, unit) go \<Rightarrow> ('w, 'b) go \<Rightarrow> ('w, 'b) go" where
  "seqn m k = bnd m (\<lambda>_. k)"

text \<open>\<open>if err := m(); err != nil { h(err) } else { k }\<close>: the handler decides what is returned.\<close>

definition handle :: "('w, 'a) go \<Rightarrow> (gerror \<Rightarrow> ('w, 'b) go) \<Rightarrow> ('a \<Rightarrow> ('w, 'b) go) \<Rightarrow> ('w, 'b) go" where
  "handle m h k w = (case m w of
     (Ok x, w1) \<Rightarrow> k x w1
   | (Err e, w1) \<Rightarrow> h e w1
   | (Panic, w1) \<Rightarrow> (Panic, w1))"

text \<open>A computation that does not touch the system.\<close>

definition lift_out :: "'a outcome \<Rightarrow> ('w, 'a) go" where
  "lift_out r w = (r, w)"

text \<open>A read of the system: its state is unchanged.\<close>

definition reads :: "('w \<Rightarrow> 'a outcome) \<Rightarrow> ('w, 'a) go" where
  "reads f w = (f w, w)"

text \<open>\<open>for _, x := range xs { if err := f(x); err != nil { return err } }\<close>\<close>

fun for_each :: "('a \<Rightarrow> ('w, unit) go) \<Rightarrow> 'a list \<Rightarrow> ('w, unit) go" where
  "for_each f [] w = (Ok (), w)"
| "for_each f (x # xs) w = (case f x w of
     (Ok _, w1) \<Rightarrow> for_each f xs w1
   | (Err e, w1) \<Rightarrow> (Err e, w1)
   | (Panic, w1) \<Rightarrow> (Panic, w1))"

lemma ret_run [simp, go_run]: "ret x w = (Ok x, w)"
  by (simp add: ret_def)

lemma fail_run [simp, go_run]: "fail e w = (Err e, w)"
  by (simp add: fail_def)

lemma lift_out_run [simp, go_run]: "lift_out r w = (r, w)"
  by (simp add: lift_out_def)

lemma reads_run [simp, go_run]: "reads f w = (f w, w)"
  by (simp add: reads_def)

lemma bnd_Ok [simp, go_run]: "m w = (Ok x, w1) \<Longrightarrow> bnd m k w = k x w1"
  by (simp add: bnd_def)

lemma bnd_Err [simp, go_run]: "m w = (Err e, w1) \<Longrightarrow> bnd m k w = (Err e, w1)"
  by (simp add: bnd_def)

lemma bnd_Panic [simp, go_run]: "m w = (Panic, w1) \<Longrightarrow> bnd m k w = (Panic, w1)"
  by (simp add: bnd_def)

lemma bnd_eq_Ok:
  "bnd m k w = (Ok y, w2) \<longleftrightarrow> (\<exists>x w1. m w = (Ok x, w1) \<and> k x w1 = (Ok y, w2))"
  by (auto simp: bnd_def split: prod.splits outcome.splits)

lemma bnd_eq_Err:
  "bnd m k w = (Err e, w2) \<longleftrightarrow>
     m w = (Err e, w2) \<or> (\<exists>x w1. m w = (Ok x, w1) \<and> k x w1 = (Err e, w2))"
  by (auto simp: bnd_def split: prod.splits outcome.splits)

lemma seqn_eq_Ok:
  "seqn m k w = (Ok y, w2) \<longleftrightarrow> (\<exists>w1. m w = (Ok (), w1) \<and> k w1 = (Ok y, w2))"
  by (auto simp: seqn_def bnd_eq_Ok)

lemma handle_eq_Ok:
  "handle m h k w = (Ok y, w2) \<longleftrightarrow>
     (\<exists>x w1. m w = (Ok x, w1) \<and> k x w1 = (Ok y, w2)) \<or>
     (\<exists>e w1. m w = (Err e, w1) \<and> h e w1 = (Ok y, w2))"
  by (auto simp: handle_def split: prod.splits outcome.splits)

lemma bind_out_eq_Ok: "bind_out m k = Ok y \<longleftrightarrow> (\<exists>x. m = Ok x \<and> k x = Ok y)"
  by (cases m) auto

lemma for_each_append:
  "for_each f (xs @ ys) w = (case for_each f xs w of
     (Ok _, w1) \<Rightarrow> for_each f ys w1
   | (Err e, w1) \<Rightarrow> (Err e, w1)
   | (Panic, w1) \<Rightarrow> (Panic, w1))"
  by (induction xs arbitrary: w) (auto split: prod.splits outcome.splits)

text \<open>A property of the state that every step keeps is kept by the loop.\<close>

lemma for_each_invariant:
  assumes "\<And>x w. x \<in> set xs \<Longrightarrow> P w \<Longrightarrow> P (snd (f x w))" and "P w"
  shows "P (snd (for_each f xs w))"
  using assms
proof (induction xs arbitrary: w)
  case Nil
  then show ?case by simp
next
  case (Cons x xs)
  have step: "P (snd (f x w))" using Cons.prems by simp
  obtain r w1 where fx: "f x w = (r, w1)" by (cases "f x w")
  show ?case
  proof (cases r)
    case (Ok u)
    have "P (snd (for_each f xs w1))"
      by (rule Cons.IH) (use Cons.prems step fx in auto)
    then show ?thesis by (simp add: fx Ok)
  qed (use step fx in auto)
qed

section \<open>Lists\<close>

text \<open>The optional results of a loop that skips, in order: \<open>continue\<close> gives \<open>None\<close>.\<close>

fun somes :: "'a option list \<Rightarrow> 'a list" where
  "somes [] = []"
| "somes (None # xs) = somes xs"
| "somes (Some x # xs) = x # somes xs"

lemma somes_append [simp]: "somes (xs @ ys) = somes xs @ somes ys"
  by (induction xs rule: somes.induct) auto

lemma set_somes [simp]: "set (somes xs) = {x. Some x \<in> set xs}"
  by (induction xs rule: somes.induct) auto

text \<open>Key-value lists read as Go maps: the last write of a key is the one that is read.\<close>

definition assign_all :: "('k \<times> 'v) list \<Rightarrow> ('k \<rightharpoonup> 'v)" where
  "assign_all kvs = fold (\<lambda>(k, v) m. m(k \<mapsto> v)) kvs Map.empty"

lemma fold_assign: "fold (\<lambda>(k, v) m. m(k \<mapsto> v)) kvs m = m ++ map_of (rev kvs)"
  by (induction kvs arbitrary: m) (auto simp: map_add_def fun_eq_iff split: option.splits)

lemma assign_all_map_of: "assign_all kvs = map_of (rev kvs)"
  by (simp add: assign_all_def fold_assign)

lemma assign_all_append: "assign_all (xs @ ys) = assign_all xs ++ assign_all ys"
  by (simp add: assign_all_map_of)

lemma map_of_only: "(k, v) \<in> set kvs \<Longrightarrow> (\<And>v'. (k, v') \<in> set kvs \<Longrightarrow> v' = v) \<Longrightarrow> map_of kvs k = Some v"
  by (metis weak_map_of_SomeI map_of_SomeD)

end
