(* ===== verification/GoStrings.thy ===== *)
theory GoStrings
  imports Prelude
begin

text \<open>
  The functions of Go's packages \<open>strings\<close>, \<open>bytes\<close> and \<open>bufio\<close> that the repository calls, on byte
  strings: a Go string is a sequence of bytes, and so is an Isabelle \<open>string\<close>. White space is Go's
  \<open>unicode.IsSpace\<close> on the UTF-8 encoding. Last comes the line scanner with its token limit.
\<close>

section \<open>Prefixes, suffixes and substrings\<close>

fun has_prefix :: "string \<Rightarrow> string \<Rightarrow> bool" where
  "has_prefix s [] = True"
| "has_prefix [] (p # ps) = False"
| "has_prefix (c # s) (p # ps) = (c = p \<and> has_prefix s ps)"

definition has_suffix :: "string \<Rightarrow> string \<Rightarrow> bool" where
  "has_suffix s p = (length p \<le> length s \<and> drop (length s - length p) s = p)"

fun contains :: "string \<Rightarrow> string \<Rightarrow> bool" where
  "contains [] p = (p = [])"
| "contains (c # s) p = (has_prefix (c # s) p \<or> contains s p)"

text \<open>\<open>strings.CutPrefix\<close>: the rest and true, or nothing.\<close>

definition cut_prefix :: "string \<Rightarrow> string \<Rightarrow> string option" where
  "cut_prefix s p = (if has_prefix s p then Some (drop (length p) s) else None)"

definition trim_prefix :: "string \<Rightarrow> string \<Rightarrow> string" where
  "trim_prefix s p = (if has_prefix s p then drop (length p) s else s)"

definition trim_suffix :: "string \<Rightarrow> string \<Rightarrow> string" where
  "trim_suffix s p = (if has_suffix s p then take (length s - length p) s else s)"

lemma has_prefix_iff [go_str]: "has_prefix s p \<longleftrightarrow> (\<exists>t. s = p @ t)"
  by (induction s p rule: has_prefix.induct) auto

lemma has_prefix_append [simp]: "has_prefix (p @ t) p"
  by (auto simp: has_prefix_iff)

lemma has_prefix_take: "has_prefix s p \<longleftrightarrow> take (length p) s = p"
  by (induction s p rule: has_prefix.induct) auto

lemma has_suffix_iff [go_str]: "has_suffix s p \<longleftrightarrow> (\<exists>t. s = t @ p)"
proof
  assume "has_suffix s p"
  then have "s = take (length s - length p) s @ p"
    by (metis append_take_drop_id has_suffix_def)
  then show "\<exists>t. s = t @ p" by blast
qed (auto simp: has_suffix_def)

lemma has_suffix_append [simp]: "has_suffix (t @ p) p"
  by (auto simp: has_suffix_iff)

lemma contains_iff [go_str]: "contains s p \<longleftrightarrow> (\<exists>a b. s = a @ p @ b)"
proof (induction s)
  case (Cons c s)
  have "(\<exists>a b. c # s = a @ p @ b) \<longleftrightarrow> (\<exists>b. c # s = p @ b) \<or> (\<exists>a b. s = a @ p @ b)"
    by (metis Cons_eq_append_conv append_Nil)
  then show ?case by (simp add: Cons.IH has_prefix_iff)
qed auto

lemma cut_prefix_append [simp]: "cut_prefix (p @ t) p = Some t"
  by (simp add: cut_prefix_def)

lemma cut_prefix_Some: "cut_prefix s p = Some t \<longleftrightarrow> s = p @ t"
  by (auto simp: cut_prefix_def has_prefix_iff)

section \<open>Splitting at a separator character\<close>

text \<open>\<open>strings.Split(s, sep)\<close> for a separator of one byte: always at least one part.\<close>

fun split :: "char \<Rightarrow> string \<Rightarrow> string list" where
  "split d [] = [[]]"
| "split d (c # s) =
     (if c = d then [] # split d s
      else (case split d s of [] \<Rightarrow> [[c]] | x # xs \<Rightarrow> (c # x) # xs))"

text \<open>\<open>strings.SplitN(s, sep, n)\<close>: at most \<open>n\<close> parts, the last one unsplit.\<close>

fun split_n :: "nat \<Rightarrow> char \<Rightarrow> string \<Rightarrow> string list" where
  "split_n 0 d s = []"
| "split_n (Suc 0) d s = [s]"
| "split_n (Suc (Suc n)) d s =
     (case dropWhile (\<lambda>c. c \<noteq> d) s of
        [] \<Rightarrow> [s]
      | _ # r \<Rightarrow> takeWhile (\<lambda>c. c \<noteq> d) s # split_n (Suc n) d r)"

text \<open>\<open>strings.Cut(s, sep)\<close>: what is before and after the first separator, if there is one.\<close>

definition cut :: "string \<Rightarrow> char \<Rightarrow> (string \<times> string) option" where
  "cut s d = (case dropWhile (\<lambda>c. c \<noteq> d) s of
     [] \<Rightarrow> None
   | _ # r \<Rightarrow> Some (takeWhile (\<lambda>c. c \<noteq> d) s, r))"

fun join :: "string list \<Rightarrow> string \<Rightarrow> string" where
  "join [] sep = []"
| "join [x] sep = x"
| "join (x # y # xs) sep = x @ sep @ join (y # xs) sep"

lemma split_not_Nil [simp]: "split d s \<noteq> []"
  by (induction s) (auto split: list.splits)

lemma split_no_sep [go_str]: "d \<notin> set s \<Longrightarrow> split d s = [s]"
  by (induction s) (auto split: list.splits)

lemma split_append_sep [go_str]: "split d (a @ d # b) = split d a @ split d b"
proof (induction a)
  case (Cons c a)
  then show ?case
    using split_not_Nil [of d a] by (auto split: list.splits)
qed simp

lemma split_parts_no_sep: "p \<in> set (split d s) \<Longrightarrow> d \<notin> set p"
proof (induction s arbitrary: p)
  case (Cons c s)
  then show ?case by (cases "split d s") (auto split: if_splits)
qed auto

lemma join_split [simp]: "join (split d s) [d] = s"
proof (induction s)
  case (Cons c s)
  then show ?case
    by (cases "split d s" rule: list.exhaust) (auto split: list.splits, (metis append_Cons join.simps(2,3) list.exhaust append_Nil)+)
qed auto

lemma split_join:
  "xs \<noteq> [] \<Longrightarrow> (\<And>x. x \<in> set xs \<Longrightarrow> d \<notin> set x) \<Longrightarrow> split d (join xs [d]) = xs"
proof (induction xs "[d]" rule: join.induct)
  case (3 x y xs)
  then show ?case by (simp add: split_append_sep split_no_sep)
qed (auto simp: split_no_sep)

lemma cut_append: "d \<notin> set k \<Longrightarrow> cut (k @ d # v) d = Some (k, v)"
  by (simp add: cut_def dropWhile_append takeWhile_append)

lemma split_two: "d \<notin> set a \<Longrightarrow> d \<notin> set b \<Longrightarrow> split d (a @ d # b) = [a, b]"
  by (simp add: split_append_sep split_no_sep)

section \<open>White space\<close>

text \<open>The ASCII white space, and the UTF-8 encodings of U+0085, U+00A0, U+1680, U+2000 to U+200A,
  U+2028, U+2029, U+202F, U+205F and U+3000.\<close>

definition ascii_space :: "char \<Rightarrow> bool" where
  "ascii_space c = (c \<in> {CHR 0x09, CHR 0x0A, CHR 0x0B, CHR 0x0C, CHR 0x0D, CHR 0x20})"

definition space2 :: "char \<Rightarrow> char \<Rightarrow> bool" where
  "space2 a b = (a = CHR 0xC2 \<and> b \<in> {CHR 0x85, CHR 0xA0})"

definition space3 :: "char \<Rightarrow> char \<Rightarrow> char \<Rightarrow> bool" where
  "space3 a b c =
     (a = CHR 0xE1 \<and> b = CHR 0x9A \<and> c = CHR 0x80 \<or>
      a = CHR 0xE2 \<and> b = CHR 0x80 \<and>
        c \<in> {CHR 0x80, CHR 0x81, CHR 0x82, CHR 0x83, CHR 0x84, CHR 0x85, CHR 0x86, CHR 0x87,
             CHR 0x88, CHR 0x89, CHR 0x8A, CHR 0xA8, CHR 0xA9, CHR 0xAF} \<or>
      a = CHR 0xE2 \<and> b = CHR 0x81 \<and> c = CHR 0x9F \<or>
      a = CHR 0xE3 \<and> b = CHR 0x80 \<and> c = CHR 0x80)"

text \<open>The number of bytes of the white-space rune that a string starts with, 0 if it starts with
  another rune; and the same for the rune that a reversed string ends with.\<close>

fun space_len :: "string \<Rightarrow> nat" where
  "space_len [] = 0"
| "space_len [a] = (if ascii_space a then 1 else 0)"
| "space_len [a, b] = (if ascii_space a then 1 else if space2 a b then 2 else 0)"
| "space_len (a # b # c # s) =
     (if ascii_space a then 1 else if space2 a b then 2 else if space3 a b c then 3 else 0)"

fun space_len_rev :: "string \<Rightarrow> nat" where
  "space_len_rev [] = 0"
| "space_len_rev [a] = (if ascii_space a then 1 else 0)"
| "space_len_rev [b, a] = (if ascii_space b then 1 else if space2 a b then 2 else 0)"
| "space_len_rev (c # b # a # s) =
     (if ascii_space c then 1 else if space2 b c then 2 else if space3 a b c then 3 else 0)"

text \<open>\<open>strings.TrimSpace\<close>; the counter is what is left of the rune being skipped.\<close>

fun trim_with :: "(string \<Rightarrow> nat) \<Rightarrow> nat \<Rightarrow> string \<Rightarrow> string" where
  "trim_with f k [] = []"
| "trim_with f (Suc k) (c # s) = trim_with f k s"
| "trim_with f 0 (c # s) = (case f (c # s) of 0 \<Rightarrow> c # s | Suc k \<Rightarrow> trim_with f k s)"

definition trim_space :: "string \<Rightarrow> string" where
  "trim_space s = rev (trim_with space_len_rev 0 (rev (trim_with space_len 0 s)))"

text \<open>\<open>strings.Fields\<close>: the maximal runs of bytes that are not white space.\<close>

fun fields_from :: "nat \<Rightarrow> string \<Rightarrow> string \<Rightarrow> string list" where
  "fields_from k cur [] = (if cur = [] then [] else [cur])"
| "fields_from (Suc k) cur (c # s) = fields_from k cur s"
| "fields_from 0 cur (c # s) = (case space_len (c # s) of
     0 \<Rightarrow> fields_from 0 (cur @ [c]) s
   | Suc k \<Rightarrow> (if cur = [] then fields_from k [] s else cur # fields_from k [] s))"

definition Fields :: "string \<Rightarrow> string list" where
  "Fields s = fields_from 0 [] s"

text \<open>\<open>strings.FieldsFunc\<close> for a predicate on single bytes.\<close>

definition fields_func :: "(char \<Rightarrow> bool) \<Rightarrow> string \<Rightarrow> string list" where
  "fields_func p s = filter (\<lambda>x. x \<noteq> [])
     (foldr (\<lambda>c ps. if p c then [] # ps else (case ps of [] \<Rightarrow> [[c]] | x # xs \<Rightarrow> (c # x) # xs)) s [[]])"

text \<open>A plain byte is ASCII and not white space: a word of plain bytes is one field.\<close>

definition plain_char :: "char \<Rightarrow> bool" where
  "plain_char c = (of_char c < (128 :: nat) \<and> \<not> ascii_space c)"

definition plain_word :: "string \<Rightarrow> bool" where
  "plain_word w = (w \<noteq> [] \<and> list_all plain_char w)"

lemma plain_char_space_len [simp]:
  assumes "plain_char c" shows "space_len (c # s) = 0"
proof -
  have "\<not> space2 c b" and "\<not> space3 c b d" for b d
    using assms by (auto simp: plain_char_def space2_def space3_def)
  then show ?thesis
    using assms by (cases "c # s" rule: space_len.cases) (auto simp: plain_char_def)
qed

lemma ascii_space_len [simp]: "ascii_space c \<Longrightarrow> space_len (c # s) = 1"
  by (cases "c # s" rule: space_len.cases) auto

lemma ascii_space_space [simp]: "ascii_space CHR '' ''"
  by (simp add: ascii_space_def)

lemma fields_from_word:
  "list_all plain_char w \<Longrightarrow> fields_from 0 cur (w @ s) = fields_from 0 (cur @ w) s"
  by (induction w arbitrary: cur) auto

lemma fields_Nil [simp]: "Fields [] = []"
  by (simp add: Fields_def)

lemma fields_word [go_str]: "plain_word w \<Longrightarrow> Fields w = [w]"
  using fields_from_word [of w "[]" "[]"] by (simp add: Fields_def plain_word_def)

lemma fields_word_space [go_str]:
  assumes "plain_word w" and "ascii_space c"
  shows "Fields (w @ c # s) = w # Fields s"
  using assms fields_from_word [of w "[]" "c # s"] by (simp add: Fields_def plain_word_def)

lemma fields_space [go_str]: "ascii_space c \<Longrightarrow> Fields (c # s) = Fields s"
  by (simp add: Fields_def)

text \<open>A string without a white-space rune at either end is what \<open>TrimSpace\<close> returns unchanged.\<close>

lemma plain_char_space_len_rev [simp]:
  assumes "plain_char c" shows "space_len_rev (c # s) = 0"
proof -
  have "\<not> space2 b c" and "\<not> space3 a b c" for a b
    using assms by (auto simp: plain_char_def space2_def space3_def)
  then show ?thesis
    using assms by (cases "c # s" rule: space_len_rev.cases) (auto simp: plain_char_def)
qed

lemma trim_space_word [go_str]:
  assumes "plain_word w" shows "trim_space w = w"
proof -
  obtain c v where w: "w = c # v" using assms by (cases w) (auto simp: plain_word_def)
  obtain d u where r: "rev w = d # u" using assms by (cases "rev w") (auto simp: plain_word_def)
  have "plain_char c" using assms by (simp add: w plain_word_def)
  moreover have "plain_char d"
    using assms r by (metis list.set_intros(1) list_all_iff plain_word_def set_rev)
  ultimately show ?thesis by (metis plain_char_space_len plain_char_space_len_rev r rev_rev_ident
      trim_space_def trim_with.simps(3) w old.nat.simps(4))
qed

lemma ascii_space_len_rev [simp]: "ascii_space c \<Longrightarrow> space_len_rev (c # s) = 1"
  by (cases "c # s" rule: space_len_rev.cases) auto

lemma trim_space_word_nl [go_str]:
  assumes "plain_word w" and "ascii_space c"
  shows "trim_space (w @ [c]) = w"
proof -
  obtain x v where w: "w = x # v" using assms by (cases w) (auto simp: plain_word_def)
  then have l: "trim_with space_len 0 (w @ [c]) = w @ [c]"
    using assms by (simp add: plain_word_def)
  have "trim_with space_len 0 w = w" using w assms by (simp add: plain_word_def)
  then have "rev (trim_with space_len_rev 0 (rev w)) = w"
    using trim_space_word [OF assms(1)] by (simp add: trim_space_def)
  then show ?thesis using assms(2) by (simp add: trim_space_def l)
qed

section \<open>Cases and character sets\<close>

text \<open>\<open>strings.ToUpper\<close> and \<open>strings.ToLower\<close> on ASCII letters; other bytes are kept.\<close>

definition upper_char :: "char \<Rightarrow> char" where
  "upper_char c = (let n = of_char c :: nat in if 97 \<le> n \<and> n \<le> 122 then char_of (n - 32) else c)"

definition lower_char :: "char \<Rightarrow> char" where
  "lower_char c = (let n = of_char c :: nat in if 65 \<le> n \<and> n \<le> 90 then char_of (n + 32) else c)"

definition to_upper :: "string \<Rightarrow> string" where
  "to_upper s = map upper_char s"

definition to_lower :: "string \<Rightarrow> string" where
  "to_lower s = map lower_char s"

text \<open>\<open>strings.TrimLeft\<close> and \<open>bytes.Trim\<close> with a cutset of single bytes.\<close>

definition trim_left :: "string \<Rightarrow> string \<Rightarrow> string" where
  "trim_left s cutset = dropWhile (\<lambda>c. c \<in> set cutset) s"

definition trim_chars :: "string \<Rightarrow> string \<Rightarrow> string" where
  "trim_chars s cutset = rev (trim_left (rev (trim_left s cutset)) cutset)"

section \<open>The line scanner\<close>

text \<open>
  \<open>bufio.Scanner\<close> with \<open>ScanLines\<close>: the lines without their newline and without one carriage return
  before it; a last line need not end in a newline, and an empty last line is no token. A line of
  \<open>bufio.MaxScanTokenSize\<close> bytes or more stops the scan with \<open>ErrTooLong\<close>.
\<close>

definition max_token :: nat where
  "max_token = 65536"

definition drop_cr :: "string \<Rightarrow> string" where
  "drop_cr s = (if s \<noteq> [] \<and> last s = CHR 0x0D then butlast s else s)"

definition raw_lines :: "string \<Rightarrow> string list" where
  "raw_lines s = (let ps = split CHR 0x0A s in if last ps = [] then butlast ps else ps)"

text \<open>The tokens of a scan, and what \<open>Err()\<close> returns after it: the reader's own error, if any,
  is seen after the last token.\<close>

definition scan_lines :: "string \<Rightarrow> gerror option \<Rightarrow> string list \<times> gerror option" where
  "scan_lines s rderr =
     (let ls = raw_lines s; ok = takeWhile (\<lambda>l. length l < max_token) ls
      in (map drop_cr ok, if length ok < length ls then Some ErrTooLong else rderr))"

lemma raw_lines_Nil [simp]: "raw_lines [] = []"
  by (simp add: raw_lines_def)

lemma raw_lines_Cons:
  assumes "CHR 0x0A \<notin> set l" shows "raw_lines (l @ CHR 0x0A # s) = l # raw_lines s"
  using assms by (simp add: raw_lines_def Let_def split_append_sep split_no_sep)

lemma raw_lines_last:
  assumes "CHR 0x0A \<notin> set l" and "l \<noteq> []" shows "raw_lines l = [l]"
  using assms by (simp add: raw_lines_def split_no_sep)

lemma raw_lines_concat:
  "(\<And>l. l \<in> set ls \<Longrightarrow> CHR 0x0A \<notin> set l) \<Longrightarrow> raw_lines (concat (map (\<lambda>l. l @ [CHR 0x0A]) ls)) = ls"
  by (induction ls) (auto simp: raw_lines_Cons)

text \<open>The line scanner on well-formed lines: no newline and no carriage return in them, and short.\<close>

definition plain_line :: "string \<Rightarrow> bool" where
  "plain_line l = (CHR 0x0A \<notin> set l \<and> CHR 0x0D \<notin> set l \<and> length l < max_token)"

definition text_lines :: "string list \<Rightarrow> string" where
  "text_lines ls = concat (map (\<lambda>l. l @ [CHR 0x0A]) ls)"

lemma scan_text_lines:
  assumes "list_all plain_line ls" shows "scan_lines (text_lines ls) r = (ls, r)"
proof -
  have "raw_lines (text_lines ls) = ls"
    unfolding text_lines_def using assms by (intro raw_lines_concat) (auto simp: plain_line_def list_all_iff)
  moreover have "takeWhile (\<lambda>l. length l < max_token) ls = ls"
    using assms by (subst takeWhile_eq_all_conv) (auto simp: plain_line_def list_all_iff)
  moreover have "drop_cr l = l" if "l \<in> set ls" for l
    using assms that by (auto simp: plain_line_def list_all_iff drop_cr_def dest: last_in_set)
  then have "map drop_cr ls = ls" by (simp add: map_idI)
  ultimately show ?thesis unfolding scan_lines_def Let_def by (simp only: less_irrefl if_False)
qed

section \<open>More on joins\<close>

lemma join_snoc_ne: "xs \<noteq> [] \<Longrightarrow> join (xs @ [x]) sep = join xs sep @ sep @ x"
  by (induction xs sep rule: join.induct) auto

lemma contains_in_set: "contains s [c] \<longleftrightarrow> c \<in> set s"
  by (induction s) auto


lemma set_join: "set (join xs sep) \<subseteq> \<Union> (set ` set xs) \<union> set sep"
  by (induction xs sep rule: join.induct) auto

end
