(* ===== verification/GoNumbers.thy ===== *)
theory GoNumbers
  imports GoStrings
begin

text \<open>
  Decimal printing and parsing of package \<open>strconv\<close> at base 10: \<open>FormatUint\<close>, \<open>FormatInt\<close>,
  \<open>ParseUint\<close>, \<open>ParseInt\<close>, \<open>Atoi\<close>. A parse returns the value and the error together, as in Go, since
  the repository reads the value that comes with \<open>ErrRange\<close>. The contract of a printer and its
  parser is the locale \<open>codec\<close>, interpreted for both pairs.
\<close>

section \<open>Digits\<close>

definition is_digit :: "char \<Rightarrow> bool" where
  "is_digit c = (48 \<le> (of_char c :: nat) \<and> (of_char c :: nat) \<le> 57)"

definition digit_val :: "char \<Rightarrow> nat" where
  "digit_val c = of_char c - 48"

definition digit_char :: "nat \<Rightarrow> char" where
  "digit_char d = char_of (48 + d)"

lemma digit_chars:
  "digit_char 0 = CHR ''0''" "digit_char (Suc 0) = CHR ''1''" "digit_char 2 = CHR ''2''" "digit_char 3 = CHR ''3''"
  "digit_char 4 = CHR ''4''" "digit_char 5 = CHR ''5''" "digit_char 6 = CHR ''6''" "digit_char 7 = CHR ''7''"
  "digit_char 8 = CHR ''8''" "digit_char 9 = CHR ''9''"
  by code_simp+

lemma is_digit_digit_char [simp]: "d < 10 \<Longrightarrow> is_digit (digit_char d)"
  by (simp add: is_digit_def digit_char_def)

lemma digit_val_digit_char [simp]: "d < 10 \<Longrightarrow> digit_val (digit_char d) = d"
  by (simp add: digit_val_def digit_char_def)

lemma digit_val_bound: "is_digit c \<Longrightarrow> digit_val c < 10"
  unfolding is_digit_def digit_val_def by linarith

lemma is_digit_plain: "is_digit c \<Longrightarrow> plain_char c"
  by (auto simp: is_digit_def plain_char_def ascii_space_def)

lemma is_digit_not [simp]:
  "\<not> is_digit CHR ''-''" "\<not> is_digit CHR ''+''" "\<not> is_digit CHR '' ''" "\<not> is_digit CHR '':''"
  "\<not> is_digit CHR ''/''" "\<not> is_digit CHR ''m''" "\<not> is_digit CHR 0x0A" "\<not> is_digit CHR ''=''"
  by (simp_all add: is_digit_def)

section \<open>Printing\<close>

fun show_nat :: "nat \<Rightarrow> string" where
  "show_nat n = (if n < 10 then [digit_char n] else show_nat (n div 10) @ [digit_char (n mod 10)])"

declare show_nat.simps [simp del]

definition FormatUint :: "u64 \<Rightarrow> string" where
  "FormatUint n = show_nat (unat n)"

definition show_int :: "int \<Rightarrow> string" where
  "show_int i = (if i < 0 then CHR ''-'' # show_nat (nat (- i)) else show_nat (nat i))"

definition FormatInt :: "i64 \<Rightarrow> string" where
  "FormatInt n = show_int (sint n)"

text \<open>The equations that evaluate the printing and the parsing of a literal.\<close>

lemmas print_eval = FormatUint_def FormatInt_def show_int_def show_nat.simps digit_chars

lemma show_nat_digits: "list_all is_digit (show_nat n)"
proof (induction n rule: show_nat.induct)
  case (1 n)
  then show ?case by (subst show_nat.simps) (auto simp del: show_nat.simps)
qed

lemma show_nat_not_Nil [simp]: "show_nat n \<noteq> []"
  by (subst show_nat.simps) simp

lemma show_nat_set: "c \<in> set (show_nat n) \<Longrightarrow> is_digit c"
  using show_nat_digits [of n] by (simp add: list_all_iff)

lemma show_nat_hd [simp]: "is_digit (hd (show_nat n))"
  by (rule show_nat_set [of _ n]) simp

lemma show_nat_plain [simp]: "plain_word (show_nat n)"
  using show_nat_digits [of n] by (auto simp: plain_word_def list_all_iff is_digit_plain)

lemma plain_minus [simp]: "plain_char CHR ''-''"
  by (simp add: plain_char_def ascii_space_def)

lemma show_int_plain [simp]: "plain_word (show_int i)"
  using show_nat_plain by (auto simp: show_int_def plain_word_def)

section \<open>Parsing\<close>

text \<open>
  The loop of \<open>ParseUint\<close>: a byte that is no digit is a syntax error, a value past the maximum is a
  range error, whichever comes first.
\<close>

fun parse_digits :: "nat \<Rightarrow> nat \<Rightarrow> string \<Rightarrow> num_error + nat" where
  "parse_digits maxv n [] = Inr n"
| "parse_digits maxv n (c # s) =
     (if \<not> is_digit c then Inl ErrSyntax
      else let n1 = n * 10 + digit_val c
           in if maxv < n1 then Inl ErrRange else parse_digits maxv n1 s)"

definition bit_size :: "nat \<Rightarrow> nat" where
  "bit_size b = (if b = 0 then 64 else b)"

definition ParseUint :: "string \<Rightarrow> nat \<Rightarrow> u64 \<times> num_error option" where
  "ParseUint s bits =
     (if s = [] then (0, Some ErrSyntax)
      else let maxv = 2 ^ bit_size bits - 1
           in case parse_digits maxv 0 s of
                Inr n \<Rightarrow> (of_nat n, None)
              | Inl ErrRange \<Rightarrow> (of_nat maxv, Some ErrRange)
              | Inl ErrSyntax \<Rightarrow> (0, Some ErrSyntax))"

definition ParseInt :: "string \<Rightarrow> nat \<Rightarrow> i64 \<times> num_error option" where
  "ParseInt s bits =
     (case s of
        [] \<Rightarrow> (0, Some ErrSyntax)
      | c # r \<Rightarrow>
          let neg = (c = CHR ''-'');
              digits = (if c = CHR ''+'' \<or> c = CHR ''-'' then r else s);
              cutoff = 2 ^ (bit_size bits - 1) :: nat
          in case ParseUint digits bits of
               (un, Some ErrSyntax) \<Rightarrow> (0, Some ErrSyntax)
             | (un, _) \<Rightarrow>
                 if \<not> neg \<and> cutoff \<le> unat un then (of_nat (cutoff - 1), Some ErrRange)
                 else if neg \<and> cutoff < unat un then (- of_nat cutoff, Some ErrRange)
                 else (if neg then - un else un, None))"

definition Atoi :: "string \<Rightarrow> i64 \<times> num_error option" where
  "Atoi s = ParseInt s 0"

lemmas parse_eval = ParseUint_def ParseInt_def Atoi_def bit_size_def is_digit_def digit_val_def Let_def

text \<open>The value of a digit string, and when the loop reaches its end.\<close>

fun dec_from :: "nat \<Rightarrow> string \<Rightarrow> nat" where
  "dec_from n [] = n"
| "dec_from n (c # s) = dec_from (n * 10 + digit_val c) s"

definition dec_value :: "string \<Rightarrow> nat" where
  "dec_value s = dec_from 0 s"

lemma dec_from_ge: "n \<le> dec_from n s"
proof (induction s arbitrary: n)
  case (Cons c s)
  have "n \<le> n * 10 + digit_val c" by simp
  also have "\<dots> \<le> dec_from (n * 10 + digit_val c) s" by (rule Cons.IH)
  finally show ?case by simp
qed simp

lemma dec_from_append [simp]: "dec_from n (s @ t) = dec_from (dec_from n s) t"
  by (induction s arbitrary: n) auto

lemma parse_digits_Inr:
  "n \<le> maxv \<Longrightarrow> parse_digits maxv n s = Inr m \<longleftrightarrow>
     list_all is_digit s \<and> dec_from n s \<le> maxv \<and> m = dec_from n s"
proof (induction s arbitrary: n)
  case (Cons c s)
  have "n * 10 + digit_val c \<le> dec_from (n * 10 + digit_val c) s" by (rule dec_from_ge)
  then show ?case using Cons by (auto simp: Let_def)
qed auto

lemma parse_digits_range:
  "list_all is_digit s \<Longrightarrow> n \<le> maxv \<Longrightarrow> maxv < dec_from n s \<Longrightarrow> parse_digits maxv n s = Inl ErrRange"
proof (induction s arbitrary: n)
  case (Cons c s)
  then show ?case by (auto simp: Let_def not_less)
qed auto

lemma dec_value_show_nat [simp]: "dec_from 0 (show_nat n) = n"
proof (induction n rule: show_nat.induct)
  case (1 n)
  then show ?case by (subst show_nat.simps) auto
qed

lemma ParseUint_digits:
  assumes "s \<noteq> []" and "list_all is_digit s" and "dec_value s < 2 ^ bit_size bits"
  shows "ParseUint s bits = (of_nat (dec_value s), None)"
proof -
  have "parse_digits (2 ^ bit_size bits - 1) 0 s = Inr (dec_value s)"
    using assms by (subst parse_digits_Inr) (auto simp: dec_value_def)
  then show ?thesis using assms(1) by (simp add: ParseUint_def)
qed

lemma ParseUint_range:
  assumes "s \<noteq> []" and "list_all is_digit s" and "2 ^ bit_size bits \<le> dec_value s"
  shows "ParseUint s bits = (of_nat (2 ^ bit_size bits - 1), Some ErrRange)"
proof -
  have pos: "(0::nat) < 2 ^ bit_size bits" by simp
  have "2 ^ bit_size bits - 1 < dec_from 0 s"
    using assms(3) pos unfolding dec_value_def by linarith
  then have h: "parse_digits (2 ^ bit_size bits - 1) 0 s = Inl ErrRange"
    by (intro parse_digits_range assms) simp_all
  show ?thesis
    by (simp only: ParseUint_def Let_def h assms(1) if_False sum.case num_error.case)
qed

lemma ParseUint_not_digit:
  assumes "\<not> is_digit c" shows "ParseUint (c # s) bits = (0, Some ErrSyntax)"
  using assms by (simp add: ParseUint_def)

text \<open>Success of \<open>ParseUint\<close> says exactly that the string is a number in range.\<close>

lemma ParseUint_None_iff:
  "ParseUint s bits = (v, None) \<longleftrightarrow>
     s \<noteq> [] \<and> list_all is_digit s \<and> dec_value s < 2 ^ bit_size bits \<and> v = of_nat (dec_value s)"
proof (cases "parse_digits (2 ^ bit_size bits - 1) 0 s")
  case (Inl e)
  then have "\<not> (list_all is_digit s \<and> dec_from 0 s \<le> 2 ^ bit_size bits - 1)"
    using parse_digits_Inr [of 0 "2 ^ bit_size bits - 1" s] by auto
  then have "\<not> (list_all is_digit s \<and> dec_value s < 2 ^ bit_size bits)"
    by (auto simp: dec_value_def)
  moreover have "snd (ParseUint s bits) \<noteq> None"
    by (cases "s = []"; cases e)
       (simp_all only: ParseUint_def Let_def Inl simp_thms if_False if_True sum.case num_error.case snd_conv
          option.distinct not_False_eq_True)
  ultimately show ?thesis by auto
next
  case (Inr m)
  then have m: "list_all is_digit s" "dec_from 0 s \<le> 2 ^ bit_size bits - 1" "m = dec_from 0 s"
    using parse_digits_Inr [of 0 "2 ^ bit_size bits - 1" s m] by auto
  have pos: "(0::nat) < 2 ^ bit_size bits" by simp
  have lt: "dec_value s < 2 ^ bit_size bits"
    using m(2) pos unfolding dec_value_def by linarith
  have eq: "ParseUint s bits = (if s = [] then (0, Some ErrSyntax) else (of_nat (dec_value s), None))"
    by (simp only: ParseUint_def Let_def Inr sum.case m(3) dec_value_def)
  show ?thesis unfolding eq using m(1) lt by auto
qed

lemma uint_sint_pos: "0 \<le> sint (v :: 'a::len word) \<Longrightarrow> uint v = sint v"
proof -
  assume h: "0 \<le> sint v"
  have "sint v < 2 ^ LENGTH('a)"
    using sint_lt [of v] by (rule less_le_trans) (simp add: power_increasing)
  then show ?thesis using h by (simp add: uint_sint take_bit_int_eq_self)
qed

lemma bit_size_0: "bit_size 0 = bit_size 64"
  by (simp add: bit_size_def)

lemma ParseUint_bits_0: "ParseUint s 0 = ParseUint s 64"
  by (simp only: ParseUint_def bit_size_0)

lemma Atoi_bits: "Atoi s = ParseInt s 64"
  by (simp only: Atoi_def ParseInt_def ParseUint_bits_0 bit_size_0)

lemma uint_ucast64 [simp]: "uint (ucast (y :: u32) :: u64) = uint y"
  using unsigned_less [of y, where ?'a = int] by (simp add: unsigned_ucast_eq take_bit_int_eq_self)

lemma ucast_ucast32 [simp]: "ucast (ucast (x :: u32) :: u64) = x"
  by (rule word_uint_eqI, subst unsigned_ucast_eq)
     (use unsigned_less [of x, where ?'a = int] in \<open>simp add: take_bit_int_eq_self\<close>)

lemma sint_of_nat_small: "n < 2 ^ 63 \<Longrightarrow> sint (of_nat n :: i64) = int n"
  by (simp add: signed_of_nat signed_take_bit_int_eq_self)

section \<open>Round trips\<close>

text \<open>What a caller relies on when one side prints and the other parses.\<close>

locale codec =
  fixes print_val :: "'a \<Rightarrow> string" and parse_val :: "string \<Rightarrow> 'a \<times> num_error option"
  assumes parse_print: "parse_val (print_val x) = (x, None)"
    and print_plain: "plain_word (print_val x)"
begin

lemma print_inj: "print_val x = print_val y \<longleftrightarrow> x = y"
  by (metis parse_print prod.inject)

text \<open>A printed value is one field of a line, and one part at any white-space separator.\<close>

lemma fields_print: "Fields (print_val x) = [print_val x]"
  by (rule fields_word [OF print_plain])

lemma trim_print_nl: "trim_space (print_val x @ [CHR 0x0A]) = print_val x"
  by (rule trim_space_word_nl [OF print_plain]) (simp add: ascii_space_def)

lemma print_not_Nil: "print_val x \<noteq> []"
  using print_plain by (simp add: plain_word_def)

lemma print_no_space: "CHR '' '' \<notin> set (print_val x)"
  using print_plain [of x] by (auto simp: plain_word_def list_all_iff plain_char_def ascii_space_def)

lemma print_no_newline: "CHR 0x0A \<notin> set (print_val x)"
  using print_plain [of x] by (auto simp: plain_word_def list_all_iff plain_char_def ascii_space_def)

end

lemma ParseUint_FormatUint: "ParseUint (FormatUint n) 64 = (n, None)"
proof -
  have "unat n < 2 ^ 64" using unsigned_less [of n, where ?'a = nat] by simp
  then show ?thesis
    by (subst ParseUint_digits)
       (simp_all add: FormatUint_def show_nat_digits dec_value_def bit_size_def)
qed

lemma ParseInt_digits:
  assumes "list_all is_digit s" "s \<noteq> []" "dec_value s < 2 ^ 63"
  shows "ParseInt s 64 = (of_nat (dec_value s), None)"
proof -
  obtain c r where s: "s = c # r" using assms(2) by (cases s) auto
  have c: "c \<noteq> CHR ''-''" "c \<noteq> CHR ''+''" using assms(1) by (auto simp: s)
  have "ParseUint s 64 = (of_nat (dec_value s), None)"
    using assms by (intro ParseUint_digits) (auto simp: bit_size_def)
  moreover have "unat (of_nat (dec_value s) :: u64) = dec_value s"
    using assms(3) by (simp add: unat_of_nat)
  ultimately show ?thesis using assms(3) c by (simp add: ParseInt_def s bit_size_def)
qed

lemma ParseInt_neg:
  assumes "list_all is_digit s" "s \<noteq> []" "dec_value s \<le> 2 ^ 63"
  shows "ParseInt (CHR ''-'' # s) 64 = (- of_nat (dec_value s), None)"
proof -
  have "ParseUint s 64 = (of_nat (dec_value s), None)"
    using assms by (intro ParseUint_digits) (auto simp: bit_size_def)
  moreover have "unat (of_nat (dec_value s) :: u64) = dec_value s"
    using assms(3) by (simp add: unat_of_nat)
  ultimately show ?thesis using assms(3) by (simp add: ParseInt_def bit_size_def)
qed

lemma ParseInt_FormatInt: "ParseInt (FormatInt n) 64 = (n, None)"
proof (cases "sint n < 0")
  case True
  have "- (2 ^ 63) \<le> sint n" using sint_ge [of n] by simp
  then have "nat (- sint n) \<le> 2 ^ 63" by simp
  then have "ParseInt (FormatInt n) 64 = (- of_nat (nat (- sint n)), None)"
    using True by (simp add: FormatInt_def show_int_def)
      (subst ParseInt_neg, simp_all add: show_nat_digits dec_value_def)
  also have "- of_nat (nat (- sint n)) = n"
    using True by (subst of_nat_nat) simp_all
  finally show ?thesis .
next
  case False
  have "sint n < 2 ^ 63" using sint_lt [of n] by simp
  then have "nat (sint n) < 2 ^ 63" using False by simp
  then have "ParseInt (FormatInt n) 64 = (of_nat (nat (sint n)), None)"
    using False by (simp add: FormatInt_def show_int_def)
      (subst ParseInt_digits, simp_all add: show_nat_digits dec_value_def)
  also have "of_nat (nat (sint n)) = n"
    using False by (subst of_nat_nat) simp_all
  finally show ?thesis .
qed

interpretation uint_codec: codec FormatUint "\<lambda>s. ParseUint s 64"
  by unfold_locales (simp_all add: ParseUint_FormatUint, simp add: FormatUint_def)

interpretation int_codec: codec FormatInt "\<lambda>s. ParseInt s 64"
  by unfold_locales (simp_all add: ParseInt_FormatInt, simp add: FormatInt_def)

end
