(* ===== verification/GoPaths.thy ===== *)
theory GoPaths
  imports GoNumbers
begin

text \<open>
  The lexical functions of Go's package \<open>path/filepath\<close> on Unix: \<open>Clean\<close>, \<open>Join\<close>, \<open>Split\<close>,
  \<open>Dir\<close>, \<open>IsAbs\<close> and \<open>Rel\<close>. A clean absolute path is the list of its elements, each of them proper
  (not empty, not a dot element, without a slash); the lemmas reduce every function to that list.
\<close>

section \<open>Clean\<close>

definition is_abs :: "string \<Rightarrow> bool" where
  "is_abs p = has_prefix p ''/''"

text \<open>The elements kept so far are on a stack, the last one first.\<close>

fun clean_comps :: "bool \<Rightarrow> string list \<Rightarrow> string list \<Rightarrow> string list" where
  "clean_comps rooted st [] = rev st"
| "clean_comps rooted st (c # cs) =
     (if c = [] \<or> c = ''.'' then clean_comps rooted st cs
      else if c = ''..'' then
        (case st of
           x # xs \<Rightarrow> if x = ''..'' then clean_comps rooted (c # st) cs else clean_comps rooted xs cs
         | [] \<Rightarrow> if rooted then clean_comps rooted [] cs else clean_comps rooted [c] cs)
      else clean_comps rooted (c # st) cs)"

definition render_path :: "bool \<Rightarrow> string list \<Rightarrow> string" where
  "render_path rooted cs =
     (if rooted then CHR ''/'' # join cs ''/'' else if cs = [] then ''.'' else join cs ''/'')"

definition path_clean :: "string \<Rightarrow> string" where
  "path_clean p = render_path (is_abs p) (clean_comps (is_abs p) [] (split CHR ''/'' p))"

text \<open>\<open>filepath.Join\<close>: empty elements at the front are dropped, the rest is joined and cleaned.\<close>

definition path_join :: "string list \<Rightarrow> string" where
  "path_join es = (case dropWhile (\<lambda>e. e = []) es of [] \<Rightarrow> [] | ds \<Rightarrow> path_clean (join ds ''/''))"

text \<open>\<open>filepath.Split\<close>: the directory with its last slash, and the file name.\<close>

definition path_split :: "string \<Rightarrow> string \<times> string" where
  "path_split p =
     (rev (dropWhile (\<lambda>c. c \<noteq> CHR ''/'') (rev p)), rev (takeWhile (\<lambda>c. c \<noteq> CHR ''/'') (rev p)))"

definition path_dir :: "string \<Rightarrow> string" where
  "path_dir p = path_clean (fst (path_split p))"

text \<open>\<open>filepath.Rel\<close>: from the cleaned base to the cleaned target.\<close>

definition comps :: "string \<Rightarrow> string list" where
  "comps p = filter (\<lambda>c. c \<noteq> []) (split CHR ''/'' p)"

fun strip_common :: "string list \<Rightarrow> string list \<Rightarrow> string list \<times> string list" where
  "strip_common (b # bs) (t # ts) = (if b = t then strip_common bs ts else (b # bs, t # ts))"
| "strip_common bs ts = (bs, ts)"

definition path_rel :: "string \<Rightarrow> string \<Rightarrow> string outcome" where
  "path_rel basepath targpath =
     (let b = path_clean basepath; t = path_clean targpath
      in if t = b then Ok ''.''
         else let b1 = (if b = ''.'' then [] else b)
         in if is_abs b1 \<noteq> is_abs t then Err (ErrMsg (''Rel: can't make '' @ targpath @ '' relative to '' @ basepath))
         else (case strip_common (comps b1) (comps t) of
             (rb, rt) \<Rightarrow>
               if rt \<noteq> [] \<and> rb \<noteq> [] \<and> hd rb = ''..''
               then Err (ErrMsg (''Rel: can't make '' @ targpath @ '' relative to '' @ basepath))
               else Ok (join (replicate (length rb) ''..'' @ rt) ''/'')))"

section \<open>Clean absolute paths as lists of proper elements\<close>

definition proper :: "string \<Rightarrow> bool" where
  "proper c = (c \<noteq> [] \<and> c \<noteq> ''.'' \<and> c \<noteq> ''..'' \<and> CHR ''/'' \<notin> set c)"

abbreviation proper_path :: "string list \<Rightarrow> bool" where
  "proper_path cs \<equiv> list_all proper cs"

abbreviation abs_path :: "string list \<Rightarrow> string" where
  "abs_path cs \<equiv> render_path True cs"

lemma is_abs_abs_path [simp]: "is_abs (abs_path cs)"
  by (simp add: is_abs_def render_path_def)

lemma abs_path_not_Nil [simp]: "abs_path cs \<noteq> []"
  by (simp add: render_path_def)

lemma clean_comps_proper: "proper_path cs \<Longrightarrow> clean_comps r st (cs @ ds) = clean_comps r (rev cs @ st) ds"
  by (induction cs arbitrary: st) (auto simp: proper_def)

lemma clean_comps_proper_Nil [simp]: "proper_path cs \<Longrightarrow> clean_comps r st cs = rev st @ cs"
  using clean_comps_proper [of cs r st "[]"] by simp

text \<open>A rooted path never keeps a dot element.\<close>

lemma proper_clean_comps:
  "proper_path st \<Longrightarrow> (\<And>c. c \<in> set cs \<Longrightarrow> CHR ''/'' \<notin> set c) \<Longrightarrow> proper_path (clean_comps True st cs)"
proof (induction cs arbitrary: st)
  case Nil
  then show ?case by (simp add: list_all_iff)
next
  case (Cons c cs)
  then show ?case by (auto simp: proper_def split: list.splits)
qed

lemma split_abs_path: "proper_path cs \<Longrightarrow> split CHR ''/'' (abs_path cs) = [] # (if cs = [] then [[]] else cs)"
  using split_join [of cs "CHR ''/''"] by (auto simp: render_path_def proper_def list_all_iff)

lemma path_clean_abs_path [simp]: "proper_path cs \<Longrightarrow> path_clean (abs_path cs) = abs_path cs"
  by (auto simp: path_clean_def split_abs_path)

text \<open>The elements of the clean form of an absolute path.\<close>

definition abs_comps :: "string \<Rightarrow> string list" where
  "abs_comps p = clean_comps True [] (split CHR ''/'' p)"

lemma proper_abs_comps [simp]: "proper_path (abs_comps p)"
  unfolding abs_comps_def by (rule proper_clean_comps) (auto dest: split_parts_no_sep)

lemma path_clean_abs: "is_abs p \<Longrightarrow> path_clean p = abs_path (abs_comps p)"
  by (simp add: path_clean_def abs_comps_def)

lemma abs_comps_abs_path [simp]: "proper_path cs \<Longrightarrow> abs_comps (abs_path cs) = cs"
  by (auto simp: abs_comps_def split_abs_path)

lemma abs_path_inj: "proper_path cs \<Longrightarrow> proper_path ds \<Longrightarrow> abs_path cs = abs_path ds \<longleftrightarrow> cs = ds"
  by (metis abs_comps_abs_path)

lemma clean_abs_iff: "is_abs p \<and> path_clean p = p \<longleftrightarrow> (\<exists>cs. proper_path cs \<and> p = abs_path cs)"
  by (metis is_abs_abs_path path_clean_abs path_clean_abs_path proper_abs_comps)

text \<open>Joining below a clean absolute path.\<close>

lemma path_join_abs:
  assumes "proper_path cs"
  shows "path_join [abs_path cs, e] = abs_path (clean_comps True (rev cs) (split CHR ''/'' e))"
proof -
  have abs: "is_abs (abs_path cs @ ''/'' @ e)"
    by (simp add: is_abs_def render_path_def)
  have "split CHR ''/'' (abs_path cs @ ''/'' @ e) = split CHR ''/'' (abs_path cs) @ split CHR ''/'' e"
    by (simp add: split_append_sep)
  then have "abs_comps (abs_path cs @ ''/'' @ e) = clean_comps True (rev cs) (split CHR ''/'' e)"
    using assms by (auto simp: abs_comps_def split_abs_path clean_comps_proper)
  then show ?thesis
    using path_clean_abs [OF abs] by (simp add: path_join_def)
qed

lemma path_join_proper [simp, go_path]:
  assumes "proper_path cs" and "proper c"
  shows "path_join [abs_path cs, c] = abs_path (cs @ [c])"
  using assms path_join_abs [of cs c] by (simp add: split_no_sep proper_def)

lemma path_join_abs_abs [simp, go_path]:
  assumes "proper_path cs" and "proper_path ds"
  shows "path_join [abs_path cs, abs_path ds] = abs_path (cs @ ds)"
  using assms path_join_abs [of cs "abs_path ds"] by (auto simp: split_abs_path)

text \<open>Whatever is joined below a path without going up stays below it.\<close>

definition below :: "string \<Rightarrow> string \<Rightarrow> bool" where
  "below root p = (\<exists>cs ds. proper_path cs \<and> proper_path ds \<and> root = abs_path cs \<and> p = abs_path (cs @ ds))"

lemma below_refl: "proper_path cs \<Longrightarrow> below (abs_path cs) (abs_path cs)"
  unfolding below_def by (rule exI [of _ cs], rule exI [of _ "[]"]) simp

lemma below_append: "proper_path cs \<Longrightarrow> proper_path ds \<Longrightarrow> below (abs_path cs) (abs_path (cs @ ds))"
  unfolding below_def by blast

lemma below_trans:
  assumes "below a b" and "below b c" shows "below a c"
proof -
  obtain cs ds where a: "proper_path cs" "proper_path ds" "a = abs_path cs" "b = abs_path (cs @ ds)"
    using assms(1) by (auto simp: below_def)
  obtain es fs where b: "proper_path es" "proper_path fs" "b = abs_path es" "c = abs_path (es @ fs)"
    using assms(2) by (auto simp: below_def)
  have "es = cs @ ds" using a b by (simp add: abs_path_inj)
  then have "c = abs_path (cs @ (ds @ fs))" using b by simp
  then show ?thesis using a b below_append [of cs "ds @ fs"] by simp
qed

lemma render_append:
  "cs \<noteq> [] \<Longrightarrow> abs_path (cs @ ds) = abs_path cs @ concat (map (\<lambda>d. CHR ''/'' # d) ds)"
proof -
  assume ne: "cs \<noteq> []"
  have "join (cs @ ds) ''/'' = join cs ''/'' @ concat (map (\<lambda>d. CHR ''/'' # d) ds)"
    using ne by (induction cs "''/''" rule: join.induct) (induction ds, auto)+
  then show ?thesis by (simp add: render_path_def)
qed

text \<open>Splitting off the last element.\<close>

lemma path_split_append:
  "CHR ''/'' \<notin> set f \<Longrightarrow> path_split (d @ ''/'' @ f) = (d @ ''/'', f)"
  by (auto simp: path_split_def takeWhile_append dropWhile_append)

lemma abs_path_snoc: "abs_path (cs @ [c]) = (if cs = [] then [] else abs_path cs) @ ''/'' @ c"
  by (cases "cs = []") (simp_all add: render_append, simp add: render_path_def)

lemma path_split_abs_path:
  assumes "CHR ''/'' \<notin> set c"
  shows "snd (path_split (abs_path (cs @ [c]))) = c"
  unfolding abs_path_snoc by (simp only: path_split_append [OF assms] snd_conv)

lemma path_dir_abs_path [simp, go_path]:
  assumes "proper_path (cs @ [c])"
  shows "path_dir (abs_path (cs @ [c])) = abs_path cs"
proof -
  let ?d = "(if cs = [] then [] else abs_path cs) @ ''/''"
  have c: "CHR ''/'' \<notin> set c" using assms by (simp add: proper_def)
  have "fst (path_split (abs_path (cs @ [c]))) = ?d"
    using path_split_append [OF c, of "if cs = [] then [] else abs_path cs"]
    by (simp add: abs_path_snoc)
  moreover have "path_clean ?d = abs_path cs"
  proof -
    have abs: "is_abs ?d" by (simp add: is_abs_def render_path_def)
    have "abs_comps ?d = cs"
      using assms by (auto simp: abs_comps_def split_append_sep split_abs_path clean_comps_proper)
    then show ?thesis using path_clean_abs [OF abs] by simp
  qed
  ultimately show ?thesis by (simp add: path_dir_def)
qed

lemma path_dir_root [simp, go_path]: "path_dir (abs_path []) = abs_path []"
  by (simp add: path_dir_def path_split_def render_path_def path_clean_def is_abs_def)

text \<open>Relative clean paths.\<close>

lemma rel_not_abs:
  assumes "proper c" shows "\<not> is_abs (join (c # cs) ''/'')"
  using assms by (cases cs; cases c) (auto simp: proper_def is_abs_def)

lemma path_clean_rel:
  assumes "proper_path cs" and "cs \<noteq> []" shows "path_clean (join cs ''/'') = join cs ''/''"
proof -
  have "split CHR ''/'' (join cs ''/'') = cs"
    using assms by (intro split_join) (auto simp: proper_def list_all_iff)
  moreover have "\<not> is_abs (join cs ''/'')" using assms rel_not_abs by (cases cs) auto
  ultimately show ?thesis using assms by (simp add: path_clean_def render_path_def)
qed

lemma path_join_rel:
  assumes "proper_path (cs @ [c])"
  shows "path_join [join cs ''/'', c] = join (cs @ [c]) ''/''"
proof (cases "cs = []")
  case True
  then show ?thesis using assms path_clean_rel [of "[c]"] by (simp add: path_join_def proper_def)
next
  case False
  then have ne: "join cs ''/'' \<noteq> []" using assms by (cases cs; cases "tl cs") (auto simp: proper_def)
  have "join [join cs ''/'', c] ''/'' = join (cs @ [c]) ''/''" using False by (simp add: join_snoc_ne)
  then show ?thesis using ne path_clean_rel [OF assms] by (simp add: path_join_def)
qed

text \<open>The equations that evaluate a literal path.\<close>

lemmas path_eval = path_join_def path_clean_def is_abs_def render_path_def

end
