(* ===== verification/GoOS.thy ===== *)
theory GoOS
  imports GoPaths "HOL-Library.List_Lexorder" "HOL-Library.Char_ord" "HOL-Library.AList"
begin

text \<open>
  The operating system as the repository uses it through Go's package \<open>os\<close>. The kernel and its cgroup
  file system are no code of the repository: they are a parameter, a record \<open>'w os\<close> of functions on
  an arbitrary system state \<open>'w\<close>, and every definition of the model that touches files takes that
  record as its first argument. The system changes at writes, removals and sleeps; one read is atomic.

  Then come the library functions built on it (\<open>os.ReadFile\<close>, \<open>os.Lstat\<close>, a read into a buffer of 32
  bytes, \<open>filepath.Walk\<close>), the contract that clients of an ordinary directory rely on (locale
  \<open>disk\<close>), and the package \<open>os\<close> on a directory tree held in memory with injected faults, which
  provides that contract: the mock hierarchy that the repository's tests run the package on.
\<close>

section \<open>The interface\<close>

text \<open>A directory tree: a file, a directory with what listing it fails with and its entries in
  lexical order, or an entry that cannot be inspected.\<close>

datatype fnode = NFile | NDir "gerror option" "(string \<times> fnode) list" | NBad gerror

record 'w os =
  os_open :: "string \<Rightarrow> 'w \<Rightarrow> gerror + string \<times> gerror option"
    \<comment> \<open>opening a file and reading it: the bytes delivered, then an error or the end of the file\<close>
  os_write_file :: "string \<Rightarrow> string \<Rightarrow> 'w \<Rightarrow> gerror option \<times> 'w"
    \<comment> \<open>\<open>os.WriteFile\<close>: open for writing, created if need be, and write\<close>
  os_open_file :: "bool \<Rightarrow> string \<Rightarrow> 'w \<Rightarrow> gerror option \<times> 'w"
    \<comment> \<open>\<open>os.OpenFile\<close> with \<open>O_WRONLY\<close>, and \<open>O_CREATE\<close> if the flag is set\<close>
  os_fd_write :: "string \<Rightarrow> string \<Rightarrow> 'w \<Rightarrow> gerror option \<times> 'w"
    \<comment> \<open>one \<open>Write\<close> to the file opened at that path\<close>
  os_mkdir_all :: "string \<Rightarrow> 'w \<Rightarrow> gerror option \<times> 'w"
  os_remove :: "string \<Rightarrow> 'w \<Rightarrow> gerror option \<times> 'w"
  os_remove_all :: "string \<Rightarrow> 'w \<Rightarrow> gerror option \<times> 'w"
  os_tree :: "string \<Rightarrow> 'w \<Rightarrow> fnode"
  os_sleep :: "nat \<Rightarrow> 'w \<Rightarrow> 'w"
    \<comment> \<open>\<open>time.Sleep\<close>, in milliseconds\<close>

text \<open>A call whose error is returned to the caller, and one whose error is dropped.\<close>

definition sys :: "('w \<Rightarrow> gerror option \<times> 'w) \<Rightarrow> ('w, unit) go" where
  "sys f w = (case f w of (None, w1) \<Rightarrow> (Ok (), w1) | (Some e, w1) \<Rightarrow> (Err e, w1))"

definition ignoring :: "('w \<Rightarrow> gerror option \<times> 'w) \<Rightarrow> 'w \<Rightarrow> 'w" where
  "ignoring f w = snd (f w)"

lemma sys_Ok [simp, go_run]: "f w = (None, w1) \<Longrightarrow> sys f w = (Ok (), w1)"
  by (simp add: sys_def)

lemma sys_Err [simp, go_run]: "f w = (Some e, w1) \<Longrightarrow> sys f w = (Err e, w1)"
  by (simp add: sys_def)

lemma sys_eq_Ok: "sys f w = (Ok u, w1) \<longleftrightarrow> f w = (None, w1)"
  by (auto simp: sys_def split: prod.splits option.splits)

lemma sys_eq_Err: "sys f w = (Err e, w1) \<longleftrightarrow> f w = (Some e, w1)"
  by (auto simp: sys_def split: prod.splits option.splits)

lemma sys_no_Panic [simp]: "sys f w \<noteq> (Panic, w1)"
  by (auto simp: sys_def split: prod.splits option.splits)

section \<open>Reading\<close>

definition ReadFile :: "'w os \<Rightarrow> string \<Rightarrow> 'w \<Rightarrow> string outcome" where
  "ReadFile os p w = (case os_open os p w of
     Inl e \<Rightarrow> Err e
   | Inr (d, None) \<Rightarrow> Ok d
   | Inr (d, Some e) \<Rightarrow> Err e)"

text \<open>One \<open>Read\<close> into a buffer of 32 bytes: what is there, or the error of an empty file.\<close>

definition read32 :: "string \<times> gerror option \<Rightarrow> string outcome" where
  "read32 f = (case f of (d, r) \<Rightarrow>
     if d \<noteq> [] then Ok (take 32 d) else (case r of None \<Rightarrow> Err ErrEOF | Some e \<Rightarrow> Err e))"

definition Lstat :: "'w os \<Rightarrow> string \<Rightarrow> 'w \<Rightarrow> gerror option" where
  "Lstat os p w = (case os_tree os p w of NBad e \<Rightarrow> Some e | _ \<Rightarrow> None)"

section \<open>Walking a tree\<close>

datatype walk_result = WOk | WSkipDir | WErr gerror

text \<open>
  \<open>filepath.Walk\<close>. The callback gets the path, whether it is a directory (nothing if it could not be
  inspected) and the error met there, and threads a state of its own.
\<close>

type_synonym 's walk_fn = "string \<Rightarrow> bool option \<Rightarrow> gerror option \<Rightarrow> 's \<Rightarrow> walk_result \<times> 's"

fun walk :: "'s walk_fn \<Rightarrow> string \<Rightarrow> fnode \<Rightarrow> 's \<Rightarrow> walk_result \<times> 's"
  and walk_entries :: "'s walk_fn \<Rightarrow> string \<Rightarrow> (string \<times> fnode) list \<Rightarrow> 's \<Rightarrow> walk_result \<times> 's"
where
  "walk fn p NFile s = fn p (Some False) None s"
| "walk fn p (NBad e) s = fn p None (Some e) s"
| "walk fn p (NDir rd kids) s = (case fn p (Some True) rd s of
     (WOk, s1) \<Rightarrow> if rd \<noteq> None then (WOk, s1) else walk_entries fn p kids s1
   | r \<Rightarrow> r)"
| "walk_entries fn p [] s = (WOk, s)"
| "walk_entries fn p ((name, n) # ns) s = (case walk fn (path_join [p, name]) n s of
     (WOk, s1) \<Rightarrow> walk_entries fn p ns s1
   | (WSkipDir, s1) \<Rightarrow> (if n = NFile then (WSkipDir, s1) else walk_entries fn p ns s1)
   | (WErr e, s1) \<Rightarrow> (WErr e, s1))"

definition Walk :: "'w os \<Rightarrow> string \<Rightarrow> 's walk_fn \<Rightarrow> 'w \<Rightarrow> 's \<Rightarrow> gerror option \<times> 's" where
  "Walk os root fn w s = (case walk fn root (os_tree os root w) s of
     (WErr e, s1) \<Rightarrow> (Some e, s1) | (_, s1) \<Rightarrow> (None, s1))"

section \<open>The contract of an ordinary directory\<close>

text \<open>
  What the clients of the package rely on when files behave like files: on the paths that are
  writable, a write succeeds and is read back, other paths keep their contents, and writable
  paths stay writable. \<open>wf\<close> is the invariant of the system state.
\<close>

locale disk =
  fixes os :: "'w os" and wf :: "'w \<Rightarrow> bool" and writable :: "string \<Rightarrow> 'w \<Rightarrow> bool"
  assumes write_ok: "wf w \<Longrightarrow> writable p w \<Longrightarrow> fst (os_write_file os p d w) = None"
    and write_wf: "wf w \<Longrightarrow> writable p w \<Longrightarrow> wf (snd (os_write_file os p d w))"
    and write_read: "wf w \<Longrightarrow> writable p w \<Longrightarrow> os_open os p (snd (os_write_file os p d w)) = Inr (d, None)"
    and write_other: "wf w \<Longrightarrow> writable p w \<Longrightarrow> q \<noteq> p \<Longrightarrow>
      os_open os q (snd (os_write_file os p d w)) = os_open os q w"
    and write_writable: "wf w \<Longrightarrow> writable p w \<Longrightarrow> writable q w \<Longrightarrow>
      writable q (snd (os_write_file os p d w))"
begin

abbreviation write_all :: "(string \<times> string) list \<Rightarrow> ('w, unit) go" where
  "write_all pds \<equiv> for_each (\<lambda>pd. sys (os_write_file os (fst pd) (snd pd))) pds"

text \<open>A batch of writes to writable paths succeeds, and leaves at every path the last bytes written
  to it, or what was there.\<close>

lemma write_all_ok:
  assumes "wf w" and "\<And>pd. pd \<in> set pds \<Longrightarrow> writable (fst pd) w"
  shows "\<exists>w1. write_all pds w = (Ok (), w1) \<and> wf w1 \<and> (\<forall>q. writable q w \<longrightarrow> writable q w1) \<and>
     (\<forall>q. os_open os q w1 = (case assign_all pds q of Some d \<Rightarrow> Inr (d, None) | None \<Rightarrow> os_open os q w))"
  using assms
proof (induction pds arbitrary: w rule: rev_induct)
  case Nil
  then show ?case by (simp add: assign_all_def)
next
  case (snoc pd pds)
  obtain w1 where w1: "write_all pds w = (Ok (), w1)" "wf w1" "\<forall>q. writable q w \<longrightarrow> writable q w1"
    "\<forall>q. os_open os q w1 = (case assign_all pds q of Some d \<Rightarrow> Inr (d, None) | None \<Rightarrow> os_open os q w)"
    using snoc.IH [of w] snoc.prems by auto
  obtain p d where pd: "pd = (p, d)" by (cases pd)
  have wr: "writable p w1" using snoc.prems(2) [of pd] w1(3) by (simp add: pd)
  obtain w2 where w2: "os_write_file os p d w1 = (None, w2)"
    using write_ok [OF w1(2) wr, of d] by (metis prod.collapse)
  have "write_all (pds @ [pd]) w = (Ok (), w2)"
    by (simp add: for_each_append w1(1) pd w2)
  moreover have "wf w2" using write_wf [OF w1(2) wr, of d] w2 by simp
  moreover have "\<forall>q. writable q w \<longrightarrow> writable q w2"
    using write_writable [OF w1(2) wr, of _ d] w1(3) w2 by simp
  moreover have "os_open os q w2 =
      (case assign_all (pds @ [pd]) q of Some d \<Rightarrow> Inr (d, None) | None \<Rightarrow> os_open os q w)" for q
    using write_read [OF w1(2) wr, of d] write_other [OF w1(2) wr, of q d] w1(4) w2
    by (cases "q = p") (auto simp: assign_all_def pd)
  ultimately show ?case by blast
qed

lemma write_one:
  assumes "wf w" and "writable p w"
  shows "\<exists>w1. sys (os_write_file os p d) w = (Ok (), w1) \<and> wf w1 \<and> (\<forall>q. writable q w \<longrightarrow> writable q w1) \<and>
    (\<forall>q. ReadFile os q w1 = (if q = p then Ok d else ReadFile os q w))"
proof -
  obtain w1 where w1: "os_write_file os p d w = (None, w1)"
    using write_ok [OF assms, of d] by (metis prod.collapse)
  then show ?thesis
    using write_wf [OF assms, of d] write_read [OF assms, of d] write_other [OF assms, of _ d] write_writable [OF assms, of _ d]
    by (auto simp: ReadFile_def)
qed

lemma read_back:
  assumes "wf w" and "\<And>pd. pd \<in> set pds \<Longrightarrow> writable (fst pd) w"
    and "write_all pds w = (r, w1)" and "assign_all pds q = Some d"
  shows "r = Ok () \<and> ReadFile os q w1 = Ok d"
proof -
  obtain w2 where "write_all pds w = (Ok (), w2)"
      "\<forall>q. os_open os q w2 = (case assign_all pds q of Some d \<Rightarrow> Inr (d, None) | None \<Rightarrow> os_open os q w)"
    using write_all_ok [of w pds] assms(1,2) by blast
  then show ?thesis using assms(3,4) by (simp add: ReadFile_def)
qed

end

section \<open>A directory tree in memory\<close>

text \<open>
  Files with their contents, directories, and injected faults: an operation (\<open>open\<close>, \<open>write\<close>,
  \<open>mkdir\<close>, \<open>remove\<close>, \<open>unlinkat\<close>) on a path that the kernel refuses with an error number.
\<close>

record memfs =
  mem_files :: "(string \<times> string) list"
  mem_dirs :: "string list"
  mem_faults :: "((string \<times> string) \<times> errno) list"

definition fault :: "string \<Rightarrow> string \<Rightarrow> memfs \<Rightarrow> gerror option" where
  "fault opn p m = map_option (PathError opn p) (map_of (mem_faults m) (opn, p))"

definition mem_open :: "string \<Rightarrow> memfs \<Rightarrow> gerror + string \<times> gerror option" where
  "mem_open p m = (case fault ''open'' p m of
     Some e \<Rightarrow> Inl e
   | None \<Rightarrow> (case map_of (mem_files m) p of
       Some d \<Rightarrow> Inr (d, fault ''read'' p m)
     | None \<Rightarrow> if p \<in> set (mem_dirs m) then Inr ([], Some (PathError ''read'' p EISDIR))
               else Inl (PathError ''open'' p ENOENT)))"

definition mem_open_file :: "bool \<Rightarrow> string \<Rightarrow> memfs \<Rightarrow> gerror option \<times> memfs" where
  "mem_open_file create p m =
     (if fault ''open'' p m \<noteq> None then (fault ''open'' p m, m)
      else if map_of (mem_files m) p \<noteq> None then (None, m)
      else if p \<in> set (mem_dirs m) then (Some (PathError ''open'' p EISDIR), m)
      else if create \<and> path_dir p \<in> set (mem_dirs m) then (None, m\<lparr>mem_files := mem_files m @ [(p, [])]\<rparr>)
      else (Some (PathError ''open'' p ENOENT), m))"

definition mem_fd_write :: "string \<Rightarrow> string \<Rightarrow> memfs \<Rightarrow> gerror option \<times> memfs" where
  "mem_fd_write p d m =
     (if fault ''write'' p m \<noteq> None then (fault ''write'' p m, m)
      else (None, m\<lparr>mem_files := AList.update p d (mem_files m)\<rparr>))"

definition mem_write_file :: "string \<Rightarrow> string \<Rightarrow> memfs \<Rightarrow> gerror option \<times> memfs" where
  "mem_write_file p d m = (case mem_open_file True p m of
     (Some e, m1) \<Rightarrow> (Some e, m1) | (None, m1) \<Rightarrow> mem_fd_write p d m1)"

definition ancestors :: "string \<Rightarrow> string list" where
  "ancestors p = map (\<lambda>n. abs_path (take n (abs_comps p))) [0..<Suc (length (abs_comps p))]"

definition mem_mkdir_all :: "string \<Rightarrow> memfs \<Rightarrow> gerror option \<times> memfs" where
  "mem_mkdir_all p m =
     (if fault ''mkdir'' p m \<noteq> None then (fault ''mkdir'' p m, m)
      else (case filter (\<lambda>a. map_of (mem_files m) a \<noteq> None) (ancestors p) of
         a # _ \<Rightarrow> (Some (PathError ''mkdir'' a ENOTDIR), m)
       | [] \<Rightarrow> (None, m\<lparr>mem_dirs := mem_dirs m @ filter (\<lambda>a. a \<notin> set (mem_dirs m)) (ancestors p)\<rparr>)))"

definition mem_children :: "string \<Rightarrow> memfs \<Rightarrow> string list" where
  "mem_children p m = filter (\<lambda>q. path_dir q = p \<and> q \<noteq> p) (map fst (mem_files m) @ mem_dirs m)"

definition mem_remove :: "string \<Rightarrow> memfs \<Rightarrow> gerror option \<times> memfs" where
  "mem_remove p m =
     (if fault ''remove'' p m \<noteq> None then (fault ''remove'' p m, m)
      else if map_of (mem_files m) p \<noteq> None
        then (None, m\<lparr>mem_files := filter (\<lambda>x. fst x \<noteq> p) (mem_files m)\<rparr>)
      else if p \<notin> set (mem_dirs m) then (Some (PathError ''remove'' p ENOENT), m)
      else if mem_children p m \<noteq> [] then (Some (PathError ''remove'' p ENOTEMPTY), m)
      else (None, m\<lparr>mem_dirs := filter (\<lambda>q. q \<noteq> p) (mem_dirs m)\<rparr>))"

definition at_or_below :: "string \<Rightarrow> string \<Rightarrow> bool" where
  "at_or_below p q = (q = p \<or> has_prefix q (p @ ''/''))"

definition mem_remove_all :: "string \<Rightarrow> memfs \<Rightarrow> gerror option \<times> memfs" where
  "mem_remove_all p m =
     (if fault ''unlinkat'' p m \<noteq> None then (fault ''unlinkat'' p m, m)
      else (None, m\<lparr>mem_files := filter (\<lambda>x. \<not> at_or_below p (fst x)) (mem_files m),
                    mem_dirs := filter (\<lambda>q. \<not> at_or_below p q) (mem_dirs m)\<rparr>))"

text \<open>The tree below a path; no branch is longer than the number of directories.\<close>

fun mem_tree_at :: "nat \<Rightarrow> string \<Rightarrow> memfs \<Rightarrow> fnode" where
  "mem_tree_at n p m =
     (if map_of (mem_files m) p \<noteq> None then NFile
      else if p \<notin> set (mem_dirs m) then NBad (PathError ''lstat'' p ENOENT)
      else (case n of
          0 \<Rightarrow> NDir None []
        | Suc k \<Rightarrow> NDir (fault ''open'' p m)
            (map (\<lambda>q. (snd (path_split q), mem_tree_at k q m)) (sort (mem_children p m)))))"

definition mem_tree :: "string \<Rightarrow> memfs \<Rightarrow> fnode" where
  "mem_tree p m = mem_tree_at (Suc (length (mem_dirs m))) p m"

definition mem_os :: "memfs os" where
  "mem_os = \<lparr>os_open = mem_open, os_write_file = mem_write_file, os_open_file = mem_open_file,
     os_fd_write = mem_fd_write, os_mkdir_all = mem_mkdir_all, os_remove = mem_remove,
     os_remove_all = mem_remove_all, os_tree = mem_tree, os_sleep = (\<lambda>_ m. m)\<rparr>"

lemma mem_os_simps [simp]:
  "os_open mem_os = mem_open" "os_write_file mem_os = mem_write_file"
  "os_open_file mem_os = mem_open_file" "os_fd_write mem_os = mem_fd_write"
  "os_mkdir_all mem_os = mem_mkdir_all" "os_remove mem_os = mem_remove"
  "os_remove_all mem_os = mem_remove_all" "os_tree mem_os = mem_tree" "os_sleep mem_os t m = m"
  by (simp_all add: mem_os_def)

text \<open>
  A path is writable when no fault is injected there, and it is a file or a file can be created
  there. On such paths the tree keeps the contract of an ordinary directory.
\<close>

definition mem_writable :: "string \<Rightarrow> memfs \<Rightarrow> bool" where
  "mem_writable p m =
     (fault ''open'' p m = None \<and> fault ''read'' p m = None \<and> fault ''write'' p m = None \<and>
      (map_of (mem_files m) p \<noteq> None \<or> p \<notin> set (mem_dirs m) \<and> path_dir p \<in> set (mem_dirs m)))"

lemma mem_write_writable:
  assumes "mem_writable p m"
  shows "\<exists>fs. mem_write_file p d m = (None, m\<lparr>mem_files := fs\<rparr>) \<and> map_of fs = (map_of (mem_files m))(p \<mapsto> d)"
proof (cases "map_of (mem_files m) p")
  case (Some c)
  then show ?thesis using assms
    by (auto simp: mem_write_file_def mem_open_file_def mem_fd_write_def mem_writable_def update_conv')
next
  case None
  then show ?thesis using assms
    by (auto simp: mem_write_file_def mem_open_file_def mem_fd_write_def mem_writable_def update_conv'
        fault_def fun_eq_iff map_add_def split: option.splits)
qed

lemma fault_files [simp]: "fault opn p (m\<lparr>mem_files := fs\<rparr>) = fault opn p m"
  by (simp add: fault_def)

interpretation mem_disk: disk mem_os "\<lambda>_. True" mem_writable
proof (unfold_locales, goal_cases)
  case (1 w p d)
  then show ?case using mem_write_writable [of p w d] by auto
next
  case (3 w p d)
  then show ?case using mem_write_writable [of p w d] by (auto simp: mem_open_def mem_writable_def)
next
  case (4 w p q d)
  then show ?case using mem_write_writable [of p w d] by (auto simp: mem_open_def split: option.splits)
next
  case (5 w p q d)
  then show ?case using mem_write_writable [of p w d] by (auto simp: mem_writable_def split: if_splits)
qed simp

end
