(* ===== verification/Counters.thy ===== *)
theory Counters
  imports GoOS
begin

text \<open>
  The counter parsers that the packages \<open>cgroup1\<close> and \<open>cgroup2\<close> share word for word: \<open>parseUint\<close>, which
  reads negative numbers as 0, and \<open>parseKV\<close> in its two versions; and the loop that reads a file of
  key-value lines into a Go map.
\<close>

section \<open>Reading numbers\<close>

definition parseUint :: "string \<Rightarrow> nat \<Rightarrow> u64 \<times> gerror option" where
  "parseUint s bits = (case ParseUint s bits of
     (v, None) \<Rightarrow> (v, None)
   | (v, Some e) \<Rightarrow> (case ParseInt s bits of
         (i, None) \<Rightarrow> if sint i < 0 then (0, None) else (0, Some (NumError ''ParseUint'' s e))
       | (i, Some ErrRange) \<Rightarrow> if sint i < 0 then (0, None) else (0, Some (NumError ''ParseUint'' s e))
       | (i, Some ErrSyntax) \<Rightarrow> (0, Some (NumError ''ParseUint'' s e))))"

text \<open>A digit string that the parser takes for a negative number when a minus sign precedes it: its
  value is not 0, or it passes the 64-bit range before any byte that is no digit.\<close>

definition negative_digits :: "string \<Rightarrow> bool" where
  "negative_digits ds =
     (list_all is_digit ds \<and> 0 < dec_value ds \<or>
      (\<exists>a b. ds = a @ b \<and> list_all is_digit a \<and> 2 ^ 64 \<le> dec_value a))"

lemma parse_digits_Inl:
  "n \<le> maxv \<Longrightarrow> parse_digits maxv n s = Inl ErrRange \<longleftrightarrow>
     (\<exists>a b. s = a @ b \<and> list_all is_digit a \<and> maxv < dec_from n a)"
proof (induction s arbitrary: n)
  case Nil
  then show ?case by auto
next
  case (Cons c s)
  let ?n = "n * 10 + digit_val c"
  have split: "(\<exists>a b. c # s = a @ b \<and> list_all is_digit a \<and> maxv < dec_from n a) \<longleftrightarrow>
     is_digit c \<and> (\<exists>a b. s = a @ b \<and> list_all is_digit a \<and> maxv < dec_from ?n a)"
  proof
    assume "\<exists>a b. c # s = a @ b \<and> list_all is_digit a \<and> maxv < dec_from n a"
    then obtain a b where ab: "c # s = a @ b" "list_all is_digit a" "maxv < dec_from n a" by blast
    then obtain a1 where "a = c # a1" using Cons.prems by (cases a) auto
    then show "is_digit c \<and> (\<exists>a b. s = a @ b \<and> list_all is_digit a \<and> maxv < dec_from ?n a)"
      using ab by auto
  next
    assume "is_digit c \<and> (\<exists>a b. s = a @ b \<and> list_all is_digit a \<and> maxv < dec_from ?n a)"
    then obtain a b where "is_digit c" "s = a @ b" "list_all is_digit a" "maxv < dec_from ?n a" by blast
    then show "\<exists>a b. c # s = a @ b \<and> list_all is_digit a \<and> maxv < dec_from n a"
      by (intro exI [of _ "c # a"] exI [of _ b]) simp
  qed
  show ?case
  proof (cases "maxv < ?n")
    case True
    then have "\<exists>a b. s = a @ b \<and> list_all is_digit a \<and> maxv < dec_from ?n a"
      by (intro exI [of _ "[]"] exI [of _ s]) simp
    then show ?thesis using True split by simp
  next
    case False
    then show ?thesis using Cons.IH [of ?n] split by (auto simp: Let_def)
  qed
qed

lemma sint_nonneg_of_nat:
  assumes "n < 2 ^ 63" shows "0 \<le> sint (of_nat n :: i64)"
  using assms by (simp add: signed_of_nat signed_take_bit_int_eq_self)

lemma sint_nonneg_iff: "0 \<le> sint (x :: i64) \<longleftrightarrow> unat x < 2 ^ 63"
proof
  assume h: "0 \<le> sint x"
  then have "int (unat x) = sint x" by (simp add: uint_sint_pos)
  moreover have "sint x < 2 ^ 63" using sint_lt [of x] by simp
  ultimately have "int (unat x) < int (2 ^ 63)" by simp
  then show "unat x < 2 ^ 63" by (simp only: of_nat_less_iff)
next
  assume "unat x < 2 ^ 63"
  then show "0 \<le> sint x" using sint_nonneg_of_nat [of "unat x"] by simp
qed

lemma ParseInt_nonneg:
  assumes "c \<noteq> CHR ''-''" shows "0 \<le> sint (fst (ParseInt (c # r) 64))"
proof -
  obtain un e where "ParseUint (if c = CHR ''+'' then r else c # r) 64 = (un, e)" by fastforce
  moreover have "0 \<le> sint (of_nat (2 ^ 63 - 1) :: i64)" by (rule sint_nonneg_of_nat) simp
  ultimately show ?thesis
    using assms by (auto simp: ParseInt_def bit_size_def sint_nonneg_iff split: option.splits num_error.splits)
qed

lemma sint_minus_of_nat:
  assumes "n \<le> 2 ^ 63" shows "sint (- of_nat n :: i64) < 0 \<longleftrightarrow> 0 < n"
proof -
  have "(- of_nat n :: i64) = of_int (- int n)" by simp
  moreover have "- (2 ^ 63) \<le> - int n" using assms by simp
  ultimately have "sint (- of_nat n :: i64) = - int n"
    by (simp only: signed_of_int) (simp add: signed_take_bit_int_eq_self)
  then show ?thesis by simp
qed

lemma dec_from_prefix: "list_all is_digit (a @ b) \<Longrightarrow> dec_value a \<le> dec_value (a @ b)"
  by (simp add: dec_value_def dec_from_ge)

lemma ParseUint_Range_iff:
  "(\<exists>v. ParseUint s 64 = (v, Some ErrRange)) \<longleftrightarrow>
     (\<exists>a b. s = a @ b \<and> list_all is_digit a \<and> 2 ^ 64 \<le> dec_value a)"
proof -
  have max: "(18446744073709551615 < dec_from 0 a) = (2 ^ 64 \<le> dec_value a)" for a
    unfolding dec_value_def by (simp, linarith)
  have "(\<exists>v. ParseUint s 64 = (v, Some ErrRange)) \<longleftrightarrow> s \<noteq> [] \<and> parse_digits 18446744073709551615 0 s = Inl ErrRange"
    by (auto simp: ParseUint_def bit_size_def split: sum.splits num_error.splits)
  also have "\<dots> \<longleftrightarrow> (\<exists>a b. s = a @ b \<and> list_all is_digit a \<and> 18446744073709551615 < dec_from 0 a)"
    by (subst parse_digits_Inl) auto
  finally show ?thesis unfolding max .
qed

lemma ParseUint_Range_val:
  assumes "ParseUint s bits = (u, Some ErrRange)" shows "u = of_nat (2 ^ bit_size bits - 1)"
proof -
  define m :: nat where "m = 2 ^ bit_size bits - 1"
  have "u = of_nat m"
    using assms unfolding ParseUint_def Let_def m_def [symmetric]
    by (auto split: if_splits sum.splits num_error.splits)
  then show ?thesis by (simp only: m_def)
qed

lemma minus_limit_negative: "sint (- of_nat (2 ^ 63) :: i64) < 0"
  by (subst sint_minus_of_nat) simp_all

lemma ParseInt_minus_ok:
  assumes pu: "ParseUint ds 64 = (un, None)"
  shows "(case ParseInt (CHR ''-'' # ds) 64 of
      (i, None) \<Rightarrow> sint i < 0 | (i, Some ErrRange) \<Rightarrow> sint i < 0 | (i, Some ErrSyntax) \<Rightarrow> False) \<longleftrightarrow>
   negative_digits ds"
proof -
  have ds: "ds \<noteq> []" "list_all is_digit ds" "dec_value ds < 2 ^ 64" "un = of_nat (dec_value ds)"
    using pu ParseUint_None_iff [of ds 64 un] by (auto simp: bit_size_def)
  have un: "unat un = dec_value ds" using ds(3,4) by (simp add: unat_of_nat)
  have "\<not> 2 ^ 64 \<le> dec_value a" if "ds = a @ b" for a b
    using ds(2,3) dec_from_prefix [of a b] that by auto
  then have "negative_digits ds \<longleftrightarrow> 0 < dec_value ds" using ds(2) by (auto simp: negative_digits_def)
  moreover have "ParseInt (CHR ''-'' # ds) 64 =
      (if 2 ^ 63 < dec_value ds then (- of_nat (2 ^ 63), Some ErrRange) else (- un, None))"
    unfolding ParseInt_def by (simp add: pu un bit_size_def)
  moreover have "sint (- un) < 0 \<longleftrightarrow> 0 < dec_value ds" if "\<not> 2 ^ 63 < dec_value ds"
    using sint_minus_of_nat [of "dec_value ds"] that ds(4) by simp
  moreover have "0 < dec_value ds" if "2 ^ 63 < dec_value ds" using that by linarith
  ultimately show ?thesis using minus_limit_negative
    by (cases "2 ^ 63 < dec_value ds") (simp_all only: if_True if_False prod.case option.case num_error.case not_False_eq_True simp_thms)
qed

lemma ParseInt_minus_range:
  assumes pu: "ParseUint ds 64 = (un, Some ErrRange)"
  shows "ParseInt (CHR ''-'' # ds) 64 = (- of_nat (2 ^ 63), Some ErrRange)" and "negative_digits ds"
proof -
  have "bit_size 64 = 64" by (simp add: bit_size_def)
  then have "unat un = 2 ^ 64 - 1"
    unfolding ParseUint_Range_val [OF pu] by (simp only: unat_of_nat) simp
  then show "ParseInt (CHR ''-'' # ds) 64 = (- of_nat (2 ^ 63), Some ErrRange)"
    unfolding ParseInt_def by (simp add: pu bit_size_def)
  show "negative_digits ds"
    using pu ParseUint_Range_iff [of ds] by (auto simp: negative_digits_def)
qed

lemma negative_digits_parse:
  assumes "negative_digits ds" and pu: "ParseUint ds 64 = (un, e)" shows "e \<noteq> Some ErrSyntax"
proof
  assume e: "e = Some ErrSyntax"
  have "list_all is_digit ds \<and> 0 < dec_value ds \<or> (\<exists>v. ParseUint ds 64 = (v, Some ErrRange))"
    using assms(1) by (simp only: negative_digits_def ParseUint_Range_iff)
  moreover have "\<not> (\<exists>v. ParseUint ds 64 = (v, Some ErrRange))" using pu e by simp
  ultimately have ds: "list_all is_digit ds" "0 < dec_value ds" by simp_all
  then have "ds \<noteq> []" by (auto simp: dec_value_def)
  then show False
    using ParseUint_digits [of ds 64] ParseUint_range [of ds 64] ds(1) pu e
    by (cases "dec_value ds < 2 ^ bit_size 64") auto
qed

lemma ParseInt_minus:
  "(case ParseInt (CHR ''-'' # ds) 64 of
      (i, None) \<Rightarrow> sint i < 0 | (i, Some ErrRange) \<Rightarrow> sint i < 0 | (i, Some ErrSyntax) \<Rightarrow> False) \<longleftrightarrow>
   negative_digits ds"
proof -
  obtain un e where pu: "ParseUint ds 64 = (un, e)" by fastforce
  consider (no_err) "e = None" | (rng_err) "e = Some ErrRange" | (syn_err) "e = Some ErrSyntax"
    by (metis num_error.exhaust option.exhaust)
  then show ?thesis
  proof cases
    case no_err
    then show ?thesis using pu by (intro ParseInt_minus_ok) simp
  next
    case rng_err
    then have pu: "ParseUint ds 64 = (un, Some ErrRange)" using pu by simp
    show ?thesis
      using ParseInt_minus_range [OF pu] minus_limit_negative by (simp only: prod.case option.case num_error.case simp_thms)
  next
    case syn_err
    then show ?thesis
      using pu negative_digits_parse [OF _ pu] by (auto simp: ParseInt_def bit_size_def)
  qed
qed

text \<open>C27: Exactly which counters the stat readers accept, and as what: a decimal number of 64 bits as
  itself, a negative number as 0, and nothing else. A minus sign before an overflowing number makes
  the rest of the string irrelevant.\<close>

theorem parseUint_accepts_iff:
  "parseUint s 64 = (v, None) \<longleftrightarrow>
     s \<noteq> [] \<and> list_all is_digit s \<and> dec_value s < 2 ^ 64 \<and> v = of_nat (dec_value s) \<or>
     v = 0 \<and> (\<exists>ds. s = CHR ''-'' # ds \<and> negative_digits ds)"
proof (cases "snd (ParseUint s 64)")
  case None
  then have "ParseUint s 64 = (fst (ParseUint s 64), None)" by (metis prod.collapse)
  then show ?thesis
    using ParseUint_None_iff [of s 64 v] ParseUint_None_iff [of s 64 "fst (ParseUint s 64)"]
    by (auto simp: parseUint_def bit_size_def split: prod.splits)
next
  case (Some e)
  then have no: "\<not> (s \<noteq> [] \<and> list_all is_digit s \<and> dec_value s < 2 ^ 64)"
    using ParseUint_None_iff [of s 64 "of_nat (dec_value s)"] by (auto simp: bit_size_def)
  obtain u where pu: "ParseUint s 64 = (u, Some e)" using Some by (metis prod.collapse)
  have step: "parseUint s 64 = (v, None) \<longleftrightarrow> v = 0 \<and> (case ParseInt s 64 of
      (i, None) \<Rightarrow> sint i < 0 | (i, Some ErrRange) \<Rightarrow> sint i < 0 | (i, Some ErrSyntax) \<Rightarrow> False)"
    by (auto simp: parseUint_def pu split: prod.splits option.splits num_error.splits)
  show ?thesis
  proof (cases "\<exists>ds. s = CHR ''-'' # ds")
    case True
    then obtain ds where ds: "s = CHR ''-'' # ds" by blast
    show ?thesis using step unfolding ds ParseInt_minus by simp
  next
    case False
    then have "0 \<le> sint (fst (ParseInt s 64))"
      using ParseInt_nonneg by (cases s) (auto simp: ParseInt_def)
    then show ?thesis
      unfolding step using no False by (auto split: prod.splits option.splits num_error.splits)
  qed
qed


section \<open>Key-value lines\<close>

text \<open>\<open>parseKV\<close> of \<open>cgroup2\<close> hands out the key even when the value is no number; the one of
  \<open>cgroup1\<close> does not.\<close>

definition parseKV :: "string \<Rightarrow> string \<times> u64 \<times> gerror option" where
  "parseKV raw =
     (let parts = Fields raw
      in if length parts \<noteq> 2 then ([], 0, Some ErrInvalidFormat)
         else (parts ! 0, parseUint (parts ! 1) 64))"

definition parseKV1 :: "string \<Rightarrow> (string \<times> u64) outcome" where
  "parseKV1 raw =
     (let parts = Fields raw
      in if length parts = 2
         then (case parseUint (parts ! 1) 64 of
                 (v, None) \<Rightarrow> Ok (parts ! 0, v)
               | (v, Some e) \<Rightarrow> Err e)
         else Err ErrInvalidFormat)"

lemma parseKV1_parseKV:
  "parseKV1 raw = (case parseKV raw of (k, v, None) \<Rightarrow> Ok (k, v) | (k, v, Some e) \<Rightarrow> Err e)"
  by (auto simp: parseKV1_def parseKV_def Let_def split: prod.splits option.splits)

text \<open>A line of such a file as the kernel prints it.\<close>

definition kv_line :: "string \<times> u64 \<Rightarrow> string" where
  "kv_line kv = fst kv @ '' '' @ FormatUint (snd kv)"

definition kv_file :: "(string \<times> u64) list \<Rightarrow> string" where
  "kv_file kvs = concat (map (\<lambda>kv. kv_line kv @ [CHR 0x0A]) kvs)"

text \<open>Keys that are words, short enough for the line scanner.\<close>

definition kv_key :: "string \<Rightarrow> bool" where
  "kv_key k = (plain_word k \<and> length k < 65000)"

lemma parseUint_FormatUint [simp]: "parseUint (FormatUint v) 64 = (v, None)"
  by (simp add: parseUint_def ParseUint_FormatUint)

lemma fields_kv_line: "plain_word k \<Longrightarrow> Fields (kv_line (k, v)) = [k, FormatUint v]"
  by (simp add: kv_line_def fields_word_space uint_codec.fields_print)

lemma parseKV_kv_line: "plain_word k \<Longrightarrow> parseKV (kv_line (k, v)) = (k, v, None)"
  by (simp add: parseKV_def fields_kv_line)

lemma parseKV1_kv_line: "plain_word k \<Longrightarrow> parseKV1 (kv_line (k, v)) = Ok (k, v)"
  by (simp add: parseKV1_parseKV parseKV_kv_line)

lemma length_show_nat: "0 < d \<Longrightarrow> n < 10 ^ d \<Longrightarrow> length (show_nat n) \<le> d"
proof (induction d arbitrary: n)
  case (Suc d)
  show ?case
  proof (cases "n < 10")
    case False
    then have "0 < d" "n div 10 < 10 ^ d" using Suc.prems by (cases d; auto)+
    then have "length (show_nat (n div 10)) \<le> d" by (rule Suc.IH)
    then show ?thesis using False by (subst show_nat.simps) simp
  qed (simp add: show_nat.simps)
qed simp

lemma length_FormatUint: "length (FormatUint v) \<le> 20"
proof -
  have "unat v < 2 ^ 64" using unsigned_less [of v, where ?'a = nat] by simp
  then have "unat v < 10 ^ 20" by simp
  then show ?thesis unfolding FormatUint_def by (intro length_show_nat) simp_all
qed

lemma plain_no_special:
  assumes "plain_word w" shows "CHR 0x0A \<notin> set w" "CHR 0x0D \<notin> set w" "CHR '' '' \<notin> set w" "w \<noteq> []"
  using assms by (auto simp: plain_word_def list_all_iff plain_char_def ascii_space_def)

lemma kv_line_scans:
  assumes "kv_key k"
  shows "CHR 0x0A \<notin> set (kv_line (k, v))" "length (kv_line (k, v)) < max_token" "drop_cr (kv_line (k, v)) = kv_line (k, v)"
proof -
  have "plain_word (FormatUint v)" by (rule uint_codec.print_plain)
  note plain = plain_no_special [OF this]
  have "last (kv_line (k, v)) \<in> set (FormatUint v)" using plain(4) by (simp add: kv_line_def)
  then have "last (kv_line (k, v)) \<noteq> CHR 0x0D" using plain(2) by auto
  then show "drop_cr (kv_line (k, v)) = kv_line (k, v)" by (simp add: drop_cr_def)
  show "CHR 0x0A \<notin> set (kv_line (k, v))"
    using plain(1) plain_no_special(1) [of k] assms by (simp add: kv_line_def kv_key_def)
  show "length (kv_line (k, v)) < max_token"
    using assms length_FormatUint [of v] by (simp add: kv_line_def kv_key_def max_token_def)
qed

lemma scan_kv_file:
  assumes "\<And>k v. (k, v) \<in> set kvs \<Longrightarrow> kv_key k"
  shows "scan_lines (kv_file kvs) r = (map kv_line kvs, r)"
proof -
  have lines: "raw_lines (kv_file kvs) = map kv_line kvs"
    using raw_lines_concat [of "map kv_line kvs"] assms kv_line_scans(1)
    by (fastforce simp: kv_file_def comp_def)
  moreover have "takeWhile (\<lambda>l. length l < max_token) (map kv_line kvs) = map kv_line kvs"
    using assms kv_line_scans(2) by (subst takeWhile_eq_all_conv) fastforce
  moreover have "map drop_cr (map kv_line kvs) = map kv_line kvs"
    using assms kv_line_scans(3) by (intro map_idI) fastforce
  ultimately show ?thesis unfolding scan_lines_def Let_def by (simp only: less_irrefl if_False)
qed

section \<open>Go maps of counters\<close>

text \<open>A map from counters to values, as an association list without duplicate keys. A missing key
  reads as 0.\<close>

type_synonym counters = "(string \<times> u64) list"

definition mget :: "counters \<Rightarrow> string \<Rightarrow> u64" where
  "mget m k = (case map_of m k of Some v \<Rightarrow> v | None \<Rightarrow> 0)"

text \<open>The loop over the lines of a file: every line has to be a pair, and a later one wins. The error
  of a bad line is made by the caller.\<close>

fun kv_loop :: "(string \<Rightarrow> gerror \<Rightarrow> gerror) \<Rightarrow> string list \<Rightarrow> counters \<Rightarrow> gerror option \<times> counters" where
  "kv_loop bad [] out = (None, out)"
| "kv_loop bad (l # ls) out = (case parseKV l of
     (k, v, Some e) \<Rightarrow> (Some (bad l e), out)
   | (k, v, None) \<Rightarrow> kv_loop bad ls (AList.update k v out))"

definition put_all :: "(string \<times> u64) list \<Rightarrow> counters \<Rightarrow> counters" where
  "put_all kvs out = fold (\<lambda>(k, v). AList.update k v) kvs out"

lemma map_of_put_all: "map_of (put_all kvs out) = map_of out ++ assign_all kvs"
  unfolding put_all_def
  by (induction kvs arbitrary: out) (auto simp: update_conv' assign_all_map_of)

lemma mget_put_all: "mget (put_all kvs []) k = (case map_of (rev kvs) k of Some v \<Rightarrow> v | None \<Rightarrow> 0)"
  by (simp add: mget_def map_of_put_all assign_all_map_of)

lemma update_not_Nil [simp]: "AList.update k v out \<noteq> []"
  by (cases out) auto

lemma put_all_eq_Nil: "put_all kvs out = [] \<longleftrightarrow> kvs = [] \<and> out = []"
proof (induction kvs arbitrary: out)
  case (Cons kv kvs)
  then show ?case by (cases kv) (simp add: put_all_def)
qed (simp add: put_all_def)

lemma kv_loop_file:
  "(\<And>k v. (k, v) \<in> set kvs \<Longrightarrow> plain_word k) \<Longrightarrow>
     kv_loop bad (map kv_line kvs) out = (None, put_all kvs out)"
proof (induction kvs arbitrary: out)
  case (Cons kv kvs)
  obtain k v where kv: "kv = (k, v)" by (cases kv)
  have "kv_loop bad (map kv_line kvs) (AList.update k v out) = (None, put_all kvs (AList.update k v out))"
    using Cons.prems by (intro Cons.IH) auto
  moreover have "plain_word k" using Cons.prems [of k v] by (simp add: kv)
  ultimately show ?case by (simp add: kv parseKV_kv_line put_all_def)
qed (simp add: put_all_def)

end
