(* ===== verification/V2Paths.thy ===== *)
theory V2Paths
  imports Counters
begin

text \<open>
  The group paths of \<open>cgroup2\<close>: \<open>paths.go\<close>, the readers of \<open>/proc/PID/cgroup\<close> in \<open>utils.go\<close>, and
  the translation between systemd unit names and paths in \<open>manager.go\<close>. The properties say what
  \<open>VerifyGroupPath\<close> lets through and why such a group cannot leave the mount point, and what path a
  slice name with dashes stands for.
\<close>

section \<open>Group paths\<close>

definition VerifyGroupPath :: "string \<Rightarrow> gerror option" where
  "VerifyGroupPath g =
     (if \<not> has_prefix g ''/'' then Some ErrInvalidGroupPath
      else if path_clean g \<noteq> g then Some ErrInvalidGroupPath
      else if has_prefix g ''/sys/fs/cgroup'' then Some ErrInvalidGroupPath
      else None)"

fun cgroup_lines :: "string list \<Rightarrow> string option" where
  "cgroup_lines [] = None"
| "cgroup_lines (l # ls) = (case cut_prefix l ''0::'' of Some path \<Rightarrow> Some path | None \<Rightarrow> cgroup_lines ls)"

definition parseCgroupFromReader :: "string \<times> gerror option \<Rightarrow> string outcome" where
  "parseCgroupFromReader f = (case scan_lines (fst f) (snd f) of (ls, serr) \<Rightarrow>
     (case cgroup_lines ls of
        Some path \<Rightarrow> Ok path
      | None \<Rightarrow> (case serr of
          Some e \<Rightarrow> Err e
        | None \<Rightarrow> Err (ErrMsg ''cgroup path not found''))))"

definition parseCgroupFile :: "'w os \<Rightarrow> string \<Rightarrow> 'w \<Rightarrow> string outcome" where
  "parseCgroupFile os path w = (case os_open os path w of
     Inl e \<Rightarrow> Err e
   | Inr f \<Rightarrow> parseCgroupFromReader f)"

definition NestedGroupPath :: "'w os \<Rightarrow> string \<Rightarrow> 'w \<Rightarrow> string outcome" where
  "NestedGroupPath os suffix w =
     bind_out (parseCgroupFile os ''/proc/self/cgroup'' w) (\<lambda>path. Ok (path_join [path, suffix]))"

definition PidGroupPath :: "'w os \<Rightarrow> i64 \<Rightarrow> 'w \<Rightarrow> string outcome" where
  "PidGroupPath os pid w = parseCgroupFile os (''/proc/'' @ FormatInt pid @ ''/cgroup'') w"

section \<open>systemd units\<close>

definition defaultCgroup2Path :: string where "defaultCgroup2Path = ''/sys/fs/cgroup''"
definition defaultSlice :: string where "defaultSlice = ''system.slice''"

text \<open>The loop over the parts of a slice name: part \<open>i\<close> is joined with all before it.\<close>

definition slice_unit :: "string list \<Rightarrow> nat \<Rightarrow> string" where
  "slice_unit parts i =
     (let s = join (take (Suc i) parts) ''-''
      in if \<not> has_suffix s ''.slice'' then s @ ''.slice'' else s)"

definition dashesToPath :: "string \<Rightarrow> string" where
  "dashesToPath unit =
     (if has_suffix unit ''.slice'' \<and> contains unit ''-''
      then let parts = split CHR ''-'' unit
           in fold (\<lambda>i path. path_join [path, slice_unit parts i]) [0..<length parts] []
      else path_join [[], unit])"

definition getSystemdFullPath :: "string \<Rightarrow> string \<Rightarrow> string" where
  "getSystemdFullPath sl grp = path_join [defaultCgroup2Path, dashesToPath sl, dashesToPath grp]"

definition systemdUnitFromPath :: "string \<Rightarrow> string" where
  "systemdUnitFromPath path = snd (path_split path)"

definition systemdVersionAtoi :: "string \<Rightarrow> i64 outcome" where
  "systemdVersionAtoi str =
     (let digits = takeWhile is_digit (trim_left str [CHR 0x22, CHR ''v''])
      in case Atoi digits of
           (ver, None) \<Rightarrow> Ok ver
         | (ver, Some e) \<Rightarrow> Err (Wrap ''can't parse version'' (NumError ''Atoi'' digits e)))"

section \<open>Properties of the group paths\<close>

lemma VerifyGroupPath_None:
  "VerifyGroupPath g = None \<longleftrightarrow> (\<exists>cs. proper_path cs \<and> g = abs_path cs) \<and> \<not> has_prefix g ''/sys/fs/cgroup''"
  unfolding clean_abs_iff [symmetric] by (simp add: VerifyGroupPath_def is_abs_def)

text \<open>VerifyGroupPath accepts exactly the absolute paths in clean form, of elements that are
  neither empty nor a dot, that do not begin with the mount point.\<close>

theorem verify_group_path_iff:
  "VerifyGroupPath g = None \<longleftrightarrow>
     (\<exists>cs. proper_path cs \<and> g = abs_path cs) \<and> \<not> has_prefix g ''/sys/fs/cgroup''"
  by (rule VerifyGroupPath_None)

text \<open>C3: An accepted group stays inside the mount point it is joined to, and two different groups
  never share a directory.\<close>

theorem verified_group_contained:
  assumes "VerifyGroupPath g = None" and "VerifyGroupPath h = None"
    and "is_abs mount" and "path_clean mount = mount"
  shows "below mount (path_join [mount, g]) \<and> (path_join [mount, g] = path_join [mount, h] \<longleftrightarrow> g = h)"
proof -
  obtain cs ds where g: "proper_path cs" "g = abs_path cs" and h: "proper_path ds" "h = abs_path ds"
    using assms(1,2) unfolding VerifyGroupPath_None by blast
  obtain ms where m: "proper_path ms" "mount = abs_path ms"
    using assms(3,4) clean_abs_iff by blast
  show ?thesis
    using g h m below_append [of ms cs] by (simp add: abs_path_inj)
qed


theorem verified_group_contained_witness:
  "below ''/sys/fs/cgroup'' (path_join [''/sys/fs/cgroup'', ''/user.slice/a''])"
proof (rule verified_group_contained [THEN conjunct1])
  have p: "proper_path [''user.slice'', ''a'']" "proper_path [''sys'', ''fs'', ''cgroup'']"
    by (simp_all add: proper_def)
  show "VerifyGroupPath ''/user.slice/a'' = None"
    unfolding VerifyGroupPath_None using p(1)
    by (auto intro: exI [of _ "[''user.slice'', ''a'']"] simp: render_path_def)
  then show "VerifyGroupPath ''/user.slice/a'' = None" .
  show "is_abs ''/sys/fs/cgroup''" by (simp add: is_abs_def)
  show "path_clean ''/sys/fs/cgroup'' = ''/sys/fs/cgroup''"
    using path_clean_abs_path [OF p(2)] by (simp add: render_path_def)
qed

text \<open>A file \<open>/proc/PID/cgroup\<close>: the entries of the v1 hierarchies, then that of the unified one.\<close>

lemma cgroup_lines_skip:
  "(\<And>l. l \<in> set ls \<Longrightarrow> \<not> has_prefix l ''0::'') \<Longrightarrow> cgroup_lines (ls @ (''0::'' @ path) # ms) = Some path"
  by (induction ls) (auto simp: cut_prefix_def)

text \<open>The group of a process is the path after "0::" in the first such line of its cgroup file,
  whatever v1 lines stand before it and whatever comes after.\<close>

theorem pid_group_path_found:
  assumes "os_open os (''/proc/'' @ FormatInt pid @ ''/cgroup'') w = Inr (text_lines (ls @ (''0::'' @ path) # ms), err)"
    and "list_all plain_line (ls @ (''0::'' @ path) # ms)" and "\<And>l. l \<in> set ls \<Longrightarrow> \<not> has_prefix l ''0::''"
  shows "PidGroupPath os pid w = Ok path"
  using assms(1,3) scan_text_lines [OF assms(2), of err] cgroup_lines_skip [of ls path ms]
  by (simp add: PidGroupPath_def parseCgroupFile_def parseCgroupFromReader_def)

theorem pid_group_path_found_witness:
  "PidGroupPath mem_os 7 \<lparr>mem_files = [(''/proc/7/cgroup'', text_lines [''4:cpu:/x'', ''0::/user.slice''])],
     mem_dirs = [], mem_faults = []\<rparr> = Ok ''/user.slice''"
  by (rule pid_group_path_found [of _ _ _ "[''4:cpu:/x'']" "''/user.slice''" "[]" None])
     (simp_all add: plain_line_def max_token_def print_eval mem_open_def fault_def)

lemma fold_path_join:
  "proper_path (map f [0..<n]) \<Longrightarrow> fold (\<lambda>i path. path_join [path, f i]) [0..<n] [] = join (map f [0..<n]) ''/''"
  by (induction n) (auto simp: path_join_rel)

text \<open>The parts of a slice name.\<close>

definition slice_part :: "string \<Rightarrow> bool" where
  "slice_part p = (p \<noteq> [] \<and> CHR ''-'' \<notin> set p \<and> CHR ''/'' \<notin> set p)"

lemma split_slice_name:
  assumes "list_all slice_part (ps @ [p])"
  shows "split CHR ''-'' (join (ps @ [p]) ''-'' @ ''.slice'') = ps @ [p @ ''.slice'']"
proof -
  have "join (ps @ [p]) ''-'' @ ''.slice'' = join (ps @ [p @ ''.slice'']) ''-''"
    by (induction ps "''-''" rule: join.induct) (cases ps; auto)+
  moreover have "split CHR ''-'' (join (ps @ [p @ ''.slice'']) [CHR ''-'']) = ps @ [p @ ''.slice'']"
    using assms by (intro split_join) (auto simp: slice_part_def list_all_iff)
  ultimately show ?thesis by simp
qed

lemma slice_not_dots: "s @ ''.slice'' \<noteq> []" "s @ ''.slice'' \<noteq> ''.''" "s @ ''.slice'' \<noteq> ''..''"
  by (auto simp: append_eq_Cons_conv)

lemma slice_unit_prefix:
  assumes "Suc i < length ps" and "\<not> has_suffix (join (take (Suc i) ps) ''-'') ''.slice''"
  shows "slice_unit (butlast ps @ [last ps @ ''.slice'']) i = join (take (Suc i) ps) ''-'' @ ''.slice''"
  using assms by (simp add: slice_unit_def take_butlast)

lemma slice_unit_last:
  assumes "ps \<noteq> []"
  shows "slice_unit (butlast ps @ [last ps @ ''.slice'']) (length ps - 1) = join ps ''-'' @ ''.slice''"
proof -
  have "join (qs @ [q @ ''.slice'']) ''-'' = join (qs @ [q]) ''-'' @ ''.slice''" for qs q
    by (cases "qs = []") (simp_all add: join_snoc_ne)
  then have "join (butlast ps @ [last ps @ ''.slice'']) ''-'' = join ps ''-'' @ ''.slice''"
    using assms by (metis append_butlast_last_id)
  moreover have "take (Suc (length ps - 1)) (butlast ps @ [last ps @ ''.slice'']) = butlast ps @ [last ps @ ''.slice'']"
    using assms by (intro take_all) simp
  ultimately show ?thesis by (simp only: slice_unit_def Let_def has_suffix_append simp_thms if_False)
qed

text \<open>A slice name of several dash-separated parts stands for the chain of its prefixes, each a
  slice: "a-b-c.slice" is a.slice/a-b.slice/a-b-c.slice.\<close>


theorem dashes_to_path_chain:
  assumes "2 \<le> length ps" and "list_all slice_part ps"
    and "\<And>i. Suc i < length ps \<Longrightarrow> \<not> has_suffix (join (take (Suc i) ps) ''-'') ''.slice''"
  shows "dashesToPath (join ps ''-'' @ ''.slice'') =
    join (map (\<lambda>i. join (take (Suc i) ps) ''-'' @ ''.slice'') [0..<length ps]) ''/''"
proof -
  let ?f = "\<lambda>i. join (take (Suc i) ps) ''-'' @ ''.slice''"
  let ?parts = "butlast ps @ [last ps @ ''.slice'']"
  have ps: "butlast ps @ [last ps] = ps" using assms(1) by (intro append_butlast_last_id) auto
  have split: "split CHR ''-'' (join ps ''-'' @ ''.slice'') = ?parts"
    using split_slice_name [of "butlast ps" "last ps"] assms(2) by (simp only: ps)
  have unit: "slice_unit ?parts i = ?f i" if "i < length ps" for i
  proof (cases "Suc i < length ps")
    case True
    then show ?thesis using slice_unit_prefix assms(3) by blast
  next
    case False
    then have "i = length ps - 1" "take (Suc i) ps = ps" using that by auto
    moreover have "ps \<noteq> []" using assms(1) by auto
    ultimately show ?thesis using slice_unit_last [of ps] by simp
  qed
  have "CHR ''/'' \<notin> set (join (take (Suc i) ps) ''-'')" for i
    using set_join [of "take (Suc i) ps" "''-''"] assms(2)
    by (auto simp: slice_part_def list_all_iff dest!: set_take_subset [THEN subsetD])
  then have "proper_path (map ?f [0..<length ps])"
    by (auto simp: list_all_iff proper_def append_eq_Cons_conv)
  moreover have "map (slice_unit ?parts) [0..<length ps] = map ?f [0..<length ps]"
    using unit by (intro map_cong) auto
  ultimately have "fold (\<lambda>i path. path_join [path, slice_unit ?parts i]) [0..<length ps] [] =
      join (map ?f [0..<length ps]) ''/''"
    by (subst fold_path_join) (simp_all only:)
  moreover have "contains (join ps ''-'' @ ''.slice'') ''-''"
    using assms(1) by (cases ps; cases "tl ps") (auto simp: contains_in_set)
  moreover have "length ?parts = length ps" using assms(1) by simp
  ultimately show ?thesis by (simp only: dashesToPath_def split Let_def has_suffix_append if_True simp_thms)
qed

theorem dashes_to_path_chain_witness:
  "dashesToPath ''my-group-1.slice'' = ''my.slice/my-group.slice/my-group-1.slice''"
proof -
  have "\<not> has_suffix (join (take (Suc i) [''my'', ''group'', ''1'']) ''-'') ''.slice''"
    if "Suc i < length [''my'', ''group'', ''1'']" for i
    using that by (cases i; cases "i - 1") (auto simp: has_suffix_def)
  from dashes_to_path_chain [of "[''my'', ''group'', ''1'']", OF _ _ this] show ?thesis
    by (simp add: slice_part_def upt_conv_Cons)
qed

text \<open>The systemd version is the number after an optional quote or "v", whatever follows it.\<close>

theorem systemd_version_number:
  assumes "n < 2 ^ 63" and "r = [] \<or> \<not> is_digit (hd r)"
  shows "systemdVersionAtoi (show_nat n @ r) = Ok (of_nat n)
    \<and> systemdVersionAtoi (CHR ''v'' # show_nat n @ r) = Ok (of_nat n)
    \<and> systemdVersionAtoi (CHR 0x22 # show_nat n @ r) = Ok (of_nat n)"
proof -
  obtain c s where n: "show_nat n = c # s" by (cases "show_nat n") auto
  have c: "is_digit c" using show_nat_hd [of n] by (simp add: n)
  then have trim: "trim_left (show_nat n @ r) [CHR 0x22, CHR ''v''] = show_nat n @ r"
    by (auto simp: trim_left_def n is_digit_def)
  have dig: "takeWhile is_digit (show_nat n @ r) = show_nat n"
    using assms(2) show_nat_digits [of n] by (cases r) (auto simp: takeWhile_append list_all_iff takeWhile_eq_all_conv)
  have "Atoi (show_nat n) = (of_nat n, None)"
    using ParseInt_digits [of "show_nat n"] assms(1)
    by (simp add: Atoi_bits show_nat_digits dec_value_def)
  then show ?thesis
    using trim dig by (simp add: systemdVersionAtoi_def) (simp add: trim_left_def dig)
qed


theorem systemd_version_number_witness:
  "systemdVersionAtoi (CHR ''v'' # show_nat 255 @ ''.4'') = Ok 255"
  using systemd_version_number [of 255 "''.4''"] by (simp add: is_digit_def)

end
