(* ===== verification/V2Values.thy ===== *)
theory V2Values
  imports GoOS
begin

text \<open>
  The resource types of package \<open>cgroup2\<close> and the files and values they are written as:
  \<open>cpu.go\<close>, \<open>memory.go\<close>, \<open>io.go\<close>, \<open>pids.go\<close>, \<open>rdma.go\<close>, \<open>hugetlb.go\<close>, the freezer states of
  \<open>state.go\<close>, and \<open>Value\<close>, \<open>Resources\<close>, \<open>EnabledControllers\<close>, \<open>writeValues\<close> of \<open>manager.go\<close>.
  The contract of a controller (its values can be encoded, and go to files of the controllers it
  names) is the locale \<open>value_source\<close>, interpreted for each of the six.
\<close>

section \<open>Values and how they are written\<close>

text \<open>The dynamic types that \<open>Value.value\<close> takes; \<open>VNil\<close> is the nil interface.\<close>

datatype gval =
    VUint64 u64 | VUint16 u16 | VInt64 i64 | VBytes string | VString string | VCPUMax string | VNil

record val =
  filename :: string
  contents :: gval

fun value_data :: "gval \<Rightarrow> string outcome" where
  "value_data (VUint64 n) = Ok (FormatUint n)"
| "value_data (VUint16 n) = Ok (FormatUint (ucast n))"
| "value_data (VInt64 n) = Ok (FormatInt n)"
| "value_data (VBytes b) = Ok b"
| "value_data (VString s) = Ok s"
| "value_data (VCPUMax s) = Ok s"
| "value_data VNil = Err ErrInvalidFormat"

definition value_write :: "'w os \<Rightarrow> string \<Rightarrow> val \<Rightarrow> ('w, unit) go" where
  "value_write os path c =
     bnd (lift_out (value_data (contents c)))
         (\<lambda>data. sys (os_write_file os (path_join [path, filename c]) data))"

definition writeValues :: "'w os \<Rightarrow> string \<Rightarrow> val list \<Rightarrow> ('w, unit) go" where
  "writeValues os path values = for_each (value_write os path) values"

section \<open>CPU\<close>

type_synonym CPUMax = string

record CPU =
  cpu_Weight :: "u64 option"
  cpu_Max :: CPUMax
  cpu_Cpus :: string
  cpu_Mems :: string

definition defaultCPUMax :: string where "defaultCPUMax = ''max''"
definition defaultCPUMaxPeriod :: u64 where "defaultCPUMaxPeriod = 100000"
definition defaultCPUMaxPeriodStr :: string where "defaultCPUMaxPeriodStr = ''100000''"

definition NewCPUMax :: "i64 option \<Rightarrow> u64 option \<Rightarrow> CPUMax" where
  "NewCPUMax quota period =
     join [case quota of Some q \<Rightarrow> FormatInt q | None \<Rightarrow> defaultCPUMax,
           case period of Some p \<Rightarrow> FormatUint p | None \<Rightarrow> defaultCPUMaxPeriodStr] '' ''"

definition num_out :: "string \<Rightarrow> string \<Rightarrow> 'a \<times> num_error option \<Rightarrow> 'a outcome" where
  "num_out f s r = (case r of (v, None) \<Rightarrow> Ok v | (v, Some e) \<Rightarrow> Err (NumError f s e))"

definition extractQuotaAndPeriod :: "CPUMax \<Rightarrow> (i64 \<times> u64) outcome" where
  "extractQuotaAndPeriod c =
     (let values = split CHR '' '' c
      in if length values < 1 \<or> 2 < length values then Err ErrInvalidFormat
         else bind_out
           (if to_lower (values ! 0) \<noteq> defaultCPUMax then num_out ''ParseInt'' (values ! 0) (ParseInt (values ! 0) 64)
            else Ok (2 ^ 63 - 1))
           (\<lambda>quota. bind_out
             (if length values = 2 then num_out ''ParseUint'' (values ! 1) (ParseUint (values ! 1) 64) else Ok defaultCPUMaxPeriod)
             (\<lambda>period. Ok (quota, period))))"

definition CPU_Values :: "CPU \<Rightarrow> val list" where
  "CPU_Values r =
     (case cpu_Weight r of Some w \<Rightarrow> [\<lparr>filename = ''cpu.weight'', contents = VUint64 w\<rparr>] | None \<Rightarrow> []) @
     (if cpu_Max r \<noteq> [] then [\<lparr>filename = ''cpu.max'', contents = VCPUMax (cpu_Max r)\<rparr>] else []) @
     (if cpu_Cpus r \<noteq> [] then [\<lparr>filename = ''cpuset.cpus'', contents = VString (cpu_Cpus r)\<rparr>] else []) @
     (if cpu_Mems r \<noteq> [] then [\<lparr>filename = ''cpuset.mems'', contents = VString (cpu_Mems r)\<rparr>] else [])"

section \<open>Memory\<close>

record Memory =
  mem_Swap :: "i64 option"
  mem_Min :: "i64 option"
  mem_Max :: "i64 option"
  mem_Low :: "i64 option"
  mem_High :: "i64 option"
  mem_OOMGroup :: "bool option"

definition int_value :: "string \<Rightarrow> i64 option \<Rightarrow> val list" where
  "int_value f x = (case x of Some n \<Rightarrow> [\<lparr>filename = f, contents = VInt64 n\<rparr>] | None \<Rightarrow> [])"

definition Memory_Values :: "Memory \<Rightarrow> val list" where
  "Memory_Values r =
     int_value ''memory.swap.max'' (mem_Swap r) @
     int_value ''memory.min'' (mem_Min r) @
     int_value ''memory.max'' (mem_Max r) @
     int_value ''memory.low'' (mem_Low r) @
     int_value ''memory.high'' (mem_High r) @
     int_value ''memory.oom.group'' (map_option (\<lambda>b. if b then 1 else 0) (mem_OOMGroup r))"

section \<open>IO\<close>

type_synonym IOType = string

definition ReadBPS :: IOType where "ReadBPS = ''rbps''"
definition WriteBPS :: IOType where "WriteBPS = ''wbps''"
definition ReadIOPS :: IOType where "ReadIOPS = ''riops''"
definition WriteIOPS :: IOType where "WriteIOPS = ''wiops''"

record BFQ =
  bfq_Weight :: u16

record Entry =
  entry_Type :: IOType
  entry_Major :: i64
  entry_Minor :: i64
  entry_Rate :: u64

record IO =
  io_BFQ :: BFQ
  io_Max :: "Entry list"

definition Entry_String :: "Entry \<Rightarrow> string" where
  "Entry_String e = FormatInt (entry_Major e) @ '':'' @ FormatInt (entry_Minor e) @ '' '' @
     entry_Type e @ ''='' @ FormatUint (entry_Rate e)"

definition IO_Values :: "IO \<Rightarrow> val list" where
  "IO_Values i =
     (if bfq_Weight (io_BFQ i) \<noteq> 0
      then [\<lparr>filename = ''io.bfq.weight'', contents = VUint16 (bfq_Weight (io_BFQ i))\<rparr>] else []) @
     map (\<lambda>e. \<lparr>filename = ''io.max'', contents = VString (Entry_String e)\<rparr>) (io_Max i)"

section \<open>Pids, RDMA and huge pages\<close>

record Pids =
  pids_Max :: i64

definition Pids_Values :: "Pids \<Rightarrow> val list" where
  "Pids_Values r =
     (if pids_Max r \<noteq> 0
      then [\<lparr>filename = ''pids.max'',
             contents = VString (if 0 < sint (pids_Max r) then FormatInt (pids_Max r) else ''max'')\<rparr>]
      else [])"

record RDMAEntry =
  rdma_Device :: string
  rdma_HcaHandles :: u32
  rdma_HcaObjects :: u32

record RDMA =
  rdma_Limit :: "RDMAEntry list"

definition RDMAEntry_String :: "RDMAEntry \<Rightarrow> string" where
  "RDMAEntry_String r = rdma_Device r @ '' hca_handle='' @ FormatUint (ucast (rdma_HcaHandles r)) @
     '' hca_object='' @ FormatUint (ucast (rdma_HcaObjects r))"

definition RDMA_Values :: "RDMA \<Rightarrow> val list" where
  "RDMA_Values r = map (\<lambda>e. \<lparr>filename = ''rdma.max'', contents = VString (RDMAEntry_String e)\<rparr>) (rdma_Limit r)"

record HugeTlbEntry =
  huge_PageSize :: string
  huge_Limit :: u64

type_synonym HugeTlb = "HugeTlbEntry list"

definition HugeTlb_Values :: "HugeTlb \<Rightarrow> val list" where
  "HugeTlb_Values r =
     map (\<lambda>e. \<lparr>filename = join [''hugetlb'', huge_PageSize e, ''max''] ''.'', contents = VUint64 (huge_Limit e)\<rparr>) r"

section \<open>Freezer states\<close>

text \<open>\<open>State\<close> is a string type: any string is a state, four of them are named.\<close>

type_synonym State = string

definition Unknown :: State where "Unknown = []"
definition Thawed :: State where "Thawed = ''thawed''"
definition Frozen :: State where "Frozen = ''frozen''"
definition Deleted :: State where "Deleted = ''deleted''"

definition State_Values :: "State \<Rightarrow> val list" where
  "State_Values s =
     [\<lparr>filename = ''cgroup.freeze'',
       contents = (if s = Frozen then VString ''1'' else if s = Thawed then VString ''0'' else VNil)\<rparr>]"

definition fetchState :: "'w os \<Rightarrow> string \<Rightarrow> 'w \<Rightarrow> State outcome" where
  "fetchState os path w =
     bind_out (ReadFile os (path_join [path, ''cgroup.freeze'']) w)
       (\<lambda>current. Ok (let t = trim_space current
                       in if t = ''1'' then Frozen else if t = ''0'' then Thawed else Unknown))"

section \<open>Resources\<close>

text \<open>The fields of the OCI device rule (\<open>specs.LinuxDeviceCgroup\<close>) that the repository reads.\<close>

record LinuxDeviceCgroup =
  dev_Allow :: bool
  dev_Type :: string
  dev_Major :: "i64 option"
  dev_Minor :: "i64 option"
  dev_Access :: string

record Resources =
  res_CPU :: "CPU option"
  res_Memory :: "Memory option"
  res_Pids :: "Pids option"
  res_IO :: "IO option"
  res_RDMA :: "RDMA option"
  res_HugeTlb :: "HugeTlb option"
  res_Devices :: "LinuxDeviceCgroup list"

definition opt_list :: "('a \<Rightarrow> 'b list) \<Rightarrow> 'a option \<Rightarrow> 'b list" where
  "opt_list f x = (case x of Some y \<Rightarrow> f y | None \<Rightarrow> [])"

definition Resources_Values :: "Resources \<Rightarrow> val list" where
  "Resources_Values r =
     opt_list CPU_Values (res_CPU r) @
     opt_list Memory_Values (res_Memory r) @
     opt_list Pids_Values (res_Pids r) @
     opt_list IO_Values (res_IO r) @
     opt_list RDMA_Values (res_RDMA r) @
     opt_list HugeTlb_Values (res_HugeTlb r)"

definition EnabledControllers :: "Resources \<Rightarrow> string list" where
  "EnabledControllers r =
     opt_list (\<lambda>c. ''cpu'' # (if cpu_Cpus c \<noteq> [] \<or> cpu_Mems c \<noteq> [] then [''cpuset''] else [])) (res_CPU r) @
     opt_list (\<lambda>_. [''memory'']) (res_Memory r) @
     opt_list (\<lambda>_. [''pids'']) (res_Pids r) @
     opt_list (\<lambda>_. [''io'']) (res_IO r) @
     opt_list (\<lambda>_. [''rdma'']) (res_RDMA r) @
     opt_list (\<lambda>_. [''hugetlb'']) (res_HugeTlb r)"

section \<open>The contract of a controller\<close>

text \<open>The controller that a file belongs to: its name up to the first dot.\<close>

definition controller_of :: "val \<Rightarrow> string" where
  "controller_of v = takeWhile (\<lambda>c. c \<noteq> CHR ''.'') (filename v)"

locale value_source =
  fixes vals :: "'r \<Rightarrow> val list" and ctrls :: "'r \<Rightarrow> string list"
  assumes vals_encode: "v \<in> set (vals r) \<Longrightarrow> contents v \<noteq> VNil"
    and vals_controller: "v \<in> set (vals r) \<Longrightarrow> controller_of v \<in> set (ctrls r)"
begin

lemma opt_encode: "v \<in> set (opt_list vals x) \<Longrightarrow> contents v \<noteq> VNil"
  by (cases x) (auto simp: opt_list_def dest: vals_encode)

lemma opt_controller: "v \<in> set (opt_list vals x) \<Longrightarrow> controller_of v \<in> set (opt_list ctrls x)"
  by (cases x) (auto simp: opt_list_def dest: vals_controller)

end

interpretation cpu_source: value_source CPU_Values
  "\<lambda>c. ''cpu'' # (if cpu_Cpus c \<noteq> [] \<or> cpu_Mems c \<noteq> [] then [''cpuset''] else [])"
  by unfold_locales (auto simp: CPU_Values_def controller_of_def split: option.splits if_splits)

interpretation memory_source: value_source Memory_Values "\<lambda>_. [''memory'']"
  by unfold_locales (auto simp: Memory_Values_def int_value_def controller_of_def split: option.splits)

interpretation pids_source: value_source Pids_Values "\<lambda>_. [''pids'']"
  by unfold_locales (auto simp: Pids_Values_def controller_of_def split: if_splits)

interpretation io_source: value_source IO_Values "\<lambda>_. [''io'']"
  by unfold_locales (auto simp: IO_Values_def controller_of_def split: if_splits)

interpretation rdma_source: value_source RDMA_Values "\<lambda>_. [''rdma'']"
  by unfold_locales (auto simp: RDMA_Values_def controller_of_def)

interpretation hugetlb_source: value_source HugeTlb_Values "\<lambda>_. [''hugetlb'']"
  by unfold_locales (auto simp: HugeTlb_Values_def controller_of_def)

text \<open>Together: the resources are a source whose controllers are the enabled ones.\<close>

interpretation resources_source: value_source Resources_Values EnabledControllers
proof (unfold_locales, goal_cases)
  case (1 v r)
  then show ?case
    by (auto simp: Resources_Values_def dest: cpu_source.opt_encode memory_source.opt_encode
        pids_source.opt_encode io_source.opt_encode rdma_source.opt_encode hugetlb_source.opt_encode)
next
  case (2 v r)
  then show ?case
    by (auto simp: Resources_Values_def EnabledControllers_def dest: cpu_source.opt_controller
        memory_source.opt_controller pids_source.opt_controller io_source.opt_controller
        rdma_source.opt_controller hugetlb_source.opt_controller)
qed

section \<open>Writing values\<close>

definition data_of :: "val \<Rightarrow> string" where
  "data_of v = (case value_data (contents v) of Ok d \<Rightarrow> d | _ \<Rightarrow> [])"

lemma value_data_cases: "contents v \<noteq> VNil \<Longrightarrow> value_data (contents v) = Ok (data_of v)"
  by (cases "contents v") (simp_all add: data_of_def)

lemma value_write_encoded:
  "contents v \<noteq> VNil \<Longrightarrow>
     value_write os path v w = sys (os_write_file os (path_join [path, filename v]) (data_of v)) w"
  by (simp add: value_write_def value_data_cases)

lemma value_write_nil: "contents v = VNil \<Longrightarrow> value_write os path v w = (Err ErrInvalidFormat, w)"
  by (simp add: value_write_def)

text \<open>Values that all encode are a batch of file writes.\<close>

definition file_writes :: "string \<Rightarrow> val list \<Rightarrow> (string \<times> string) list" where
  "file_writes path vs = map (\<lambda>v. (path_join [path, filename v], data_of v)) vs"

lemma writeValues_batch:
  assumes "\<And>v. v \<in> set vs \<Longrightarrow> contents v \<noteq> VNil"
  shows "writeValues os path vs w =
     for_each (\<lambda>pd. sys (os_write_file os (fst pd) (snd pd))) (file_writes path vs) w"
  using assms unfolding writeValues_def file_writes_def
  by (induction vs arbitrary: w)
     (auto simp: value_write_encoded split: outcome.splits prod.splits)

section \<open>Properties of the resource types\<close>

lemma FormatInt_not_max: "to_lower (FormatInt q) \<noteq> ''max''"
proof
  assume "to_lower (FormatInt q) = ''max''"
  moreover obtain c r where r: "FormatInt q = c # r"
    using int_codec.print_not_Nil by (cases "FormatInt q") auto
  ultimately have "lower_char c = CHR ''m''" by (simp add: to_lower_def)
  moreover have "c = CHR ''-'' \<or> is_digit c"
    using r show_nat_digits show_nat_not_Nil
    by (auto simp: FormatInt_def show_int_def list_all_iff split: if_splits) (metis list.set_intros(1))
  ultimately show False by (auto simp: lower_char_def is_digit_def Let_def split: if_splits)
qed

text \<open>C19: The cpu.max string made from a quota and a period is parsed back to them, a missing quota to
  the largest int64 and a missing period to 100000 microseconds.\<close>

theorem cpu_max_roundtrip:
  "extractQuotaAndPeriod (NewCPUMax quota period) =
     Ok (case quota of Some q \<Rightarrow> q | None \<Rightarrow> 2 ^ 63 - 1, case period of Some p \<Rightarrow> p | None \<Rightarrow> 100000)"
proof -
  let ?q = "case quota of Some q \<Rightarrow> FormatInt q | None \<Rightarrow> ''max''"
  let ?p = "case period of Some p \<Rightarrow> FormatUint p | None \<Rightarrow> ''100000''"
  have nosp: "CHR '' '' \<notin> set ?q" "CHR '' '' \<notin> set ?p"
    using int_codec.print_no_space uint_codec.print_no_space by (auto split: option.splits)
  have parts: "split CHR '' '' (NewCPUMax quota period) = [?q, ?p]"
    using split_two [OF nosp]
    by (cases quota; cases period) (simp_all add: NewCPUMax_def defaultCPUMax_def defaultCPUMaxPeriodStr_def)
  have num: "to_lower (FormatInt q) \<noteq> ''max''" for q
    using FormatInt_not_max by blast
  have "ParseUint ''100000'' 64 = (100000, None)"
    by (subst ParseUint_digits) (simp_all add: is_digit_def digit_val_def dec_value_def bit_size_def)
  then have per: "num_out ''ParseUint'' ?p (ParseUint ?p 64) = Ok (case period of Some p \<Rightarrow> p | None \<Rightarrow> 100000)"
    by (auto simp: num_out_def ParseUint_FormatUint split: option.splits)
  have "to_lower ''max'' = ''max''" by (simp add: to_lower_def lower_char_def)
  then show ?thesis
    unfolding extractQuotaAndPeriod_def parts Let_def defaultCPUMax_def
    using per num by (cases quota) (simp_all add: num_out_def ParseInt_FormatInt)
qed

text \<open>C2: Every value that a set of resources is written as has a type that Value.write accepts, and
  goes to a file of one of the controllers that EnabledControllers names, so that enabling these
  controllers makes all the files exist.\<close>

theorem enabled_controllers_cover:
  assumes "v \<in> set (Resources_Values r)"
  shows "contents v \<noteq> VNil \<and> controller_of v \<in> set (EnabledControllers r)"
  using assms resources_source.vals_encode resources_source.vals_controller by blast

theorem enabled_controllers_cover_witness:
  "controller_of \<lparr>filename = ''cpuset.mems'', contents = VString ''0''\<rparr> \<in>
     set (EnabledControllers \<lparr>res_CPU = Some \<lparr>cpu_Weight = None, cpu_Max = [], cpu_Cpus = [], cpu_Mems = ''0''\<rparr>,
       res_Memory = None, res_Pids = None, res_IO = None, res_RDMA = None, res_HugeTlb = None, res_Devices = []\<rparr>)"
  by (rule enabled_controllers_cover [THEN conjunct2])
     (simp add: Resources_Values_def CPU_Values_def opt_list_def)

text \<open>The pids limit: 0 means that nothing is written, any negative number that the limit is
  lifted, and a positive one is printed so that it parses back.\<close>

theorem pids_values_limit:
  "(case Pids_Values r of
      [] \<Rightarrow> pids_Max r = 0
    | [v] \<Rightarrow> filename v = ''pids.max'' \<and>
        (sint (pids_Max r) < 0 \<and> contents v = VString ''max'' \<or>
         0 < sint (pids_Max r) \<and> (\<exists>s. contents v = VString s \<and> ParseInt s 64 = (pids_Max r, None)))
    | _ \<Rightarrow> False)"
proof (cases "pids_Max r = 0")
  case False
  then have "sint (pids_Max r) \<noteq> 0" by (simp add: signed_eq_0_iff)
  then show ?thesis using False by (auto simp: Pids_Values_def ParseInt_FormatInt)
qed (simp add: Pids_Values_def)

end
