(* ===== verification/V2Metrics.thy ===== *)
theory V2Metrics
  imports Prelude
begin

text \<open>
  The messages of \<open>cgroup2/stats/metrics.pb.go\<close> that the manager fills in, as records: without the
  bookkeeping fields of the protobuf runtime and without \<open>Network\<close>, which nothing sets.
  \<open>'f\<close> stands for float64.
\<close>

section \<open>Messages\<close>

record 'f PSIData =
  psi_Avg10 :: 'f
  psi_Avg60 :: 'f
  psi_Avg300 :: 'f
  psi_Total :: u64

record 'f PSIStats =
  psi_Some :: "'f PSIData option"
  psi_Full :: "'f PSIData option"

record PidsStat =
  pidst_Current :: u64
  pidst_Limit :: u64

record 'f CPUStat =
  cs_UsageUsec :: u64
  cs_UserUsec :: u64
  cs_SystemUsec :: u64
  cs_NrPeriods :: u64
  cs_NrThrottled :: u64
  cs_ThrottledUsec :: u64
  cs_NrBursts :: u64
  cs_BurstUsec :: u64
  cs_PSI :: "'f PSIStats option"

text \<open>The counters of \<open>MemoryStat\<close> that come from memory.stat, in the order of the code, and the rest.\<close>

record MemoryCounters =
  ms_Anon :: u64
  ms_File :: u64
  ms_KernelStack :: u64
  ms_Slab :: u64
  ms_Sock :: u64
  ms_Shmem :: u64
  ms_FileMapped :: u64
  ms_FileDirty :: u64
  ms_FileWriteback :: u64
  ms_AnonThp :: u64
  ms_InactiveAnon :: u64
  ms_ActiveAnon :: u64
  ms_InactiveFile :: u64
  ms_ActiveFile :: u64
  ms_Unevictable :: u64
  ms_SlabReclaimable :: u64
  ms_SlabUnreclaimable :: u64
  ms_Pgfault :: u64
  ms_Pgmajfault :: u64
  ms_WorkingsetRefault :: u64
  ms_WorkingsetActivate :: u64
  ms_WorkingsetNodereclaim :: u64
  ms_Pgrefill :: u64
  ms_WorkingsetRefaultAnon :: u64
  ms_WorkingsetRefaultFile :: u64
  ms_WorkingsetActivateAnon :: u64
  ms_WorkingsetActivateFile :: u64
  ms_Pgscan :: u64
  ms_Pgsteal :: u64
  ms_Pgactivate :: u64
  ms_Pgdeactivate :: u64
  ms_Pglazyfree :: u64
  ms_Pglazyfreed :: u64
  ms_ThpFaultAlloc :: u64
  ms_ThpCollapseAlloc :: u64

record 'f MemoryStat = MemoryCounters +
  ms_Usage :: u64
  ms_UsageLimit :: u64
  ms_MaxUsage :: u64
  ms_SwapUsage :: u64
  ms_SwapLimit :: u64
  ms_SwapMaxUsage :: u64
  ms_PSI :: "'f PSIStats option"

record MemoryEvents =
  me_Low :: u64
  me_High :: u64
  me_Max :: u64
  me_Oom :: u64
  me_OomKill :: u64
  me_OomGroupKill :: u64

record RdmaEntry =
  re_Device :: string
  re_HcaHandles :: u32
  re_HcaObjects :: u32

record RdmaStat =
  rs_Current :: "RdmaEntry list"
  rs_Limit :: "RdmaEntry list"

record IOEntry =
  ie_Major :: u64
  ie_Minor :: u64
  ie_Rbytes :: u64
  ie_Wbytes :: u64
  ie_Rios :: u64
  ie_Wios :: u64

record 'f IOStat =
  is_Usage :: "IOEntry list"
  is_PSI :: "'f PSIStats option"

record HugeTlbStat =
  ht_Current :: u64
  ht_Max :: u64
  ht_Pagesize :: string
  ht_Failcnt :: u64

record 'f Metrics =
  mt_Pids :: "PidsStat option"
  mt_CPU :: "'f CPUStat option"
  mt_Memory :: "'f MemoryStat option"
  mt_MemoryEvents :: "MemoryEvents option"
  mt_Rdma :: "RdmaStat option"
  mt_Io :: "'f IOStat option"
  mt_Hugetlb :: "HugeTlbStat list"

end
