(* ===== verification/V2Stats.thy ===== *)
theory V2Stats
  imports V2Paths V2Values V2Metrics
begin

text \<open>
  The statistics of \<open>cgroup2\<close>: the readers of \<open>utils.go\<close>, and \<open>StatFiltered\<close>, \<open>Stat\<close>, \<open>readCPUStats\<close>,
  \<open>readMemoryStats\<close>, \<open>readMemoryEvents\<close> and \<open>readKVStatsFile\<close> of \<open>manager.go\<close>. A collection reads one
  state of the system. Floating point is a parameter: \<open>pf\<close> stands for \<open>strconv.ParseFloat\<close>. The huge
  page sizes of the host, which the code reads once and keeps, are the parameter \<open>hps\<close>.
\<close>

section \<open>Single values\<close>

definition getStatFileContentUint64 :: "'w os \<Rightarrow> string \<Rightarrow> 'w \<Rightarrow> u64" where
  "getStatFileContentUint64 os filePath w = (case os_open os filePath w of
     Inl e \<Rightarrow> 0
   | Inr f \<Rightarrow> (case read32 f of
       Ok buf \<Rightarrow> (let trimmed = trim_space buf
                   in if trimmed = ''max'' then - 1 else fst (parseUint trimmed 64))
     | _ \<Rightarrow> 0))"

fun kv_find :: "string \<Rightarrow> string list \<Rightarrow> u64 option" where
  "kv_find propertyName [] = None"
| "kv_find propertyName (l # ls) = (case parseKV l of (name, value, err) \<Rightarrow>
     if name = propertyName then Some (if err = None then value else 0) else kv_find propertyName ls)"

definition getKVStatsFileContentUint64 :: "'w os \<Rightarrow> string \<Rightarrow> string \<Rightarrow> 'w \<Rightarrow> u64" where
  "getKVStatsFileContentUint64 os filePath propertyName w = (case os_open os filePath w of
     Inl e \<Rightarrow> 0
   | Inr (d, rd) \<Rightarrow> (case kv_find propertyName (fst (scan_lines d rd)) of Some v \<Rightarrow> v | None \<Rightarrow> 0))"

definition readKVStatsFile :: "'w os \<Rightarrow> string \<Rightarrow> string \<Rightarrow> 'w \<Rightarrow> gerror option \<times> counters" where
  "readKVStatsFile os path file w =
     (let p = path_join [path, file]
      in case os_open os p w of
           Inl e \<Rightarrow> (Some e, [])
         | Inr (d, rd) \<Rightarrow> (case scan_lines d rd of (ls, serr) \<Rightarrow>
             (case kv_loop (\<lambda>l e. Wrap (''error while parsing '' @ p @ '' (line='' @ quoted l @ '')'') e) ls [] of
                (Some e, out) \<Rightarrow> (Some e, out)
              | (None, out) \<Rightarrow> (serr, out))))"

section \<open>io.stat\<close>

definition io_kv :: "string \<Rightarrow> IOEntry \<Rightarrow> IOEntry" where
  "io_kv s e =
     (let kv = split CHR ''='' s
      in if length kv \<noteq> 2 then e
         else (case ParseUint (kv ! 1) 0 of
             (v, Some _) \<Rightarrow> e
           | (v, None) \<Rightarrow>
               if kv ! 0 = ''rbytes'' then e\<lparr>ie_Rbytes := v\<rparr>
               else if kv ! 0 = ''wbytes'' then e\<lparr>ie_Wbytes := v\<rparr>
               else if kv ! 0 = ''rios'' then e\<lparr>ie_Rios := v\<rparr>
               else if kv ! 0 = ''wios'' then e\<lparr>ie_Wios := v\<rparr>
               else e))"

fun io_entries :: "string list \<Rightarrow> IOEntry list" where
  "io_entries [] = []"
| "io_entries (entry # entries) =
     (let parts = split CHR '' '' entry; majmin = split CHR '':'' (parts ! 0)
      in if length parts < 2 then io_entries entries
         else if length majmin \<noteq> 2 then io_entries entries
         else (case ParseUint (majmin ! 0) 0 of
             (_, Some _) \<Rightarrow> []
           | (major, None) \<Rightarrow> (case ParseUint (majmin ! 1) 0 of
               (_, Some _) \<Rightarrow> []
             | (minor, None) \<Rightarrow>
                 fold io_kv (tl parts) \<lparr>ie_Major = major, ie_Minor = minor, ie_Rbytes = 0, ie_Wbytes = 0,
                   ie_Rios = 0, ie_Wios = 0\<rparr> # io_entries entries)))"

definition readIoStats :: "'w os \<Rightarrow> string \<Rightarrow> 'w \<Rightarrow> IOEntry list" where
  "readIoStats os path w = (case ReadFile os (path_join [path, ''io.stat'']) w of
     Ok currentData \<Rightarrow> io_entries (split CHR 0x0A currentData)
   | _ \<Rightarrow> [])"

section \<open>RDMA\<close>

definition parseRdmaKV :: "string \<Rightarrow> RdmaEntry \<Rightarrow> RdmaEntry" where
  "parseRdmaKV raw entry = (case cut raw CHR ''='' of
     None \<Rightarrow> entry
   | Some (k, v) \<Rightarrow>
       (case (if v = ''max'' then (2 ^ 32 - 1, None) else parseUint v 32) of
          (value, Some _) \<Rightarrow> entry
        | (value, None) \<Rightarrow>
            if k = ''hca_handle'' then entry\<lparr>re_HcaHandles := ucast value\<rparr>
            else if k = ''hca_object'' then entry\<lparr>re_HcaObjects := ucast value\<rparr>
            else entry))"

fun toRdmaEntry :: "string list \<Rightarrow> RdmaEntry list" where
  "toRdmaEntry [] = []"
| "toRdmaEntry (s # ss) = (case Fields s of
     [dev, a, b] \<Rightarrow>
       parseRdmaKV b (parseRdmaKV a \<lparr>re_Device = dev, re_HcaHandles = 0, re_HcaObjects = 0\<rparr>) # toRdmaEntry ss
   | _ \<Rightarrow> toRdmaEntry ss)"

definition rdmaStats :: "'w os \<Rightarrow> string \<Rightarrow> 'w \<Rightarrow> RdmaEntry list" where
  "rdmaStats os filepath w = (case ReadFile os filepath w of
     Ok currentData \<Rightarrow> toRdmaEntry (split CHR 0x0A currentData)
   | _ \<Rightarrow> [])"

section \<open>Huge pages\<close>

fun hp_names :: "string list \<Rightarrow> string list \<times> gerror option" where
  "hp_names [] = ([], None)"
| "hp_names (file # files) =
     (let val = trim_prefix file ''hugepages-''; (sizes, warn) = hp_names files
      in if length val = length file then (sizes, warn)
         else if int (length (trim_suffix val ''kB'')) \<noteq> int (length val) - 2
         then (sizes, Some (ErrMsg (file @ '': invalid suffix (expected \"kB\")'')))
         else (case Atoi (trim_suffix val ''kB'') of
             (sz, Some e) \<Rightarrow> (sizes, Some (Wrap file (NumError ''Atoi'' (trim_suffix val ''kB'') e)))
           | (sz, None) \<Rightarrow>
               ((if 2 ^ 20 \<le> sint sz then show_int (sint sz div 2 ^ 20) @ ''GB''
                 else if 2 ^ 10 \<le> sint sz then show_int (sint sz div 2 ^ 10) @ ''MB''
                 else trim_suffix val ''kB'' @ ''KB'') # sizes, warn)))"

definition getHugePageSizeFromFilenames :: "string list \<Rightarrow> string list \<times> gerror option" where
  "getHugePageSizeFromFilenames fileNames = hp_names fileNames"

text \<open>The once-only body of \<open>hugePageSizes\<close>, for what opening and listing the directory returns.\<close>

definition hugePageSizes :: "gerror + string list \<Rightarrow> string list" where
  "hugePageSizes dir = (case dir of
     Inl e \<Rightarrow> [] | Inr files \<Rightarrow> fst (getHugePageSizeFromFilenames files))"

definition readHugeTlbStats :: "'w os \<Rightarrow> string list \<Rightarrow> string \<Rightarrow> 'w \<Rightarrow> HugeTlbStat list" where
  "readHugeTlbStats os hps path w = map (\<lambda>pagesize.
     \<lparr>ht_Current = getStatFileContentUint64 os (path_join [path, ''hugetlb.'' @ pagesize @ ''.current'']) w,
      ht_Max = getStatFileContentUint64 os (path_join [path, ''hugetlb.'' @ pagesize @ ''.max'']) w,
      ht_Pagesize = pagesize,
      ht_Failcnt = getKVStatsFileContentUint64 os (path_join [path, ''hugetlb.'' @ pagesize @ ''.events'']) ''max'' w\<rparr>) hps"


section \<open>Pressure stall information\<close>

fun parsePSIData :: "(string \<Rightarrow> 'f \<times> gerror option) \<Rightarrow> string list \<Rightarrow> 'f PSIData \<Rightarrow> 'f PSIData outcome" where
  "parsePSIData pf [] data = Ok data"
| "parsePSIData pf (f # fs) data =
     (let kv = split_n 2 CHR ''='' f
      in if length kv \<noteq> 2 then Err (ErrMsg (''invalid PSI data: '' @ quoted f))
         else let k = kv ! 0; bad = (\<lambda>e. Err (Wrap (''invalid '' @ k @ '' PSI value'') e))
         in if k = ''total''
            then (case ParseUint (kv ! 1) 64 of
                    (v, Some e) \<Rightarrow> bad (NumError ''ParseUint'' (kv ! 1) e)
                  | (v, None) \<Rightarrow> parsePSIData pf fs (data\<lparr>psi_Total := v\<rparr>))
            else if k = ''avg10'' \<or> k = ''avg60'' \<or> k = ''avg300''
            then (case pf (kv ! 1) of
                    (v, Some e) \<Rightarrow> bad e
                  | (v, None) \<Rightarrow> parsePSIData pf fs
                      (if k = ''avg10'' then data\<lparr>psi_Avg10 := v\<rparr>
                       else if k = ''avg60'' then data\<lparr>psi_Avg60 := v\<rparr>
                       else data\<lparr>psi_Avg300 := v\<rparr>))
            else parsePSIData pf fs data)"

definition zero_psi :: "'f::zero PSIData" where
  "zero_psi = \<lparr>psi_Avg10 = 0, psi_Avg60 = 0, psi_Avg300 = 0, psi_Total = 0\<rparr>"

text \<open>The loop over the lines; nothing when a line is refused. A line of white space has no first
  field: the index is out of range.\<close>

fun psi_lines :: "(string \<Rightarrow> 'f::zero \<times> gerror option) \<Rightarrow> string list \<Rightarrow> 'f PSIStats \<Rightarrow> 'f PSIStats option outcome" where
  "psi_lines pf [] st = Ok (Some st)"
| "psi_lines pf (l # ls) st = (case Fields l of
     [] \<Rightarrow> Panic
   | p # ps \<Rightarrow>
       if p = ''some'' \<or> p = ''full''
       then (case parsePSIData pf ps zero_psi of
           Ok d \<Rightarrow> psi_lines pf ls (if p = ''some'' then st\<lparr>psi_Some := Some d\<rparr> else st\<lparr>psi_Full := Some d\<rparr>)
         | Err e \<Rightarrow> Ok None
         | Panic \<Rightarrow> Panic)
       else psi_lines pf ls st)"

definition getStatPSIFromFile ::
    "'w os \<Rightarrow> (string \<Rightarrow> 'f::zero \<times> gerror option) \<Rightarrow> string \<Rightarrow> 'w \<Rightarrow> 'f PSIStats option outcome" where
  "getStatPSIFromFile os pf path w = (case os_open os path w of
     Inl e \<Rightarrow> Ok None
   | Inr (d, rd) \<Rightarrow> (case scan_lines d rd of (ls, serr) \<Rightarrow>
       bind_out (psi_lines pf ls \<lparr>psi_Some = None, psi_Full = None\<rparr>)
         (\<lambda>st. Ok (if serr = None then st else None))))"

section \<open>The controllers\<close>

definition readCPUStats :: "'w os \<Rightarrow> (string \<Rightarrow> 'f::zero \<times> gerror option) \<Rightarrow> string \<Rightarrow> 'w \<Rightarrow> 'f CPUStat outcome" where
  "readCPUStats os pf cgroupPath w = (case readKVStatsFile os cgroupPath ''cpu.stat'' w of
     (Some e, _) \<Rightarrow>
       if is_not_exist e
       then Ok \<lparr>cs_UsageUsec = 0, cs_UserUsec = 0, cs_SystemUsec = 0, cs_NrPeriods = 0, cs_NrThrottled = 0,
              cs_ThrottledUsec = 0, cs_NrBursts = 0, cs_BurstUsec = 0, cs_PSI = None\<rparr>
       else Err e
   | (None, m) \<Rightarrow> bind_out (getStatPSIFromFile os pf (path_join [cgroupPath, ''cpu.pressure'']) w) (\<lambda>psi.
       Ok \<lparr>cs_UsageUsec = mget m ''usage_usec'', cs_UserUsec = mget m ''user_usec'',
          cs_SystemUsec = mget m ''system_usec'', cs_NrPeriods = mget m ''nr_periods'',
          cs_NrThrottled = mget m ''nr_throttled'', cs_ThrottledUsec = mget m ''throttled_usec'',
          cs_NrBursts = mget m ''nr_bursts'', cs_BurstUsec = mget m ''burst_usec'', cs_PSI = psi\<rparr>))"

text \<open>The message for the map of memory.stat, the values of the single files and the pressure.\<close>

definition memory_stat_of :: "counters \<Rightarrow> (string \<Rightarrow> u64) \<Rightarrow> 'f PSIStats option \<Rightarrow> 'f MemoryStat" where
  "memory_stat_of m content psi =
     \<lparr>ms_Anon = mget m ''anon'',
      ms_File = mget m ''file'',
      ms_KernelStack = mget m ''kernel_stack'',
      ms_Slab = mget m ''slab'',
      ms_Sock = mget m ''sock'',
      ms_Shmem = mget m ''shmem'',
      ms_FileMapped = mget m ''file_mapped'',
      ms_FileDirty = mget m ''file_dirty'',
      ms_FileWriteback = mget m ''file_writeback'',
      ms_AnonThp = mget m ''anon_thp'',
      ms_InactiveAnon = mget m ''inactive_anon'',
      ms_ActiveAnon = mget m ''active_anon'',
      ms_InactiveFile = mget m ''inactive_file'',
      ms_ActiveFile = mget m ''active_file'',
      ms_Unevictable = mget m ''unevictable'',
      ms_SlabReclaimable = mget m ''slab_reclaimable'',
      ms_SlabUnreclaimable = mget m ''slab_unreclaimable'',
      ms_Pgfault = mget m ''pgfault'',
      ms_Pgmajfault = mget m ''pgmajfault'',
      ms_WorkingsetRefault = mget m ''workingset_refault'',
      ms_WorkingsetActivate = mget m ''workingset_activate'',
      ms_WorkingsetNodereclaim = mget m ''workingset_nodereclaim'',
      ms_Pgrefill = mget m ''pgrefill'',
      ms_WorkingsetRefaultAnon = mget m ''workingset_refault_anon'',
      ms_WorkingsetRefaultFile = mget m ''workingset_refault_file'',
      ms_WorkingsetActivateAnon = mget m ''workingset_activate_anon'',
      ms_WorkingsetActivateFile = mget m ''workingset_activate_file'',
      ms_Pgscan = mget m ''pgscan'',
      ms_Pgsteal = mget m ''pgsteal'',
      ms_Pgactivate = mget m ''pgactivate'',
      ms_Pgdeactivate = mget m ''pgdeactivate'',
      ms_Pglazyfree = mget m ''pglazyfree'',
      ms_Pglazyfreed = mget m ''pglazyfreed'',
      ms_ThpFaultAlloc = mget m ''thp_fault_alloc'',
      ms_ThpCollapseAlloc = mget m ''thp_collapse_alloc'',
      ms_Usage = content ''memory.current'',
      ms_UsageLimit = content ''memory.max'',
      ms_MaxUsage = content ''memory.peak'',
      ms_SwapUsage = content ''memory.swap.current'',
      ms_SwapLimit = content ''memory.swap.max'',
      ms_SwapMaxUsage = content ''memory.swap.peak'',
      ms_PSI = psi\<rparr>"

definition readMemoryStats :: "'w os \<Rightarrow> (string \<Rightarrow> 'f::zero \<times> gerror option) \<Rightarrow> string \<Rightarrow> 'w \<Rightarrow> 'f MemoryStat outcome" where
  "readMemoryStats os pf cgroupPath w = (case readKVStatsFile os cgroupPath ''memory.stat'' w of
     (Some e, _) \<Rightarrow>
       if is_not_exist e then Ok (memory_stat_of [] (\<lambda>_. 0) None) else Err e
   | (None, m) \<Rightarrow> bind_out (getStatPSIFromFile os pf (path_join [cgroupPath, ''memory.pressure'']) w) (\<lambda>psi.
       Ok (memory_stat_of m (\<lambda>f. getStatFileContentUint64 os (path_join [cgroupPath, f]) w) psi)))"

definition memory_events_of :: "counters \<Rightarrow> MemoryEvents option" where
  "memory_events_of m =
     (if length m = 0 then None
      else Some \<lparr>me_Low = mget m ''low'', me_High = mget m ''high'', me_Max = mget m ''max'',
        me_Oom = mget m ''oom'', me_OomKill = mget m ''oom_kill'', me_OomGroupKill = mget m ''oom_group_kill''\<rparr>)"

definition readMemoryEvents :: "'w os \<Rightarrow> string \<Rightarrow> 'w \<Rightarrow> MemoryEvents option outcome" where
  "readMemoryEvents os cgroupPath w = (case readKVStatsFile os cgroupPath ''memory.events'' w of (err, m) \<Rightarrow>
     (case err of
        Some e \<Rightarrow> if \<not> is_not_exist e then Err e else Ok (memory_events_of m)
      | None \<Rightarrow> Ok (memory_events_of m)))"

section \<open>Collecting\<close>

definition StatPids :: u64 where "StatPids = 1"
definition StatCPU :: u64 where "StatCPU = 2"
definition StatMemory :: u64 where "StatMemory = 4"
definition StatMemoryEvents :: u64 where "StatMemoryEvents = 8"
definition StatIO :: u64 where "StatIO = 16"
definition StatRdma :: u64 where "StatRdma = 32"
definition StatHugetlb :: u64 where "StatHugetlb = 64"

definition StatAll :: u64 where
  "StatAll = or StatPids (or StatCPU (or StatMemory (or StatMemoryEvents (or StatIO (or StatRdma StatHugetlb)))))"

definition wants :: "u64 \<Rightarrow> u64 \<Rightarrow> bool" where
  "wants msk bits = (and msk bits \<noteq> 0)"

text \<open>A collection that is only made if it is wanted.\<close>

definition if_wanted :: "bool \<Rightarrow> 'a outcome \<Rightarrow> 'a option outcome" where
  "if_wanted b r = (if b then bind_out r (\<lambda>x. Ok (Some x)) else Ok None)"

definition StatFiltered ::
    "'w os \<Rightarrow> (string \<Rightarrow> 'f::zero \<times> gerror option) \<Rightarrow> string list \<Rightarrow> string \<Rightarrow> u64 \<Rightarrow> 'w \<Rightarrow> 'f Metrics outcome" where
  "StatFiltered os pf hps path msk w =
     (let content = (\<lambda>f. getStatFileContentUint64 os (path_join [path, f]) w)
      in bind_out (if_wanted (wants msk StatPids)
             (Ok \<lparr>pidst_Current = content ''pids.current'', pidst_Limit = content ''pids.max''\<rparr>)) (\<lambda>pids.
         bind_out (if_wanted (wants msk StatCPU) (readCPUStats os pf path w)) (\<lambda>cpu.
         bind_out (if_wanted (wants msk StatMemory) (readMemoryStats os pf path w)) (\<lambda>memory.
         bind_out (if wants msk StatMemoryEvents then readMemoryEvents os path w else Ok None) (\<lambda>events.
         bind_out (if_wanted (wants msk StatIO)
             (bind_out (getStatPSIFromFile os pf (path_join [path, ''io.pressure'']) w) (\<lambda>psi.
                Ok \<lparr>is_Usage = readIoStats os path w, is_PSI = psi\<rparr>))) (\<lambda>io.
         Ok \<lparr>mt_Pids = pids, mt_CPU = cpu, mt_Memory = memory, mt_MemoryEvents = events,
            mt_Rdma = (if wants msk StatRdma
                       then Some \<lparr>rs_Current = rdmaStats os (path_join [path, ''rdma.current'']) w,
                                  rs_Limit = rdmaStats os (path_join [path, ''rdma.max'']) w\<rparr>
                       else None),
            mt_Io = io,
            mt_Hugetlb = (if wants msk StatHugetlb then readHugeTlbStats os hps path w else [])\<rparr>))))))"

definition Stat :: "'w os \<Rightarrow> (string \<Rightarrow> 'f::zero \<times> gerror option) \<Rightarrow> string list \<Rightarrow> string \<Rightarrow> 'w \<Rightarrow> 'f Metrics outcome" where
  "Stat os pf hps path w = StatFiltered os pf hps path StatAll w"


section \<open>What is read back\<close>

lemma readKVStatsFile_kv_file:
  assumes "os_open os (path_join [path, file]) w = Inr (kv_file kvs, rd)" and "\<And>k v. (k, v) \<in> set kvs \<Longrightarrow> kv_key k"
  shows "readKVStatsFile os path file w = (rd, put_all kvs [])"
proof -
  have "\<And>k v. (k, v) \<in> set kvs \<Longrightarrow> plain_word k" using assms(2) by (simp add: kv_key_def)
  then show ?thesis
    by (simp add: readKVStatsFile_def assms(1) scan_kv_file [OF assms(2)] kv_loop_file)
qed

lemma ParseUint_0_FormatUint [simp]: "ParseUint (FormatUint v) 0 = (v, None)"
  by (simp add: ParseUint_bits_0 ParseUint_FormatUint)

lemma FormatUint_no:
  "CHR '' '' \<notin> set (FormatUint v)" "CHR '':'' \<notin> set (FormatUint v)" "CHR ''='' \<notin> set (FormatUint v)" "CHR 0x0A \<notin> set (FormatUint v)"
  using show_nat_set is_digit_not by (fastforce simp: FormatUint_def)+

text \<open>A line of io.stat as the kernel prints it.\<close>

definition io_line :: "IOEntry \<Rightarrow> string" where
  "io_line e = join [FormatUint (ie_Major e) @ '':'' @ FormatUint (ie_Minor e),
     ''rbytes='' @ FormatUint (ie_Rbytes e), ''wbytes='' @ FormatUint (ie_Wbytes e),
     ''rios='' @ FormatUint (ie_Rios e), ''wios='' @ FormatUint (ie_Wios e), ''dbytes=0'', ''dios=0''] '' ''"

lemma split_io_line:
  "split CHR '' '' (io_line e) = [FormatUint (ie_Major e) @ '':'' @ FormatUint (ie_Minor e),
     ''rbytes='' @ FormatUint (ie_Rbytes e), ''wbytes='' @ FormatUint (ie_Wbytes e),
     ''rios='' @ FormatUint (ie_Rios e), ''wios='' @ FormatUint (ie_Wios e), ''dbytes=0'', ''dios=0'']"
  unfolding io_line_def by (rule split_join) (auto simp: FormatUint_no)

lemma io_kv_pair:
  assumes "CHR ''='' \<notin> set k"
  shows "split CHR ''='' (k @ CHR ''='' # FormatUint v) = [k, FormatUint v]"
  using assms by (intro split_two FormatUint_no)

lemma io_entries_line: "io_entries (io_line e # ls) = e # io_entries ls"
proof -
  have mm: "split CHR '':'' (FormatUint (ie_Major e) @ CHR '':'' # FormatUint (ie_Minor e)) =
      [FormatUint (ie_Major e), FormatUint (ie_Minor e)]"
    by (intro split_two FormatUint_no)
  have kv: "io_kv (''rbytes='' @ FormatUint v) x = x\<lparr>ie_Rbytes := v\<rparr>"
    "io_kv (''wbytes='' @ FormatUint v) x = x\<lparr>ie_Wbytes := v\<rparr>"
    "io_kv (''rios='' @ FormatUint v) x = x\<lparr>ie_Rios := v\<rparr>"
    "io_kv (''wios='' @ FormatUint v) x = x\<lparr>ie_Wios := v\<rparr>" for v x
    using io_kv_pair [of "''rbytes''" v] io_kv_pair [of "''wbytes''" v] io_kv_pair [of "''rios''" v]
      io_kv_pair [of "''wios''" v] by (simp_all add: io_kv_def Let_def)
  have other: "io_kv ''dbytes=0'' x = x" "io_kv ''dios=0'' x = x" for x
    by (simp_all add: io_kv_def Let_def split: prod.splits option.splits)
  show ?thesis
    using mm by (simp add: split_io_line Let_def kv [simplified] other)
qed

lemma io_entries_file: "io_entries (map io_line es @ [[]]) = es"
proof (induction es)
  case (Cons e es)
  then show ?case by (simp only: list.map append_Cons io_entries_line)
qed simp

lemma split_text: "(\<And>l. l \<in> set ls \<Longrightarrow> CHR 0x0A \<notin> set l) \<Longrightarrow> split CHR 0x0A (text_lines ls) = ls @ [[]]"
  unfolding text_lines_def by (induction ls) (auto simp: split_append_sep split_no_sep)

lemma io_line_no_newline: "CHR 0x0A \<notin> set (io_line e)"
  by (simp add: io_line_def FormatUint_no)

text \<open>C29: The io.stat file that the kernel prints for a list of devices is read back as that list.\<close>

theorem io_stat_roundtrip:
  assumes "os_open os (path_join [path, ''io.stat'']) w = Inr (text_lines (map io_line es), None)"
  shows "readIoStats os path w = es"
proof -
  have "split CHR 0x0A (text_lines (map io_line es)) = map io_line es @ [[]]"
    using io_line_no_newline by (intro split_text) auto
  then show ?thesis by (simp add: readIoStats_def ReadFile_def assms io_entries_file)
qed

lemma parseUint32: "parseUint (FormatUint (ucast (x :: u32))) 32 = (ucast x, None)"
proof -
  have "unat x < 2 ^ 32" using unsigned_less [of x, where ?'a = nat] by simp
  moreover from this have "unat (ucast x :: u64) = unat x"
    by (simp only: unsigned_ucast_eq) (rule take_bit_nat_eq_self, simp)
  ultimately show ?thesis
    by (simp add: parseUint_def FormatUint_def)
       (subst ParseUint_digits, simp_all add: show_nat_digits dec_value_def bit_size_def)
qed


lemma parseRdmaKV_line:
  "parseRdmaKV (''hca_handle='' @ FormatUint (ucast (x :: u32))) e = e\<lparr>re_HcaHandles := x\<rparr>"
  "parseRdmaKV (''hca_object='' @ FormatUint (ucast (x :: u32))) e = e\<lparr>re_HcaObjects := x\<rparr>"
proof -
  have max: "FormatUint v \<noteq> ''max''" for v
    using show_nat_set [of "CHR ''m''" "unat v"] by (auto simp: FormatUint_def)
  show "parseRdmaKV (''hca_handle='' @ FormatUint (ucast x)) e = e\<lparr>re_HcaHandles := x\<rparr>"
    using cut_append [of "CHR ''=''" "''hca_handle''" "FormatUint (ucast x)"] max
    by (simp add: parseRdmaKV_def parseUint32)
  show "parseRdmaKV (''hca_object='' @ FormatUint (ucast x)) e = e\<lparr>re_HcaObjects := x\<rparr>"
    using cut_append [of "CHR ''=''" "''hca_object''" "FormatUint (ucast x)"] max
    by (simp add: parseRdmaKV_def parseUint32)
qed

lemma plain_word_append:
  "plain_word a \<Longrightarrow> list_all plain_char b \<Longrightarrow> plain_word (b @ a)"
  by (simp add: plain_word_def)

lemma fields_RDMAEntry_String:
  assumes "plain_word (rdma_Device r)"
  shows "Fields (RDMAEntry_String r) = [rdma_Device r, ''hca_handle='' @ FormatUint (ucast (rdma_HcaHandles r)),
    ''hca_object='' @ FormatUint (ucast (rdma_HcaObjects r))]"
proof -
  have pl: "list_all plain_char ''hca_handle=''" "list_all plain_char ''hca_object=''"
    by (simp_all add: plain_char_def ascii_space_def)
  have w: "plain_word (''hca_handle='' @ FormatUint v)" "plain_word (''hca_object='' @ FormatUint v)" for v
    using plain_word_append [OF uint_codec.print_plain pl(1)] plain_word_append [OF uint_codec.print_plain pl(2)]
    by blast+
  have "RDMAEntry_String r = rdma_Device r @ CHR '' '' # (''hca_handle='' @ FormatUint (ucast (rdma_HcaHandles r))) @
      CHR '' '' # (''hca_object='' @ FormatUint (ucast (rdma_HcaObjects r)))"
    by (simp add: RDMAEntry_String_def)
  then show ?thesis
    by (simp only: fields_word_space [OF assms ascii_space_space] fields_word_space [OF w(1) ascii_space_space]
        fields_word [OF w(2)])
qed

definition rdma_entry :: "RDMAEntry \<Rightarrow> RdmaEntry" where
  "rdma_entry r = \<lparr>re_Device = rdma_Device r, re_HcaHandles = rdma_HcaHandles r, re_HcaObjects = rdma_HcaObjects r\<rparr>"

lemma toRdmaEntry_line:
  "plain_word (rdma_Device r) \<Longrightarrow> toRdmaEntry (RDMAEntry_String r # ls) = rdma_entry r # toRdmaEntry ls"
  by (simp add: fields_RDMAEntry_String parseRdmaKV_line [simplified] rdma_entry_def)

lemma toRdmaEntry_file:
  "list_all (\<lambda>r. plain_word (rdma_Device r)) rs \<Longrightarrow> toRdmaEntry (map RDMAEntry_String rs @ [[]]) = map rdma_entry rs"
proof (induction rs)
  case (Cons r rs)
  then show ?case by (simp add: toRdmaEntry_line del: toRdmaEntry.simps)
qed simp

text \<open>The rdma.max file that lists limits in the format RDMAEntry.String prints is read back as
  these limits.\<close>


theorem rdma_limits_roundtrip:
  assumes "os_open os p w = Inr (text_lines (map RDMAEntry_String rs), None)"
    and "list_all (\<lambda>r. plain_word (rdma_Device r)) rs"
  shows "rdmaStats os p w = map rdma_entry rs"
proof -
  have "CHR 0x0A \<notin> set (RDMAEntry_String r)" if "r \<in> set rs" for r
    using that assms(2) plain_no_special(1) [of "rdma_Device r"]
    by (auto simp: RDMAEntry_String_def FormatUint_no list_all_iff)
  then have "split CHR 0x0A (text_lines (map RDMAEntry_String rs)) = map RDMAEntry_String rs @ [[]]"
    by (intro split_text) auto
  then show ?thesis using assms by (simp add: rdmaStats_def ReadFile_def toRdmaEntry_file)
qed

text \<open>The name of a huge page size of the kernel, by its size in kB.\<close>

definition page_size_name :: "nat \<Rightarrow> string" where
  "page_size_name n =
     (if 2 ^ 20 \<le> n then show_nat (n div 2 ^ 20) @ ''GB''
      else if 2 ^ 10 \<le> n then show_nat (n div 2 ^ 10) @ ''MB''
      else show_nat n @ ''KB'')"

lemma Atoi_show_nat: "n < 2 ^ 63 \<Longrightarrow> Atoi (show_nat n) = (of_nat n, None)"
  using ParseInt_digits [of "show_nat n"] by (simp add: Atoi_bits show_nat_digits dec_value_def)

lemma trim_prefix_append [simp]: "trim_prefix (p @ s) p = s"
  by (simp add: trim_prefix_def)

lemma trim_suffix_append [simp]: "trim_suffix (s @ p) p = s"
  by (simp add: trim_suffix_def)

lemma hp_names_cons:
  assumes "n < 2 ^ 63"
  shows "hp_names ((''hugepages-'' @ show_nat n @ ''kB'') # files) =
    (page_size_name n # fst (hp_names files), snd (hp_names files))"
proof -
  let ?file = "''hugepages-'' @ show_nat n @ ''kB''"
  have val: "trim_prefix ?file ''hugepages-'' = show_nat n @ ''kB''" by (rule trim_prefix_append)
  have suf: "trim_suffix (show_nat n @ ''kB'') ''kB'' = show_nat n" by (rule trim_suffix_append)
  have show_div: "show_int (int n div k) = show_nat (nat (int n div k))" if "0 \<le> k" for k
    using that by (simp add: show_int_def pos_imp_zdiv_neg_iff not_less div_int_pos_iff)
  have ge: "(2 ^ k \<le> int n) = (2 ^ k \<le> n)" for k
    by (metis of_nat_le_iff of_nat_numeral of_nat_power)
  have dv: "nat (int n div 2 ^ k) = n div 2 ^ k" for k
    by (metis nat_int of_nat_numeral of_nat_power zdiv_int)
  show ?thesis
    unfolding hp_names.simps val suf Let_def Atoi_show_nat [OF assms]
    using ge [of 20] ge [of 10] dv [of 20] dv [of 10]
    by (simp add: page_size_name_def sint_of_nat_small [OF assms] show_div split: prod.splits)
qed

text \<open>From the directory names of /sys/kernel/mm/hugepages come the size names that the files
  of the hugetlb controller carry: in GB from 2^20 kB on, in MB from 2^10 kB on, in KB below, without
  a warning.\<close>

theorem huge_page_size_names:
  assumes "list_all (\<lambda>n. n < 2 ^ 63) ns"
  shows "getHugePageSizeFromFilenames (map (\<lambda>n. ''hugepages-'' @ show_nat n @ ''kB'') ns) = (map page_size_name ns, None)"
  using assms unfolding getHugePageSizeFromFilenames_def
proof (induction ns)
  case (Cons n ns)
  then have "n < 2 ^ 63" "hp_names (map (\<lambda>n. ''hugepages-'' @ show_nat n @ ''kB'') ns) = (map page_size_name ns, None)"
    by simp_all
  then show ?case by (simp only: list.map hp_names_cons fst_conv snd_conv)
qed simp

theorem huge_page_size_names_witness:
  "getHugePageSizeFromFilenames [''hugepages-2048kB'', ''hugepages-1048576kB''] = ([''2MB'', ''1GB''], None)"
  using huge_page_size_names [of "[2048, 1048576]"]
  by (simp add: page_size_name_def print_eval)


theorem io_stat_roundtrip_witness:
  "readIoStats mem_os ''/g'' \<lparr>mem_files = [(''/g/io.stat'', text_lines (map io_line [\<lparr>ie_Major = 8, ie_Minor = 0,
      ie_Rbytes = 1, ie_Wbytes = 2, ie_Rios = 3, ie_Wios = 4\<rparr>]))], mem_dirs = [''/'', ''/g''], mem_faults = []\<rparr>
    = [\<lparr>ie_Major = 8, ie_Minor = 0, ie_Rbytes = 1, ie_Wbytes = 2, ie_Rios = 3, ie_Wios = 4\<rparr>]"
  by (rule io_stat_roundtrip) (simp add: path_eval mem_open_def fault_def)

theorem rdma_limits_roundtrip_witness:
  "rdmaStats mem_os ''/g/rdma.max'' \<lparr>mem_files = [(''/g/rdma.max'', text_lines (map RDMAEntry_String
      [\<lparr>rdma_Device = ''mlx5_0'', rdma_HcaHandles = 3, rdma_HcaObjects = 10000\<rparr>]))], mem_dirs = [''/'', ''/g''], mem_faults = []\<rparr>
    = [\<lparr>re_Device = ''mlx5_0'', re_HcaHandles = 3, re_HcaObjects = 10000\<rparr>]"
proof -
  let ?rs = "[\<lparr>rdma_Device = ''mlx5_0'', rdma_HcaHandles = 3, rdma_HcaObjects = 10000\<rparr>]"
  have "list_all (\<lambda>r. plain_word (rdma_Device r)) ?rs" by (simp add: plain_word_def plain_char_def ascii_space_def)
  then show ?thesis
    by (rule trans [OF rdma_limits_roundtrip, rotated]) (simp_all add: mem_open_def fault_def rdma_entry_def)
qed

section \<open>What a mask selects\<close>

lemma if_wanted_all_Ok: "if_wanted b (Ok x) = Ok (if b then Some x else None)"
  by (simp add: if_wanted_def)

lemma wants_All [simp]:
  "wants StatAll StatPids" "wants StatAll StatCPU" "wants StatAll StatMemory" "wants StatAll StatMemoryEvents"
  "wants StatAll StatIO" "wants StatAll StatRdma" "wants StatAll StatHugetlb"
  by (simp_all add: wants_def StatAll_def StatPids_def StatCPU_def StatMemory_def StatMemoryEvents_def
      StatIO_def StatRdma_def StatHugetlb_def)

definition selected :: "u64 \<Rightarrow> 'f Metrics \<Rightarrow> 'f Metrics" where
  "selected msk m = \<lparr>
     mt_Pids = (if wants msk StatPids then mt_Pids m else None),
     mt_CPU = (if wants msk StatCPU then mt_CPU m else None),
     mt_Memory = (if wants msk StatMemory then mt_Memory m else None),
     mt_MemoryEvents = (if wants msk StatMemoryEvents then mt_MemoryEvents m else None),
     mt_Rdma = (if wants msk StatRdma then mt_Rdma m else None),
     mt_Io = (if wants msk StatIO then mt_Io m else None),
     mt_Hugetlb = (if wants msk StatHugetlb then mt_Hugetlb m else [])\<rparr>"

lemma collect_selects:
  assumes "bind_out (if_wanted (wants StatAll StatPids) P) (\<lambda>pids.
    bind_out (if_wanted (wants StatAll StatCPU) C) (\<lambda>cpu.
    bind_out (if_wanted (wants StatAll StatMemory) M) (\<lambda>memory.
    bind_out (if wants StatAll StatMemoryEvents then E else Ok None) (\<lambda>events.
    bind_out (if_wanted (wants StatAll StatIO) I) (\<lambda>io.
    Ok \<lparr>mt_Pids = pids, mt_CPU = cpu, mt_Memory = memory, mt_MemoryEvents = events,
       mt_Rdma = (if wants StatAll StatRdma then Some R else None), mt_Io = io,
       mt_Hugetlb = (if wants StatAll StatHugetlb then H else [])\<rparr>))))) = Ok full"
  shows "bind_out (if_wanted (wants msk StatPids) P) (\<lambda>pids.
    bind_out (if_wanted (wants msk StatCPU) C) (\<lambda>cpu.
    bind_out (if_wanted (wants msk StatMemory) M) (\<lambda>memory.
    bind_out (if wants msk StatMemoryEvents then E else Ok None) (\<lambda>events.
    bind_out (if_wanted (wants msk StatIO) I) (\<lambda>io.
    Ok \<lparr>mt_Pids = pids, mt_CPU = cpu, mt_Memory = memory, mt_MemoryEvents = events,
       mt_Rdma = (if wants msk StatRdma then Some R else None), mt_Io = io,
       mt_Hugetlb = (if wants msk StatHugetlb then H else [])\<rparr>))))) = Ok (selected msk full)"
proof -
  obtain p c m e i where "P = Ok p" "C = Ok c" "M = Ok m" "E = Ok e" "I = Ok i"
    using assms by (cases P; cases C; cases M; cases E; cases I; simp add: if_wanted_def)
  moreover from this have "full = \<lparr>mt_Pids = Some p, mt_CPU = Some c, mt_Memory = Some m, mt_MemoryEvents = e,
      mt_Rdma = Some R, mt_Io = Some i, mt_Hugetlb = H\<rparr>"
    using assms by (simp add: if_wanted_def)
  moreover have "(if b then Ok x else Ok None) = Ok (if b then x else None)" for b and x :: "MemoryEvents option" by simp
  ultimately show ?thesis by (simp add: if_wanted_all_Ok selected_def split del: if_split cong: if_cong)
qed

text \<open>Collecting with a mask is collecting everything and keeping what the mask selects, and a
  group that is collected as a whole is collected under every mask.\<close>

theorem stat_filtered_selects:
  assumes "Stat os pf hps path w = Ok full"
  shows "StatFiltered os pf hps path msk w = Ok (selected msk full)"
  using assms unfolding Stat_def StatFiltered_def Let_def by (rule collect_selects)

theorem stat_filtered_selects_witness:
  "StatFiltered mem_os (\<lambda>_. (0 :: nat, None)) [] ''/g'' 0 \<lparr>mem_files = [], mem_dirs = [], mem_faults = []\<rparr> =
     Ok \<lparr>mt_Pids = None, mt_CPU = None, mt_Memory = None, mt_MemoryEvents = None, mt_Rdma = None, mt_Io = None,
       mt_Hugetlb = []\<rparr>"
proof -
  let ?w = "\<lparr>mem_files = [], mem_dirs = [], mem_faults = []\<rparr>"
  have no: "mem_open p ?w = Inl (PathError ''open'' p ENOENT)" for p by (simp add: mem_open_def fault_def)
  let ?pf = "\<lambda>_. (0 :: nat, None)"
  have kv: "readKVStatsFile mem_os p f ?w = (Some (PathError ''open'' (path_join [p, f]) ENOENT), [])" for p f
    by (simp add: readKVStatsFile_def no)
  have psi: "getStatPSIFromFile mem_os ?pf p ?w = Ok None" for p by (simp add: getStatPSIFromFile_def no)
  obtain cpu where cpu: "readCPUStats mem_os ?pf ''/g'' ?w = Ok cpu" by (simp add: readCPUStats_def kv)
  obtain mem where mem: "readMemoryStats mem_os ?pf ''/g'' ?w = Ok mem" by (simp add: readMemoryStats_def kv)
  obtain ev where ev: "readMemoryEvents mem_os ''/g'' ?w = Ok ev" by (simp add: readMemoryEvents_def kv)
  obtain full where "Stat mem_os ?pf [] ''/g'' ?w = Ok full"
    unfolding Stat_def StatFiltered_def Let_def if_wanted_def cpu mem ev psi by simp
  from stat_filtered_selects [OF this, of 0] show ?thesis by (simp add: selected_def wants_def)
qed


section \<open>Pressure files\<close>

text \<open>A line of a pressure file, for a rendering of the averages.\<close>

definition psi_line :: "('f \<Rightarrow> string) \<Rightarrow> string \<Rightarrow> 'f PSIData \<Rightarrow> string" where
  "psi_line fmt kind d = kind @ '' '' @ (''avg10='' @ fmt (psi_Avg10 d)) @ '' '' @ (''avg60='' @ fmt (psi_Avg60 d)) @ '' '' @
     (''avg300='' @ fmt (psi_Avg300 d)) @ '' '' @ (''total='' @ FormatUint (psi_Total d))"

lemma split_n_pair: "d \<notin> set k \<Longrightarrow> split_n 2 d (k @ d # v) = [k, v]"
  by (simp add: numeral_2_eq_2 dropWhile_append takeWhile_append)

lemma plain_key_value:
  "plain_word v \<Longrightarrow> list_all plain_char k \<Longrightarrow> plain_word (k @ v)"
  by (simp add: plain_word_def)

lemma fields_psi_line:
  assumes "plain_word kind" and "\<And>x. plain_word (fmt x)"
  shows "Fields (psi_line fmt kind d) = [kind, ''avg10='' @ fmt (psi_Avg10 d), ''avg60='' @ fmt (psi_Avg60 d),
    ''avg300='' @ fmt (psi_Avg300 d), ''total='' @ FormatUint (psi_Total d)]"
proof -
  have k: "list_all plain_char ''avg10=''" "list_all plain_char ''avg60=''" "list_all plain_char ''avg300=''"
    "list_all plain_char ''total=''"
    by (simp_all add: plain_char_def ascii_space_def)
  note f = fields_word_space [OF _ ascii_space_space]
  have "psi_line fmt kind d = kind @ CHR '' '' # (''avg10='' @ fmt (psi_Avg10 d)) @ CHR '' '' # (''avg60='' @ fmt (psi_Avg60 d)) @
      CHR '' '' # (''avg300='' @ fmt (psi_Avg300 d)) @ CHR '' '' # (''total='' @ FormatUint (psi_Total d))"
    by (simp add: psi_line_def)
  then show ?thesis
    by (simp only: f [OF assms(1)] f [OF plain_key_value [OF assms(2) k(1)]] f [OF plain_key_value [OF assms(2) k(2)]]
        f [OF plain_key_value [OF assms(2) k(3)]] fields_word [OF plain_key_value [OF uint_codec.print_plain k(4)]])
qed

lemma parsePSIData_line:
  assumes "\<And>x. pf (fmt x) = (x, None)"
  shows "parsePSIData pf [''avg10='' @ fmt (psi_Avg10 d), ''avg60='' @ fmt (psi_Avg60 d), ''avg300='' @ fmt (psi_Avg300 d),
    ''total='' @ FormatUint (psi_Total d)] z = Ok d"
  using split_n_pair [of "CHR ''=''" "''avg10''"] split_n_pair [of "CHR ''=''" "''avg60''"]
    split_n_pair [of "CHR ''=''" "''avg300''"] split_n_pair [of "CHR ''=''" "''total''"]
  by (simp add: assms ParseUint_FormatUint)

text \<open>A pressure file as the kernel prints it, with a line for the tasks that stall partly and one
  for those that stall fully, is read back as these numbers, for every rendering of the averages that
  ParseFloat reads back.\<close>

theorem psi_roundtrip:
  assumes "\<And>x. pf (fmt x) = (x, None)" and "\<And>x. plain_word (fmt x)" and "\<And>x. length (fmt x) < 1000"
    and "os_open os path w = Inr (text_lines [psi_line fmt ''some'' s, psi_line fmt ''full'' f], None)"
  shows "getStatPSIFromFile os pf path w = Ok (Some \<lparr>psi_Some = Some s, psi_Full = Some f\<rparr>)"
proof -
  have kinds: "plain_word ''some''" "plain_word ''full''" by (simp_all add: plain_word_def plain_char_def ascii_space_def)
  have line: "plain_line (psi_line fmt k d)" if "plain_word k" "length k < 10" for k d
    using that plain_no_special(1,2) [OF that(1)] plain_no_special(1,2) [OF assms(2)]
      plain_no_special(1,2) [OF uint_codec.print_plain] length_FormatUint [of "psi_Total d"]
      assms(3) [of "psi_Avg10 d"] assms(3) [of "psi_Avg60 d"] assms(3) [of "psi_Avg300 d"]
    by (auto simp: plain_line_def psi_line_def max_token_def)
  then have "list_all plain_line [psi_line fmt ''some'' s, psi_line fmt ''full'' f]" using kinds by simp
  note scan = scan_text_lines [OF this, of None]
  note p = parsePSIData_line [of pf fmt, OF assms(1)]
  have some: "psi_lines pf (psi_line fmt ''some'' d # ls) st = psi_lines pf ls (st\<lparr>psi_Some := Some d\<rparr>)" for d ls st
    unfolding psi_lines.simps fields_psi_line [OF kinds(1) assms(2)] list.case p by simp
  have full: "psi_lines pf (psi_line fmt ''full'' d # ls) st = psi_lines pf ls (st\<lparr>psi_Full := Some d\<rparr>)" for d ls st
    unfolding psi_lines.simps fields_psi_line [OF kinds(2) assms(2)] list.case p by simp
  show ?thesis
    unfolding getStatPSIFromFile_def assms(4) by (simp add: scan some full del: psi_lines.simps(2))
qed

theorem psi_roundtrip_witness:
  "getStatPSIFromFile mem_os (\<lambda>s. (fst (ParseUint s 64), None)) ''/p''
     \<lparr>mem_files = [(''/p'', text_lines [
        psi_line FormatUint ''some'' \<lparr>psi_Avg10 = 1, psi_Avg60 = 2, psi_Avg300 = 3, psi_Total = 4\<rparr>,
        psi_line FormatUint ''full'' \<lparr>psi_Avg10 = 0, psi_Avg60 = 0, psi_Avg300 = 0, psi_Total = 5\<rparr>])],
      mem_dirs = [], mem_faults = []\<rparr>
   = Ok (Some \<lparr>psi_Some = Some \<lparr>psi_Avg10 = 1, psi_Avg60 = 2, psi_Avg300 = 3, psi_Total = 4\<rparr>,
       psi_Full = Some \<lparr>psi_Avg10 = 0, psi_Avg60 = 0, psi_Avg300 = 0, psi_Total = 5\<rparr>\<rparr>)"
proof (rule psi_roundtrip [of _ FormatUint])
  show "length (FormatUint x) < 1000" for x using length_FormatUint [of x] by simp
qed (simp_all add: ParseUint_FormatUint uint_codec.print_plain mem_open_def fault_def)

text \<open>A pressure file whose first line is blank makes the reader index out of range.\<close>

theorem psi_blank_line_panics:
  assumes "os_open os path w = Inr (text_lines (l # ls), rd)" and "list_all plain_line (l # ls)" and "Fields l = []"
  shows "getStatPSIFromFile os pf path w = Panic"
  using assms(1,3) scan_text_lines [OF assms(2), of rd] by (simp add: getStatPSIFromFile_def)

theorem psi_blank_line_panics_witness:
  "getStatPSIFromFile mem_os (\<lambda>_. (0 :: nat, None)) ''/p'' \<lparr>mem_files = [(''/p'', text_lines [[]])], mem_dirs = [],
     mem_faults = []\<rparr> = Panic"
  by (rule psi_blank_line_panics [of _ _ _ "[]" "[]" None]) (simp_all add: mem_open_def fault_def plain_line_def max_token_def)

text \<open>The counters of cpu.stat: each field of the message is the value of the last line with its
  key, and 0 when no line has it.\<close>

theorem cpu_stats_last_value:
  assumes "os_open os (path_join [path, ''cpu.stat'']) w = Inr (kv_file kvs, None)"
    and "\<And>k v. (k, v) \<in> set kvs \<Longrightarrow> kv_key k"
    and "readCPUStats os pf path w = Ok st"
  shows "cs_UsageUsec st = (case map_of (rev kvs) ''usage_usec'' of Some v \<Rightarrow> v | None \<Rightarrow> 0)
    \<and> cs_NrThrottled st = (case map_of (rev kvs) ''nr_throttled'' of Some v \<Rightarrow> v | None \<Rightarrow> 0)
    \<and> cs_ThrottledUsec st = (case map_of (rev kvs) ''throttled_usec'' of Some v \<Rightarrow> v | None \<Rightarrow> 0)
    \<and> cs_BurstUsec st = (case map_of (rev kvs) ''burst_usec'' of Some v \<Rightarrow> v | None \<Rightarrow> 0)"
  using assms(3) readKVStatsFile_kv_file [OF assms(1,2)]
  by (auto simp: readCPUStats_def bind_out_eq_Ok mget_put_all)

theorem cpu_stats_last_value_witness:
  "\<exists>st. readCPUStats mem_os (\<lambda>_. (0 :: nat, None)) ''/g'' \<lparr>mem_files = [(''/g/cpu.stat'', kv_file [(''usage_usec'', 7)])],
     mem_dirs = [], mem_faults = []\<rparr> = Ok st \<and> cs_UsageUsec st = 7"
proof -
  let ?w = "\<lparr>mem_files = [(''/g/cpu.stat'', kv_file [(''usage_usec'', 7)])], mem_dirs = [], mem_faults = []\<rparr>"
  have o1: "os_open mem_os (path_join [''/g'', ''cpu.stat'']) ?w = Inr (kv_file [(''usage_usec'', 7)], None)"
    by (simp add: path_eval mem_open_def fault_def)
  have o2: "os_open mem_os (path_join [''/g'', ''cpu.pressure'']) ?w = Inl (PathError ''open'' ''/g/cpu.pressure'' ENOENT)"
    by (simp add: path_eval mem_open_def fault_def)
  have k: "kv_key k" if "(k, v) \<in> set [(''usage_usec'', 7 :: u64)]" for k v
    using that by (simp add: kv_key_def plain_word_def plain_char_def ascii_space_def)
  obtain st where st: "readCPUStats mem_os (\<lambda>_. (0 :: nat, None)) ''/g'' ?w = Ok st"
    using o2 readKVStatsFile_kv_file [OF o1 k] by (simp add: readCPUStats_def getStatPSIFromFile_def)
  with cpu_stats_last_value [OF o1 k st] show ?thesis by simp
qed

end
