(* ===== verification/V2Device.thy ===== *)
theory V2Device
  imports V2Values
begin

text \<open>
  The eBPF device filter of \<open>cgroup2/devicefilter.go\<close> and the two predicates of \<open>cgroup2/ebpf.go\<close>.
  The program is compiled from the OCI device rules, last rule first. The instructions are terms that
  record the calls of the assembler package; the machine that runs them is a parameter with the
  documented semantics as hypotheses (locale \<open>bpf_isa\<close>). The main lemma says that the compiled program
  computes the policy of the rules: the last rule that matches decides, and without one access is denied.
\<close>

unbundle bit_operations_syntax

section \<open>Instructions\<close>

datatype reg = R0 | R1 | R2 | R3 | R4 | R5

datatype msize = Half | Word

datatype opcode =
    LoadMem reg reg nat msize
  | RShImm32 reg u32
  | MovReg32 reg reg
  | MovImm32 reg u32
  | AndImm32 reg u32
  | JNEImm reg u32 string
  | JEqImm reg u32 string
  | Return

record insn =
  insn_sym :: "string option"
  insn_op :: opcode

definition asm :: "opcode \<Rightarrow> insn" where
  "asm c = \<lparr>insn_sym = None, insn_op = c\<rparr>"

text \<open>\<open>WithSymbol\<close> on the first of the instructions just added.\<close>

fun with_symbol :: "string \<Rightarrow> insn list \<Rightarrow> insn list" where
  "with_symbol l [] = []"
| "with_symbol l (i # is) = i\<lparr>insn_sym := Some l\<rparr> # is"

section \<open>The program builder\<close>

text \<open>The constants of the device controller in \<open>linux/bpf.h\<close>.\<close>

definition DEVCG_DEV_BLOCK :: u32 where "DEVCG_DEV_BLOCK = 1"
definition DEVCG_DEV_CHAR :: u32 where "DEVCG_DEV_CHAR = 2"
definition DEVCG_ACC_MKNOD :: u32 where "DEVCG_ACC_MKNOD = 1"
definition DEVCG_ACC_READ :: u32 where "DEVCG_ACC_READ = 2"
definition DEVCG_ACC_WRITE :: u32 where "DEVCG_ACC_WRITE = 4"

lemmas devcg_defs = DEVCG_DEV_BLOCK_def DEVCG_DEV_CHAR_def DEVCG_ACC_MKNOD_def DEVCG_ACC_READ_def
  DEVCG_ACC_WRITE_def

definition filter_license :: string where "filter_license = ''Apache''"

record filter_program =
  prog_insts :: "insn list"
  prog_hasWildCard :: bool
  prog_blockID :: int

definition prog_init :: "filter_program \<Rightarrow> filter_program" where
  "prog_init p = p\<lparr>prog_insts := prog_insts p @
     [asm (LoadMem R2 R1 0 Half),
      asm (LoadMem R3 R1 0 Word), asm (RShImm32 R3 16),
      asm (LoadMem R4 R1 4 Word),
      asm (LoadMem R5 R1 8 Word)]\<rparr>"

definition acceptBlock :: "bool \<Rightarrow> insn list" where
  "acceptBlock accept = [asm (MovImm32 R0 (if accept then 1 else 0)), asm Return]"

definition block_sym :: "int \<Rightarrow> string" where
  "block_sym n = ''block-'' @ show_int n"

text \<open>The type of a rule: nothing for all devices, or the type code.\<close>

definition rule_type :: "string \<Rightarrow> u32 option outcome" where
  "rule_type t =
     (if t = ''c'' then Ok (Some DEVCG_DEV_CHAR)
      else if t = ''b'' then Ok (Some DEVCG_DEV_BLOCK)
      else if t = ''a'' then Ok None
      else Err (ErrMsg (''invalid DeviceType '' @ quoted t)))"

fun rule_access :: "u32 \<Rightarrow> string \<Rightarrow> u32 outcome" where
  "rule_access acc [] = Ok acc"
| "rule_access acc (r # rs) =
     (if r = CHR ''r'' then rule_access (acc OR DEVCG_ACC_READ) rs
      else if r = CHR ''w'' then rule_access (acc OR DEVCG_ACC_WRITE) rs
      else if r = CHR ''m'' then rule_access (acc OR DEVCG_ACC_MKNOD) rs
      else Err (ErrMsg (''unknown device access '' @ show_nat (of_char r))))"

definition max_uint32 :: int where "max_uint32 = 4294967295"

definition acc_rwm :: u32 where
  "acc_rwm = DEVCG_ACC_READ OR DEVCG_ACC_WRITE OR DEVCG_ACC_MKNOD"

text \<open>The instructions of one rule: a jump to the next block for each check that fails.\<close>

definition rule_block :: "string \<Rightarrow> u32 option \<Rightarrow> u32 \<Rightarrow> i64 \<Rightarrow> i64 \<Rightarrow> bool \<Rightarrow> insn list" where
  "rule_block nextBlockSym bpfType bpfAccess major minor allow =
     (case bpfType of Some t \<Rightarrow> [asm (JNEImm R2 t nextBlockSym)] | None \<Rightarrow> []) @
     (if bpfAccess \<noteq> acc_rwm
      then [asm (MovReg32 R1 R3), asm (AndImm32 R1 bpfAccess), asm (JEqImm R1 0 nextBlockSym)] else []) @
     (if 0 \<le> sint major then [asm (JNEImm R4 (ucast major) nextBlockSym)] else []) @
     (if 0 \<le> sint minor then [asm (JNEImm R5 (ucast minor) nextBlockSym)] else []) @
     acceptBlock allow"

definition appendDevice :: "filter_program \<Rightarrow> LinuxDeviceCgroup \<Rightarrow> filter_program outcome" where
  "appendDevice p dev =
     (if prog_blockID p < 0 then Err (ErrMsg ''the program is finalized'')
      else if prog_hasWildCard p then Ok p
      else bind_out (rule_type (dev_Type dev)) (\<lambda>bpfType.
        case dev_Major dev of None \<Rightarrow> Panic | Some major \<Rightarrow>
        if max_uint32 < sint major then Err (ErrMsg (''invalid major '' @ FormatInt major))
        else (case dev_Minor dev of None \<Rightarrow> Panic | Some minor \<Rightarrow>
        if max_uint32 < sint minor then Err (ErrMsg (''invalid minor '' @ FormatInt major))
        else bind_out (rule_access 0 (dev_Access dev)) (\<lambda>bpfAccess.
          Ok (p\<lparr>prog_insts := prog_insts p @ with_symbol (block_sym (prog_blockID p))
                 (rule_block (block_sym (prog_blockID p + 1)) bpfType bpfAccess major minor (dev_Allow dev)),
               prog_hasWildCard :=
                 bpfType = None \<and> bpfAccess = acc_rwm \<and> sint major < 0 \<and> sint minor < 0,
               prog_blockID := prog_blockID p + 1\<rparr>)))))"

definition finalize :: "filter_program \<Rightarrow> filter_program" where
  "finalize p =
     (if prog_hasWildCard p then p
      else p\<lparr>prog_insts := prog_insts p @
               [(asm (MovImm32 R0 0))\<lparr>insn_sym := Some (block_sym (prog_blockID p))\<rparr>, asm Return],
             prog_blockID := - 1\<rparr>)"

fun append_devices :: "filter_program \<Rightarrow> LinuxDeviceCgroup list \<Rightarrow> filter_program outcome" where
  "append_devices p [] = Ok p"
| "append_devices p (d # ds) = bind_out (appendDevice p d) (\<lambda>p1. append_devices p1 ds)"

definition DeviceFilter :: "LinuxDeviceCgroup list \<Rightarrow> (insn list \<times> string) outcome" where
  "DeviceFilter devices =
     bind_out (append_devices
         (prog_init \<lparr>prog_insts = [], prog_hasWildCard = False, prog_blockID = 0\<rparr>) (rev devices))
       (\<lambda>p. Ok (prog_insts (finalize p), filter_license))"

section \<open>The predicates of the attach step\<close>

definition isRWM :: "string \<Rightarrow> bool" where
  "isRWM s = (CHR ''r'' \<in> set s \<and> CHR ''w'' \<in> set s \<and> CHR ''m'' \<in> set s)"

fun canSkipEBPFError :: "LinuxDeviceCgroup list \<Rightarrow> bool" where
  "canSkipEBPFError [] = True"
| "canSkipEBPFError (dev # devs) =
     (if dev_Allow dev \<or> \<not> isRWM (dev_Access dev) then False else canSkipEBPFError devs)"

section \<open>The machine\<close>

text \<open>The context of a device access (\<open>struct bpf_cgroup_dev_ctx\<close>), on a little-endian machine.\<close>

record dev_ctx =
  ctx_access_type :: u32
  ctx_major :: u32
  ctx_minor :: u32

type_synonym regs = "reg \<Rightarrow> u64"

text \<open>What a jump may read: its condition and its label.\<close>

fun jump_label :: "opcode \<Rightarrow> string option" where
  "jump_label (JNEImm r v l) = Some l"
| "jump_label (JEqImm r v l) = Some l"
| "jump_label c = None"

text \<open>The code from the instruction that carries a symbol on. Jumps of the filter go forward.\<close>

fun goto :: "string \<Rightarrow> insn list \<Rightarrow> insn list option" where
  "goto l [] = None"
| "goto l (i # is) = (if insn_sym i = Some l then Some (i # is) else goto l is)"

lemma goto_length: "goto l is = Some js \<Longrightarrow> length js \<le> length is"
  by (induction "is") (auto split: if_splits simp: le_SucI)

text \<open>
  Running code: the value of R0 at \<open>Return\<close>, nothing if the code runs off its end or jumps to a
  symbol that is not ahead. \<open>alu\<close> is what the other instructions do to the registers, \<open>taken\<close> whether
  a conditional jump is taken.
\<close>

function run :: "(opcode \<Rightarrow> regs \<Rightarrow> regs) \<Rightarrow> (opcode \<Rightarrow> regs \<Rightarrow> bool) \<Rightarrow> insn list \<Rightarrow> regs \<Rightarrow> u64 option" where
  "run alu taken [] rs = None"
| "run alu taken (i # is) rs =
     (if insn_op i = Return then Some (rs R0)
      else (case jump_label (insn_op i) of
          None \<Rightarrow> run alu taken is (alu (insn_op i) rs)
        | Some l \<Rightarrow>
            if taken (insn_op i) rs then (case goto l is of None \<Rightarrow> None | Some js \<Rightarrow> run alu taken js rs)
            else run alu taken is rs))"
  by pat_completeness auto
termination
  by (relation "measure (\<lambda>(a, t, is, rs). length is)") (auto dest!: goto_length)

section \<open>The compiled program, block by block\<close>

text \<open>What is ahead of a rule in the program: its block, and the blocks of the rules before it
  unless the rule is the wildcard.\<close>

definition is_wildcard :: "u32 option \<Rightarrow> u32 \<Rightarrow> i64 \<Rightarrow> i64 \<Rightarrow> bool" where
  "is_wildcard t a mj mn = (t = None \<and> a = acc_rwm \<and> sint mj < 0 \<and> sint mn < 0)"

text \<open>A rule that \<open>appendDevice\<close> accepts, with what it parses to.\<close>

definition parsed :: "LinuxDeviceCgroup \<Rightarrow> u32 option \<Rightarrow> u32 \<Rightarrow> i64 \<Rightarrow> i64 \<Rightarrow> bool" where
  "parsed d t a mj mn =
     (rule_type (dev_Type d) = Ok t \<and> rule_access 0 (dev_Access d) = Ok a \<and>
      dev_Major d = Some mj \<and> dev_Minor d = Some mn \<and> sint mj \<le> max_uint32 \<and> sint mn \<le> max_uint32)"

lemma appendDevice_Ok:
  assumes "appendDevice p d = Ok p1" and "0 \<le> prog_blockID p" and "\<not> prog_hasWildCard p"
  obtains t a mj mn where "parsed d t a mj mn"
    and "p1 = p\<lparr>prog_insts := prog_insts p @ with_symbol (block_sym (prog_blockID p))
                 (rule_block (block_sym (prog_blockID p + 1)) t a mj mn (dev_Allow d)),
               prog_hasWildCard := is_wildcard t a mj mn, prog_blockID := prog_blockID p + 1\<rparr>"
proof -
  obtain t where t: "rule_type (dev_Type d) = Ok t"
    using assms by (cases "rule_type (dev_Type d)") (auto simp: appendDevice_def)
  obtain mj where mj: "dev_Major d = Some mj" "sint mj \<le> max_uint32"
    using assms t by (cases "dev_Major d") (auto simp: appendDevice_def split: if_splits)
  obtain mn where mn: "dev_Minor d = Some mn" "sint mn \<le> max_uint32"
    using assms t mj by (cases "dev_Minor d") (auto simp: appendDevice_def split: if_splits)
  obtain a where a: "rule_access 0 (dev_Access d) = Ok a"
    using assms t mj mn by (cases "rule_access 0 (dev_Access d)") (auto simp: appendDevice_def)
  show ?thesis
    using assms t mj mn a by (intro that [of t a mj mn]) (auto simp: appendDevice_def parsed_def is_wildcard_def)
qed

lemma append_devices_wildcard:
  "prog_hasWildCard p \<Longrightarrow> 0 \<le> prog_blockID p \<Longrightarrow> append_devices p ds = Ok p"
  by (induction ds) (auto simp: appendDevice_def)

inductive compiled :: "int \<Rightarrow> LinuxDeviceCgroup list \<Rightarrow> insn list \<Rightarrow> bool" where
  no_rule: "compiled n [] [(asm (MovImm32 R0 0))\<lparr>insn_sym := Some (block_sym n)\<rparr>, asm Return]"
| wildcard: "parsed d t a mj mn \<Longrightarrow> is_wildcard t a mj mn \<Longrightarrow>
    compiled n (d # ds) (with_symbol (block_sym n) (rule_block (block_sym (n + 1)) t a mj mn (dev_Allow d)))"
| rule: "parsed d t a mj mn \<Longrightarrow> \<not> is_wildcard t a mj mn \<Longrightarrow> compiled (n + 1) ds code \<Longrightarrow>
    compiled n (d # ds)
      (with_symbol (block_sym n) (rule_block (block_sym (n + 1)) t a mj mn (dev_Allow d)) @ code)"

inductive_cases compiled_NilE: "compiled n [] code"
inductive_cases compiled_ConsE: "compiled n (d # ds) code"

lemma append_devices_compiled:
  "append_devices p ds = Ok p1 \<Longrightarrow> 0 \<le> prog_blockID p \<Longrightarrow> \<not> prog_hasWildCard p \<Longrightarrow>
     \<exists>code. compiled (prog_blockID p) ds code \<and> prog_insts (finalize p1) = prog_insts p @ code"
proof (induction ds arbitrary: p)
  case Nil
  then show ?case by (auto simp: finalize_def intro: compiled.no_rule)
next
  case (Cons d ds)
  obtain p2 where p2: "appendDevice p d = Ok p2" "append_devices p2 ds = Ok p1"
    using Cons.prems(1) by (auto simp: bind_out_eq_Ok)
  obtain t a mj mn where d: "parsed d t a mj mn"
    and eq: "p2 = p\<lparr>prog_insts := prog_insts p @ with_symbol (block_sym (prog_blockID p))
                 (rule_block (block_sym (prog_blockID p + 1)) t a mj mn (dev_Allow d)),
               prog_hasWildCard := is_wildcard t a mj mn, prog_blockID := prog_blockID p + 1\<rparr>"
    by (rule appendDevice_Ok [OF p2(1) Cons.prems(2,3)])
  show ?case
  proof (cases "is_wildcard t a mj mn")
    case True
    then have "p1 = p2"
      using append_devices_wildcard [of p2 ds] p2(2) Cons.prems(2) by (simp add: eq)
    then show ?thesis
      using compiled.wildcard [OF d True] by (auto simp: eq True finalize_def)
  next
    case False
    then obtain code where "compiled (prog_blockID p + 1) ds code"
      "prog_insts (finalize p1) = prog_insts p2 @ code"
      using Cons.IH [OF p2(2)] Cons.prems(2) by (auto simp: eq)
    then show ?thesis
      using compiled.rule [OF d False, of "prog_blockID p" ds code] by (auto simp: eq)
  qed
qed

text \<open>Every block starts with its symbol and has no other.\<close>

lemma rule_block_not_Nil [simp]: "rule_block l t a mj mn b \<noteq> []"
  by (simp add: rule_block_def acceptBlock_def)

lemma with_symbol_Cons: "is \<noteq> [] \<Longrightarrow> with_symbol l is = (hd is)\<lparr>insn_sym := Some l\<rparr> # tl is"
  by (cases "is") auto

lemma compiled_hd: "compiled n ds code \<Longrightarrow> \<exists>i is. code = i # is \<and> insn_sym i = Some (block_sym n)"
  by (induction rule: compiled.induct) (auto simp: with_symbol_Cons)

lemma goto_compiled: "compiled n ds code \<Longrightarrow> goto (block_sym n) code = Some code"
  using compiled_hd [of n ds code] by auto

lemma goto_skip: "(\<And>i. i \<in> set is \<Longrightarrow> insn_sym i \<noteq> Some l) \<Longrightarrow> goto l (is @ js) = goto l js"
  by (induction "is") auto

lemma rule_block_no_sym: "i \<in> set (rule_block l t a mj mn b) \<Longrightarrow> insn_sym i = None"
  by (auto simp: rule_block_def acceptBlock_def asm_def split: option.splits if_splits)

text \<open>The symbol on the first instruction does not matter to the code that follows it.\<close>

lemma run_with_symbol: "run alu taken (with_symbol l is @ js) rs = run alu taken (is @ js) rs"
  by (cases "is") (simp_all cong: if_cong option.case_cong)

declare run.simps [simp del]

lemma run_Return: "run alu taken (asm Return # is) rs = Some (rs R0)"
  by (simp add: run.simps asm_def)

lemma run_jump:
  "jump_label c = Some l \<Longrightarrow> run alu taken (asm c # is) rs =
     (if taken c rs then (case goto l is of None \<Rightarrow> None | Some js \<Rightarrow> run alu taken js rs)
      else run alu taken is rs)"
  by (cases c) (simp_all add: run.simps asm_def)

lemma run_alu:
  "jump_label c = None \<Longrightarrow> c \<noteq> Return \<Longrightarrow> run alu taken (asm c # is) rs = run alu taken is (alu c rs)"
  by (simp add: run.simps asm_def)

lemmas run_steps = run_Return run_jump run_alu

section \<open>The policy of the rules\<close>

definition ctx_type :: "dev_ctx \<Rightarrow> u32" where
  "ctx_type c = ctx_access_type c AND 0xFFFF"

definition ctx_access :: "dev_ctx \<Rightarrow> u32" where
  "ctx_access c = drop_bit 16 (ctx_access_type c)"

text \<open>
  A rule applies to an access when the device type, the major and the minor number are the rule's (a
  negative number stands for all), and some requested kind of access is among the rule's letters, or
  the rule has all three letters.
\<close>

definition type_applies :: "string \<Rightarrow> u32 \<Rightarrow> bool" where
  "type_applies t ty =
     (t = ''a'' \<or> t = ''b'' \<and> ty = DEVCG_DEV_BLOCK \<or> t = ''c'' \<and> ty = DEVCG_DEV_CHAR)"

definition access_applies :: "string \<Rightarrow> u32 \<Rightarrow> bool" where
  "access_applies s acc =
     (isRWM s \<or>
      CHR ''r'' \<in> set s \<and> acc AND DEVCG_ACC_READ \<noteq> 0 \<or>
      CHR ''w'' \<in> set s \<and> acc AND DEVCG_ACC_WRITE \<noteq> 0 \<or>
      CHR ''m'' \<in> set s \<and> acc AND DEVCG_ACC_MKNOD \<noteq> 0)"

definition number_applies :: "i64 option \<Rightarrow> u32 \<Rightarrow> bool" where
  "number_applies n x = (case n of None \<Rightarrow> False | Some v \<Rightarrow> sint v < 0 \<or> sint v = uint x)"

definition rule_applies :: "dev_ctx \<Rightarrow> LinuxDeviceCgroup \<Rightarrow> bool" where
  "rule_applies c d =
     (type_applies (dev_Type d) (ctx_type c) \<and> access_applies (dev_Access d) (ctx_access c) \<and>
      number_applies (dev_Major d) (ctx_major c) \<and> number_applies (dev_Minor d) (ctx_minor c))"

definition policy :: "LinuxDeviceCgroup list \<Rightarrow> dev_ctx \<Rightarrow> bool" where
  "policy devices c = (case find (rule_applies c) (rev devices) of Some d \<Rightarrow> dev_Allow d | None \<Rightarrow> False)"

text \<open>The mask that the letters of a rule give.\<close>

definition access_mask :: "string \<Rightarrow> u32" where
  "access_mask s = (if CHR ''r'' \<in> set s then DEVCG_ACC_READ else 0) OR
     (if CHR ''w'' \<in> set s then DEVCG_ACC_WRITE else 0) OR
     (if CHR ''m'' \<in> set s then DEVCG_ACC_MKNOD else 0)"

lemma rule_access_mask: "rule_access acc s = Ok a \<Longrightarrow> a = acc OR access_mask s"
proof (induction s arbitrary: acc)
  case Nil
  then show ?case by (simp add: access_mask_def)
next
  case (Cons c s)
  let ?l = "if c = CHR ''r'' then DEVCG_ACC_READ else if c = CHR ''w'' then DEVCG_ACC_WRITE else DEVCG_ACC_MKNOD"
  have "rule_access (acc OR ?l) s = Ok a" using Cons.prems by (auto split: if_splits)
  then have "a = (acc OR ?l) OR access_mask s" by (rule Cons.IH)
  moreover have "?l OR access_mask s = access_mask (c # s)"
    using Cons.prems by (auto split: if_splits simp: access_mask_def or.assoc or.left_commute or.commute)
  ultimately show ?case by (simp only: or.assoc)
qed

lemma access_mask_rwm: "access_mask s = acc_rwm \<longleftrightarrow> isRWM s"
  by (auto simp: access_mask_def acc_rwm_def devcg_defs isRWM_def)

lemma and_mask_or: "(x :: u32) AND (a OR b) = 0 \<longleftrightarrow> x AND a = 0 \<and> x AND b = 0"
  by (simp add: bit.conj_disj_distrib or_eq_0_iff)

lemma access_mask_zero:
  "x AND access_mask s = 0 \<longleftrightarrow>
     \<not> (CHR ''r'' \<in> set s \<and> x AND DEVCG_ACC_READ \<noteq> 0 \<or>
        CHR ''w'' \<in> set s \<and> x AND DEVCG_ACC_WRITE \<noteq> 0 \<or>
        CHR ''m'' \<in> set s \<and> x AND DEVCG_ACC_MKNOD \<noteq> 0)"
  by (auto simp: access_mask_def and_mask_or)

text \<open>
  An operand of a 32-bit comparison keeps its value under sign extension when its top bit is clear;
  so does a major or minor number below \<open>2 ^ 31\<close> that is truncated to 32 bits first.
\<close>

lemma ucast_eq_scast:
  assumes "0 \<le> sint (v :: u32)"
  shows "(ucast (x :: u32) :: u64) = scast v \<longleftrightarrow> x = v"
proof -
  have "(scast v :: u64) = ucast v" by (simp only: scast_eq ucast_eq uint_sint_pos [OF assms])
  moreover have "(ucast x :: u64) = ucast v \<longleftrightarrow> uint (ucast x :: u64) = uint (ucast v :: u64)"
    by (rule word_uint_eq_iff)
  ultimately show ?thesis by (simp only: uint_ucast64 word_uint_eq_iff [of x v])
qed

lemma sint_ucast_small:
  assumes "0 \<le> sint (v :: i64)" and "sint v < 2 ^ 31"
  shows "sint (ucast v :: u32) = sint v"
  using assms by (simp add: signed_ucast_eq uint_sint_pos signed_take_bit_int_eq_self)

lemma number_operand_iff:
  assumes "0 \<le> sint (v :: i64)" and "sint v < 2 ^ 31"
  shows "(ucast (x :: u32) :: u64) = scast (ucast v :: u32) \<longleftrightarrow> sint v = uint x"
proof -
  have s: "sint (ucast v :: u32) = sint v" by (rule sint_ucast_small [OF assms])
  then have "uint (ucast v :: u32) = sint v" using assms(1) uint_sint_pos [of "ucast v :: u32"] by simp
  then have "x = ucast v \<longleftrightarrow> uint x = sint v" by (simp add: word_uint_eq_iff [of x])
  then show ?thesis using ucast_eq_scast [of "ucast v" x] s assms(1) by auto
qed

section \<open>The documented machine\<close>

text \<open>Numbers that fit the positive half of a 32-bit operand; negative ones stand for all.\<close>

definition small_numbers :: "LinuxDeviceCgroup \<Rightarrow> bool" where
  "small_numbers d =
     ((case dev_Major d of Some v \<Rightarrow> sint v < 2 ^ 31 | None \<Rightarrow> True) \<and>
      (case dev_Minor d of Some v \<Rightarrow> sint v < 2 ^ 31 | None \<Rightarrow> True))"

text \<open>When a rule applies, in terms of the operands its block is compiled from.\<close>

lemma rule_applies_parsed:
  assumes d: "parsed d t a mj mn"
  shows "rule_applies c d \<longleftrightarrow>
    (case t of Some v \<Rightarrow> ucast (ctx_type c) = (scast v :: u64) | None \<Rightarrow> True) \<and>
    (a = acc_rwm \<or> ctx_access c AND a \<noteq> 0) \<and> (sint mj < 0 \<or> sint mj = uint (ctx_major c)) \<and>
    (sint mn < 0 \<or> sint mn = uint (ctx_minor c))"
proof -
  have a: "a = access_mask (dev_Access d)" using d rule_access_mask [of 0] by (simp add: parsed_def)
  have "a = acc_rwm \<or> ctx_access c AND a \<noteq> 0 \<longleftrightarrow> access_applies (dev_Access d) (ctx_access c)"
    unfolding a access_mask_rwm access_mask_zero access_applies_def by blast
  moreover have "(case t of Some v \<Rightarrow> ucast (ctx_type c) = (scast v :: u64) | None \<Rightarrow> True) \<longleftrightarrow>
      type_applies (dev_Type d) (ctx_type c)"
    using d ucast_eq_scast [of 1 "ctx_type c"] ucast_eq_scast [of 2 "ctx_type c"]
    by (auto simp: parsed_def rule_type_def type_applies_def devcg_defs split: if_splits)
  moreover have "number_applies (dev_Major d) (ctx_major c) \<longleftrightarrow> sint mj < 0 \<or> sint mj = uint (ctx_major c)"
    "number_applies (dev_Minor d) (ctx_minor c) \<longleftrightarrow> sint mn < 0 \<or> sint mn = uint (ctx_minor c)"
    using d by (simp_all add: parsed_def number_applies_def)
  ultimately show ?thesis by (simp add: rule_applies_def)
qed

text \<open>The registers after the loads of \<open>prog_init\<close>, which every block leaves alone but for R1.\<close>

definition loaded :: "dev_ctx \<Rightarrow> regs \<Rightarrow> bool" where
  "loaded c rs = (rs R2 = ucast (ctx_type c) \<and> rs R3 = ucast (ctx_access c) \<and>
     rs R4 = ucast (ctx_major c) \<and> rs R5 = ucast (ctx_minor c))"

text \<open>
  What the eBPF instruction set promises of the instructions that the filter uses: a memory load of
  the context fields zero-extends, the 32-bit operations clear the upper half of their register, and
  the operand of a 64-bit conditional jump is sign-extended from 32 bits. \<open>ptr\<close> is the address of the
  context, which the kernel passes in R1.
\<close>

locale bpf_isa =
  fixes alu :: "dev_ctx \<Rightarrow> opcode \<Rightarrow> regs \<Rightarrow> regs" and taken :: "opcode \<Rightarrow> regs \<Rightarrow> bool" and ptr :: u64
  assumes load_half: "rs R1 = ptr \<Longrightarrow>
      alu c (LoadMem r R1 0 Half) rs = rs(r := ucast (ctx_access_type c AND 0xFFFF))"
    and load_type: "rs R1 = ptr \<Longrightarrow> alu c (LoadMem r R1 0 Word) rs = rs(r := ucast (ctx_access_type c))"
    and load_major: "rs R1 = ptr \<Longrightarrow> alu c (LoadMem r R1 4 Word) rs = rs(r := ucast (ctx_major c))"
    and load_minor: "rs R1 = ptr \<Longrightarrow> alu c (LoadMem r R1 8 Word) rs = rs(r := ucast (ctx_minor c))"
    and rsh32: "n < 32 \<Longrightarrow> alu c (RShImm32 r n) rs = rs(r := ucast (drop_bit (unat n) (ucast (rs r) :: u32)))"
    and mov_reg32: "alu c (MovReg32 r s) rs = rs(r := ucast (ucast (rs s) :: u32))"
    and mov_imm32: "alu c (MovImm32 r v) rs = rs(r := ucast v)"
    and and_imm32: "alu c (AndImm32 r v) rs = rs(r := ucast ((ucast (rs r) :: u32) AND v))"
    and jne_imm: "taken (JNEImm r v l) rs \<longleftrightarrow> rs r \<noteq> scast v"
    and jeq_imm: "taken (JEqImm r v l) rs \<longleftrightarrow> rs r = scast v"
begin

lemmas isa = load_half load_type load_major load_minor rsh32 mov_reg32 mov_imm32 and_imm32 jne_imm jeq_imm

lemma ucast_ucast_u32 [simp]: "ucast (ucast (x :: u32) :: u64) = x"
proof (rule word_uint_eqI)
  have "uint (ucast (ucast x :: u64) :: u32) = take_bit 32 (uint (ucast x :: u64))"
    by (subst unsigned_ucast_eq) simp
  also have "\<dots> = uint x" 
    using unsigned_less [of x, where ?'a = int] by (simp only: uint_ucast64) (simp add: take_bit_int_eq_self)
  finally show "uint (ucast (ucast x :: u64) :: u32) = uint x" .
qed

lemma run_type:
  assumes "loaded c rs" and "goto l (is @ js) = Some js"
  shows "run (alu c) taken ((case t of Some v \<Rightarrow> [asm (JNEImm R2 v l)] | None \<Rightarrow> []) @ is @ js) rs =
     (if (case t of Some v \<Rightarrow> ucast (ctx_type c) = (scast v :: u64) | None \<Rightarrow> True)
      then run (alu c) taken (is @ js) rs else run (alu c) taken js rs)"
  using assms by (cases t) (simp_all add: run_jump isa loaded_def)

lemma run_access:
  assumes "loaded c rs" and "goto l (is @ js) = Some js"
  shows "\<exists>rs1. loaded c rs1 \<and>
     run (alu c) taken ((if a \<noteq> acc_rwm then [asm (MovReg32 R1 R3), asm (AndImm32 R1 a), asm (JEqImm R1 0 l)] else [])
        @ is @ js) rs =
     (if a = acc_rwm \<or> ctx_access c AND a \<noteq> 0 then run (alu c) taken (is @ js) rs1 else run (alu c) taken js rs1)"
proof (cases "a = acc_rwm")
  case True
  then show ?thesis using assms(1) by (intro exI [of _ rs]) simp
next
  case False
  let ?rs = "rs(R1 := ucast (ctx_access c AND a))"
  have "loaded c ?rs" using assms(1) by (simp add: loaded_def)
  moreover have "(ucast (ctx_access c AND a) :: u64) = 0 \<longleftrightarrow> ctx_access c AND a = 0"
    using ucast_eq_scast [of 0 "ctx_access c AND a"] by simp
  ultimately show ?thesis
    using assms False by (intro exI [of _ ?rs]) (simp add: run_alu run_jump isa loaded_def)
qed

lemma run_number:
  assumes "rs r = ucast (x :: u32)" and "goto l (is @ js) = Some js" and "sint (v :: i64) < 2 ^ 31"
  shows "run (alu c) taken ((if 0 \<le> sint v then [asm (JNEImm r (ucast v) l)] else []) @ is @ js) rs =
     (if sint v < 0 \<or> sint v = uint x then run (alu c) taken (is @ js) rs else run (alu c) taken js rs)"
  using assms number_operand_iff [of v x] by (auto simp: run_jump isa)

lemma run_accept: "run (alu c) taken (acceptBlock b @ js) rs = Some (if b then 1 else 0)"
  by (simp add: acceptBlock_def run_steps isa)

text \<open>A block either answers for its rule or passes control to what follows.\<close>

lemma run_rule_block:
  assumes "loaded c rs" and js: "goto l js = Some js" and d: "parsed d t a mj mn"
    and small: "sint mj < 2 ^ 31" "sint mn < 2 ^ 31"
  shows "\<exists>rs1. loaded c rs1 \<and> run (alu c) taken (rule_block l t a mj mn (dev_Allow d) @ js) rs =
     (if rule_applies c d then Some (if dev_Allow d then 1 else 0) else run (alu c) taken js rs1)"
proof -
  let ?m = "if 0 \<le> sint mn then [asm (JNEImm R5 (ucast mn) l)] else []"
  let ?M = "if 0 \<le> sint mj then [asm (JNEImm R4 (ucast mj) l)] else []"
  let ?A = "if a \<noteq> acc_rwm then [asm (MovReg32 R1 R3), asm (AndImm32 R1 a), asm (JEqImm R1 0 l)] else []"
  let ?acc = "acceptBlock (dev_Allow d)"
  have g: "goto l (is @ js) = Some js" if "\<forall>i \<in> set is. insn_sym i = None" for "is"
    using that goto_skip [of "is" l js] js by auto
  have g1: "goto l (?acc @ js) = Some js" by (rule g) (auto simp: acceptBlock_def asm_def)
  have g2: "goto l ((?m @ ?acc) @ js) = Some js" by (rule g) (auto simp: acceptBlock_def asm_def)
  have g3: "goto l ((?M @ ?m @ ?acc) @ js) = Some js" by (rule g) (auto simp: acceptBlock_def asm_def)
  have g4: "goto l ((?A @ ?M @ ?m @ ?acc) @ js) = Some js" by (rule g) (auto simp: acceptBlock_def asm_def)
  obtain rs1 where rs1: "loaded c rs1" "run (alu c) taken (?A @ (?M @ ?m @ ?acc) @ js) rs =
     (if a = acc_rwm \<or> ctx_access c AND a \<noteq> 0 then run (alu c) taken ((?M @ ?m @ ?acc) @ js) rs1
      else run (alu c) taken js rs1)"
    using run_access [OF assms(1) g3] by blast
  have M: "run (alu c) taken (?M @ (?m @ ?acc) @ js) rs1 =
     (if sint mj < 0 \<or> sint mj = uint (ctx_major c) then run (alu c) taken ((?m @ ?acc) @ js) rs1
      else run (alu c) taken js rs1)"
    by (rule run_number [OF _ g2 small(1)]) (use rs1 in \<open>simp add: loaded_def\<close>)
  have m: "run (alu c) taken (?m @ ?acc @ js) rs1 =
     (if sint mn < 0 \<or> sint mn = uint (ctx_minor c) then Some (if dev_Allow d then 1 else 0)
      else run (alu c) taken js rs1)"
    using run_number [OF _ g1 small(2), of rs1 R5 "ctx_minor c" c] rs1(1)
    by (simp only: loaded_def run_accept)
  have "run (alu c) taken (rule_block l t a mj mn (dev_Allow d) @ js) rs =
     (if (case t of Some v \<Rightarrow> ucast (ctx_type c) = (scast v :: u64) | None \<Rightarrow> True)
      then run (alu c) taken (?A @ (?M @ ?m @ ?acc) @ js) rs else run (alu c) taken js rs)"
    using run_type [OF assms(1) g4, of t] by (simp add: rule_block_def)
  then show ?thesis
    using assms(1) rs1 M m unfolding rule_applies_parsed [OF d] by auto
qed

lemma wildcard_applies:
  assumes "parsed d t a mj mn" and "is_wildcard t a mj mn" shows "rule_applies c d"
proof -
  have "isRWM (dev_Access d)"
    using assms rule_access_mask [of 0 "dev_Access d" a] access_mask_rwm [of "dev_Access d"]
    by (simp add: parsed_def is_wildcard_def)
  then show ?thesis
    using assms by (auto simp: parsed_def is_wildcard_def rule_applies_def rule_type_def type_applies_def
        access_applies_def number_applies_def split: if_splits)
qed

lemma run_compiled:
  "compiled n ds code \<Longrightarrow> loaded c rs \<Longrightarrow> list_all small_numbers ds \<Longrightarrow>
     run (alu c) taken code rs =
     Some (if (case find (rule_applies c) ds of Some d \<Rightarrow> dev_Allow d | None \<Rightarrow> False) then 1 else 0)"
proof (induction arbitrary: rs rule: compiled.induct)
  case (no_rule n)
  have "run (alu c) taken (with_symbol (block_sym n) (acceptBlock False) @ []) rs = Some 0"
    unfolding run_with_symbol run_accept by simp
  then show ?case by (simp add: acceptBlock_def)
next
  case (wildcard d t a mj mn n ds)
  have "rule_block (block_sym (n + 1)) t a mj mn (dev_Allow d) = acceptBlock (dev_Allow d)"
    using wildcard.hyps(2) by (simp add: rule_block_def is_wildcard_def)
  then have "run (alu c) taken (with_symbol (block_sym n)
      (rule_block (block_sym (n + 1)) t a mj mn (dev_Allow d)) @ []) rs = Some (if dev_Allow d then 1 else 0)"
    by (simp only: run_with_symbol run_accept)
  then show ?case using wildcard_applies [OF wildcard.hyps, of c] by simp
next
  case (rule d t a mj mn n ds code)
  then show ?case
    using run_rule_block [OF rule.prems(1) goto_compiled [OF rule.hyps(3)] rule.hyps(1)] rule.IH rule.prems
    by (auto simp: run_with_symbol small_numbers_def parsed_def)
qed

text \<open>The loads at the start of the program.\<close>

lemma run_init:
  assumes "rs R1 = ptr"
  shows "\<exists>rs1. loaded c rs1 \<and>
     run (alu c) taken (prog_insts (prog_init \<lparr>prog_insts = [], prog_hasWildCard = b, prog_blockID = n\<rparr>) @ code) rs =
     run (alu c) taken code rs1"
  using assms
  by (intro exI [of _ "rs(R2 := ucast (ctx_type c), R3 := ucast (ctx_access c), R4 := ucast (ctx_major c),
      R5 := ucast (ctx_minor c))"]) (simp add: prog_init_def run_alu isa loaded_def ctx_type_def ctx_access_def fun_upd_twist)

lemma run_filter:
  assumes "DeviceFilter devices = Ok (insts, lic)" and "list_all small_numbers devices" and "rs R1 = ptr"
  shows "run (alu c) taken insts rs = Some (if policy devices c then 1 else 0)"
proof -
  let ?p0 = "prog_init \<lparr>prog_insts = [], prog_hasWildCard = False, prog_blockID = 0\<rparr>"
  obtain p where p: "append_devices ?p0 (rev devices) = Ok p" "insts = prog_insts (finalize p)"
    using assms(1) by (auto simp: DeviceFilter_def bind_out_eq_Ok)
  obtain code where code: "compiled (prog_blockID ?p0) (rev devices) code" "insts = prog_insts ?p0 @ code"
    using append_devices_compiled [OF p(1)] p(2) by (auto simp: prog_init_def)
  obtain rs1 where "loaded c rs1" "run (alu c) taken insts rs = run (alu c) taken code rs1"
    using run_init [of rs c False 0 code] assms(3) code(2) by auto
  then show ?thesis
    using run_compiled [OF code(1)] assms(2) by (simp add: policy_def list_all_iff)
qed

end

text \<open>A number from \<open>2 ^ 31\<close> on becomes negative in the operand, and no 32-bit number equals it.\<close>

lemma ucast_ne_scast:
  assumes "sint (v :: u32) < 0" shows "(ucast (x :: u32) :: u64) \<noteq> scast v"
proof
  assume h: "(ucast x :: u64) = scast v"
  have "sint (ucast x :: u64) = uint x"
    using unsigned_less [of x, where ?'a = int] order_trans [of "- (2 ^ 63)" 0 "uint x"]
    by (simp add: signed_ucast_eq signed_take_bit_int_eq_self)
  moreover have "sint (scast v :: u64) = sint v"
    using sint_ge [of v] sint_lt [of v] by (simp add: signed_scast_eq signed_take_bit_int_eq_self)
  ultimately show False using assms h uint_ge_0 [of x] by simp
qed

lemma sint_ucast_large:
  assumes "2 ^ 31 \<le> sint (v :: i64)" and "sint v < 2 ^ 32" shows "sint (ucast v :: u32) < 0"
proof -
  have u: "uint v = sint v" using assms by (simp add: uint_sint_pos)
  have "sint v div 2 ^ 31 = 1" using assms by (intro div_pos_geq [THEN trans] ) simp_all
  then have "bit (sint v) 31" by (simp add: bit_iff_odd)
  then show ?thesis
    using assms by (simp add: signed_ucast_eq u signed_take_bit_eq_take_bit_minus take_bit_int_eq_self)
qed

definition large_major_code :: "i64 \<Rightarrow> insn list" where
  "large_major_code major =
     [(asm (JNEImm R4 (ucast major) (block_sym 1)))\<lparr>insn_sym := Some (block_sym 0)\<rparr>] @
     acceptBlock True @ with_symbol (block_sym 1) (acceptBlock False)"

lemma large_major_filter:
  assumes "2 ^ 31 \<le> sint major" and "sint major \<le> max_uint32"
  shows "DeviceFilter [\<lparr>dev_Allow = True, dev_Type = ''a'', dev_Major = Some major, dev_Minor = Some (- 1),
            dev_Access = ''rwm''\<rparr>] =
     Ok (prog_insts (prog_init \<lparr>prog_insts = [], prog_hasWildCard = False, prog_blockID = 0\<rparr>) @ large_major_code major,
         filter_license)"
  using assms by (simp add: DeviceFilter_def appendDevice_def rule_type_def rule_block_def finalize_def
      acc_rwm_def devcg_defs acceptBlock_def prog_init_def asm_def large_major_code_def max_uint32_def)

context bpf_isa
begin

lemma run_large_major:
  assumes "rs R1 = ptr" and "2 ^ 31 \<le> sint major" and "sint major \<le> max_uint32"
    and "DeviceFilter [\<lparr>dev_Allow = True, dev_Type = ''a'', dev_Major = Some major, dev_Minor = Some (- 1),
            dev_Access = ''rwm''\<rparr>] = Ok (insts, lic)"
  shows "run (alu c) taken insts rs = Some 0"
proof -
  obtain rs1 where rs1: "loaded c rs1" "run (alu c) taken insts rs = run (alu c) taken (large_major_code major) rs1"
    using run_init [of rs c False 0 "large_major_code major"] large_major_filter [OF assms(2,3)] assms(1,4) by auto
  have "taken (JNEImm R4 (ucast major) (block_sym 1)) rs1"
    using rs1(1) ucast_ne_scast [OF sint_ucast_large [OF assms(2)], of "ctx_major c"] assms(3)
    by (simp add: isa loaded_def max_uint32_def)
  moreover have "run (alu c) taken (with_symbol (block_sym 1) (acceptBlock False)) rs1 = Some 0"
    using run_with_symbol [of "alu c" taken "block_sym 1" "acceptBlock False" "[]"] run_accept [of c False "[]"] by simp
  ultimately show ?thesis
    by (simp add: rs1(2) large_major_code_def run.simps asm_def acceptBlock_def)
qed

end

text \<open>A machine that keeps the documented semantics.\<close>

fun doc_alu :: "dev_ctx \<Rightarrow> opcode \<Rightarrow> regs \<Rightarrow> regs" where
  "doc_alu c (LoadMem r b off sz) rs = rs(r :=
     (if off = 0 then (if sz = Half then ucast (ctx_access_type c AND 0xFFFF) else ucast (ctx_access_type c))
      else if off = 4 then ucast (ctx_major c) else ucast (ctx_minor c)))"
| "doc_alu c (RShImm32 r n) rs = rs(r := ucast (drop_bit (unat n) (ucast (rs r) :: u32)))"
| "doc_alu c (MovReg32 r s) rs = rs(r := ucast (ucast (rs s) :: u32))"
| "doc_alu c (MovImm32 r v) rs = rs(r := ucast v)"
| "doc_alu c (AndImm32 r v) rs = rs(r := ucast ((ucast (rs r) :: u32) AND v))"
| "doc_alu c i rs = rs"

fun doc_taken :: "opcode \<Rightarrow> regs \<Rightarrow> bool" where
  "doc_taken (JNEImm r v l) rs = (rs r \<noteq> scast v)"
| "doc_taken (JEqImm r v l) rs = (rs r = scast v)"
| "doc_taken i rs = False"

interpretation doc: bpf_isa doc_alu doc_taken 0
  by unfold_locales simp_all

section \<open>Properties of the device filter\<close>

text \<open>C1: Compiler correctness of the device filter. On every machine that keeps the documented eBPF
  semantics, the program that DeviceFilter emits for rules whose major and minor numbers are below
  2^31 returns, for every device access, 1 exactly when the policy of the rules allows it: the last
  rule that applies decides, and an access to which no rule applies is denied.\<close>

theorem device_filter_correct:
  assumes "bpf_isa alu taken ptr" and "DeviceFilter devices = Ok (insts, lic)"
    and "list_all small_numbers devices" and "rs R1 = ptr"
  shows "run (alu c) taken insts rs = Some (if policy devices c then 1 else 0)"
  using assms by (rule bpf_isa.run_filter)

definition example_rules :: "LinuxDeviceCgroup list" where
  "example_rules =
     [\<lparr>dev_Allow = True, dev_Type = ''a'', dev_Major = Some (- 1), dev_Minor = Some (- 1), dev_Access = ''rwm''\<rparr>,
      \<lparr>dev_Allow = False, dev_Type = ''b'', dev_Major = Some 8, dev_Minor = Some 0, dev_Access = ''rwm''\<rparr>]"

definition example_insts :: "insn list" where
  "example_insts = (case DeviceFilter example_rules of Ok (is, l) \<Rightarrow> is | _ \<Rightarrow> [])"

lemma example_rules_Ok: "DeviceFilter example_rules = Ok (example_insts, filter_license)"
  by (simp add: example_insts_def example_rules_def DeviceFilter_def appendDevice_def rule_type_def
      max_uint32_def prog_init_def acc_rwm_def devcg_defs finalize_def)

lemma example_rules_small: "list_all small_numbers example_rules"
  by (simp add: example_rules_def small_numbers_def)

text \<open>The block device 8:0 is denied and the block device 8:1 allowed.\<close>

theorem device_filter_correct_witness:
  "run (doc_alu \<lparr>ctx_access_type = 0x20001, ctx_major = 8, ctx_minor = 0\<rparr>) doc_taken example_insts (\<lambda>_. 0) = Some 0 \<and>
   run (doc_alu \<lparr>ctx_access_type = 0x20001, ctx_major = 8, ctx_minor = 1\<rparr>) doc_taken example_insts (\<lambda>_. 0) = Some 1"
proof -
  have run: "run (doc_alu c) doc_taken example_insts (\<lambda>_. 0) = Some (if policy example_rules c then 1 else 0)" for c
    by (rule device_filter_correct [OF doc.bpf_isa_axioms example_rules_Ok example_rules_small]) simp
  show ?thesis unfolding run
    by (simp add: policy_def example_rules_def rule_applies_def type_applies_def access_applies_def isRWM_def
        number_applies_def ctx_type_def ctx_access_def devcg_defs)
qed

text \<open>A rule that gives no major or no minor number, as the OCI specification allows, is not
  treated as a rule for all numbers: if it is the last rule, DeviceFilter dereferences nil.\<close>

theorem device_filter_nil_number_panics:
  assumes "rule_type (dev_Type d) = Ok t" and "dev_Major d = None"
  shows "DeviceFilter (devices @ [d]) = Panic"
  using assms by (simp add: DeviceFilter_def appendDevice_def prog_init_def)

theorem device_filter_nil_number_panics_witness:
  "DeviceFilter [\<lparr>dev_Allow = False, dev_Type = ''a'', dev_Major = None, dev_Minor = None, dev_Access = ''rwm''\<rparr>] = Panic"
  using device_filter_nil_number_panics
    [of "\<lparr>dev_Allow = False, dev_Type = ''a'', dev_Major = None, dev_Minor = None, dev_Access = ''rwm''\<rparr>" None "[]"]
  by (simp add: rule_type_def)

text \<open>When the loading of the filter fails, the error is dropped only for rule sets whose policy
  denies every access of every device, which is then left unenforced.\<close>

theorem can_skip_ebpf_error_only_deny:
  assumes "canSkipEBPFError devices" shows "\<not> policy devices c"
proof -
  have "\<not> dev_Allow d" if "d \<in> set devices" for d
    using assms that by (induction devices) (auto split: if_splits)
  then show ?thesis
    by (auto simp: policy_def find_Some_iff split: option.splits) (metis length_rev nth_mem set_rev)
qed

theorem can_skip_ebpf_error_only_deny_witness:
  "\<not> policy [\<lparr>dev_Allow = False, dev_Type = ''a'', dev_Major = None, dev_Minor = None, dev_Access = ''rwm''\<rparr>]
     \<lparr>ctx_access_type = 0x20001, ctx_major = 8, ctx_minor = 0\<rparr>"
  by (rule can_skip_ebpf_error_only_deny) (simp add: isRWM_def)



section \<open>Symbols\<close>

definition symbols :: "insn list \<Rightarrow> string list" where
  "symbols is = somes (map insn_sym is)"

definition jump_targets :: "insn list \<Rightarrow> string list" where
  "jump_targets is = somes (map (\<lambda>i. jump_label (insn_op i)) is)"

lemma symbols_append [simp]: "symbols (is @ js) = symbols is @ symbols js"
  by (simp add: symbols_def)

lemma targets_append [simp]: "jump_targets (is @ js) = jump_targets is @ jump_targets js"
  by (simp add: jump_targets_def)

lemma symbols_none: "(\<And>i. i \<in> set is \<Longrightarrow> insn_sym i = None) \<Longrightarrow> symbols is = []"
  unfolding symbols_def by (induction "is") auto

lemma symbols_with_symbol:
  "is \<noteq> [] \<Longrightarrow> (\<And>i. i \<in> set is \<Longrightarrow> insn_sym i = None) \<Longrightarrow> symbols (with_symbol l is) = [l]"
  using symbols_none [of "tl is"] by (cases "is") (auto simp: symbols_def)

lemma targets_with_symbol [simp]: "jump_targets (with_symbol l is) = jump_targets is"
  by (cases "is") (simp_all add: jump_targets_def)

lemma rule_block_targets: "set (jump_targets (rule_block l t a mj mn b)) \<subseteq> {l}"
  by (auto simp: rule_block_def acceptBlock_def asm_def jump_targets_def split: option.splits if_splits)

lemma compiled_symbols:
  "compiled n ds code \<Longrightarrow> \<exists>m \<ge> n. symbols code = map block_sym [n..m] \<and>
     set (jump_targets code) \<subseteq> block_sym ` {n<..m}"
proof (induction rule: compiled.induct)
  case (no_rule n)
  then show ?case by (intro exI [of _ n]) (simp add: symbols_def jump_targets_def asm_def)
next
  case (wildcard d t a mj mn n ds)
  have "rule_block (block_sym (n + 1)) t a mj mn (dev_Allow d) = acceptBlock (dev_Allow d)"
    using wildcard.hyps(2) by (simp add: rule_block_def is_wildcard_def)
  then show ?case by (intro exI [of _ n]) (simp add: symbols_def jump_targets_def acceptBlock_def asm_def)
next
  case (rule d t a mj mn n ds code)
  then obtain m where m: "n + 1 \<le> m" "symbols code = map block_sym [n + 1..m]"
    "set (jump_targets code) \<subseteq> block_sym ` {n + 1<..m}" by blast
  have "[n..m] = n # [n + 1..m]" using m(1) by (simp add: upto_rec1)
  then show ?case
    using m rule_block_targets [of "block_sym (n + 1)" t a mj mn "dev_Allow d"]
    by (intro exI [of _ m]) (auto simp: symbols_with_symbol rule_block_no_sym)
qed

lemma show_nat_inj [simp]: "show_nat a = show_nat b \<longleftrightarrow> a = b"
  by (metis dec_value_show_nat)

lemma block_sym_inj: "0 \<le> a \<Longrightarrow> 0 \<le> b \<Longrightarrow> block_sym a = block_sym b \<longleftrightarrow> a = b"
  by (auto simp: block_sym_def show_int_def)

text \<open>C28: The program is well formed for an assembler that resolves symbols: no symbol is defined
  twice, and every jump goes to a symbol that is defined.\<close>

theorem device_filter_symbols:
  assumes "DeviceFilter devices = Ok (insts, lic)"
  shows "distinct (symbols insts) \<and> set (jump_targets insts) \<subseteq> set (symbols insts)"
proof -
  let ?p0 = "prog_init \<lparr>prog_insts = [], prog_hasWildCard = False, prog_blockID = 0\<rparr>"
  obtain p where p: "append_devices ?p0 (rev devices) = Ok p" "insts = prog_insts (finalize p)"
    using assms by (auto simp: DeviceFilter_def bind_out_eq_Ok)
  obtain code where code: "compiled 0 (rev devices) code" "insts = prog_insts ?p0 @ code"
    using append_devices_compiled [OF p(1)] p(2) by (auto simp: prog_init_def)
  obtain m where m: "symbols code = map block_sym [0..m]" "set (jump_targets code) \<subseteq> block_sym ` {0<..m}"
    using compiled_symbols [OF code(1)] by auto
  have init: "symbols (prog_insts ?p0) = []" "jump_targets (prog_insts ?p0) = []"
    by (simp_all add: prog_init_def symbols_def jump_targets_def asm_def)
  have "distinct (map block_sym [0..m])"
    by (auto simp: distinct_map inj_on_def block_sym_inj)
  then show ?thesis using m init by (auto simp: code(2))
qed

theorem device_filter_symbols_witness:
  "distinct (symbols example_insts) \<and> set (jump_targets example_insts) \<subseteq> set (symbols example_insts)"
  by (rule device_filter_symbols [OF example_rules_Ok])

end
