(* ===== verification/Polling.thy ===== *)
theory Polling
  imports GoOS
begin

text \<open>
  The two loops that both packages use on the system: writing a state and polling until it is
  reached (the freezers), and removing a directory with a bounded number of attempts. The first may
  run forever, so it is a partial function whose value is \<open>None\<close> when it does not return; the locale
  \<open>poll\<close> states the progress that makes it return.
\<close>

section \<open>Polling\<close>

partial_function (option) poll_until ::
    "('w, unit) go \<Rightarrow> ('w \<Rightarrow> 'a outcome) \<Rightarrow> ('w \<Rightarrow> 'w) \<Rightarrow> 'a \<Rightarrow> 'w \<Rightarrow> (unit outcome \<times> 'w) option" where
  [code]: "poll_until act probe pause goal w = (case act w of
     (Ok _, w1) \<Rightarrow> (case probe w1 of
         Ok current \<Rightarrow> if current = goal then Some (Ok (), w1) else poll_until act probe pause goal (pause w1)
       | Err e \<Rightarrow> Some (Err e, w1)
       | Panic \<Rightarrow> Some (Panic, w1))
   | (Err e, w1) \<Rightarrow> Some (Err e, w1)
   | (Panic, w1) \<Rightarrow> Some (Panic, w1))"

text \<open>When it returns without an error, the state that was asked for has just been read.\<close>

lemma poll_until_reached:
  assumes "poll_until act probe pause goal w = Some (Ok u, w1)"
  shows "probe w1 = Ok goal"
proof -
  have "fst y = Ok u \<longrightarrow> probe (snd y) = Ok goal" if "poll_until act probe pause goal w = Some y" for y
    by (rule poll_until.raw_induct [OF _ that, where P = "\<lambda>act probe pause goal w y. fst y = Ok u \<longrightarrow> probe (snd y) = Ok goal"])
       (auto split: prod.splits outcome.splits if_splits)
  then show ?thesis using assms by fastforce
qed


text \<open>Progress: from every state of the invariant one round succeeds, and either reaches the goal or
  leaves a state of the invariant that is closer to it.\<close>

locale poll =
  fixes act :: "('w, unit) go" and probe :: "'w \<Rightarrow> 'a outcome" and pause :: "'w \<Rightarrow> 'w" and goal :: 'a
    and inv :: "'w \<Rightarrow> bool" and dist :: "'w \<Rightarrow> nat"
  assumes act_ok: "inv w \<Longrightarrow> fst (act w) = Ok ()"
    and probe_ok: "inv w \<Longrightarrow> \<exists>x. probe (snd (act w)) = Ok x"
    and closer: "inv w \<Longrightarrow> probe (snd (act w)) \<noteq> Ok goal \<Longrightarrow>
      inv (pause (snd (act w))) \<and> dist (pause (snd (act w))) < dist w"
begin

lemma returns:
  "inv w \<Longrightarrow> \<exists>w1. poll_until act probe pause goal w = Some (Ok (), w1) \<and> probe w1 = Ok goal"
proof (induction "dist w" arbitrary: w rule: less_induct)
  case less
  obtain w1 where w1: "act w = (Ok (), w1)" using act_ok [OF less.prems] by (cases "act w") auto
  obtain x where x: "probe w1 = Ok x" using probe_ok [OF less.prems] w1 by auto
  show ?case
  proof (cases "x = goal")
    case True
    then have "poll_until act probe pause goal w = Some (Ok (), w1)"
      by (simp add: poll_until.simps w1 x)
    then show ?thesis using x True by blast
  next
    case False
    then have "inv (pause w1)" "dist (pause w1) < dist w" using closer [OF less.prems] w1 x by auto
    then obtain w2 where "poll_until act probe pause goal (pause w1) = Some (Ok (), w2)" "probe w2 = Ok goal"
      using less.hyps by blast
    moreover have "poll_until act probe pause goal w = poll_until act probe pause goal (pause w1)"
      using False by (subst poll_until.simps) (simp add: w1 x)
    ultimately show ?thesis by simp
  qed
qed

end

text \<open>A loop whose state is never read again does not return.\<close>

lemma poll_until_diverges:
  assumes "S w" and "\<And>w. S w \<Longrightarrow> fst (act w) = Ok ()"
    and "\<And>w. S w \<Longrightarrow> \<exists>x. probe (snd (act w)) = Ok x \<and> x \<noteq> goal"
    and "\<And>w. S w \<Longrightarrow> S (pause (snd (act w)))"
  shows "poll_until act probe pause goal w = None"
proof (rule ccontr)
  assume "poll_until act probe pause goal w \<noteq> None"
  then obtain y where y: "poll_until act probe pause goal w = Some y" by blast
  define P where "P act probe pause goal w (y :: unit outcome \<times> 'a) = (\<not> ((\<forall>w. S w \<longrightarrow> fst (act w) = Ok ()) \<and>
      (\<forall>w. S w \<longrightarrow> (\<exists>x. probe (snd (act w)) = Ok x \<and> x \<noteq> goal)) \<and> (\<forall>w. S w \<longrightarrow> S (pause (snd (act w)))) \<and> S w))"
    for act :: "'a \<Rightarrow> unit outcome \<times> 'a" and probe :: "'a \<Rightarrow> 'b outcome" and pause goal w y
  have "P act probe pause goal w y"
  proof (rule poll_until.raw_induct [OF _ y])
    fix rec :: "('a \<Rightarrow> unit outcome \<times> 'a) \<Rightarrow> ('a \<Rightarrow> 'b outcome) \<Rightarrow> ('a \<Rightarrow> 'a) \<Rightarrow> 'b \<Rightarrow> 'a \<Rightarrow> (unit outcome \<times> 'a) option"
      and act probe pause goal w y
    assume IH: "\<And>act probe pause goal w y. rec act probe pause goal w = Some y \<Longrightarrow> P act probe pause goal w y"
      and eq: "(case act w of
         (Ok _, w1) \<Rightarrow> (case probe w1 of
             Ok current \<Rightarrow> if current = goal then Some (Ok (), w1) else rec act probe pause goal (pause w1)
           | Err e \<Rightarrow> Some (Err e, w1)
           | Panic \<Rightarrow> Some (Panic, w1))
       | (Err e, w1) \<Rightarrow> Some (Err e, w1)
       | (Panic, w1) \<Rightarrow> Some (Panic, w1)) = Some y"
    show "P act probe pause goal w y"
      unfolding P_def
    proof (rule notI, elim conjE)
      assume S: "\<forall>w. S w \<longrightarrow> fst (act w) = Ok ()" "\<forall>w. S w \<longrightarrow> (\<exists>x. probe (snd (act w)) = Ok x \<and> x \<noteq> goal)"
        "\<forall>w. S w \<longrightarrow> S (pause (snd (act w)))" "S w"
      obtain w1 where w1: "act w = (Ok (), w1)" using S(1,4) by (cases "act w") auto
      obtain x where x: "probe w1 = Ok x" "x \<noteq> goal" using S(2,4) w1 by fastforce
      have "rec act probe pause goal (pause w1) = Some y" using eq w1 x by simp
      then have "P act probe pause goal (pause w1) y" by (rule IH)
      moreover have "S (pause w1)" using S(3,4) w1 by fastforce
      ultimately show False using S unfolding P_def by blast
    qed
  qed
  then show False using assms unfolding P_def by blast
qed

section \<open>Removing a directory\<close>

text \<open>The loop of \<open>remove\<close>: at most as many attempts as its first number says, with a sleep before each
  but the first that doubles each time; the last error is kept.\<close>

fun remove_loop :: "'w os \<Rightarrow> string \<Rightarrow> nat \<Rightarrow> nat \<Rightarrow> nat \<Rightarrow> gerror option \<Rightarrow> 'w \<Rightarrow> gerror option \<times> 'w" where
  "remove_loop os path 0 i delay err w = (err, w)"
| "remove_loop os path (Suc k) i delay err w =
     (let w1 = (if i \<noteq> 0 then os_sleep os delay w else w);
          delay1 = (if i \<noteq> 0 then delay * 2 else delay)
      in case os_remove_all os path w1 of
           (None, w2) \<Rightarrow> (None, w2)
         | (Some e, w2) \<Rightarrow> remove_loop os path k (Suc i) delay1 (Some e) w2)"

text \<open>The state before an attempt, if all earlier ones failed.\<close>

fun before_attempt :: "'w os \<Rightarrow> string \<Rightarrow> nat \<Rightarrow> 'w \<Rightarrow> 'w" where
  "before_attempt os path 0 w = w"
| "before_attempt os path (Suc k) w =
     os_sleep os (10 * 2 ^ k) (snd (os_remove_all os path (before_attempt os path k w)))"

definition attempt :: "'w os \<Rightarrow> string \<Rightarrow> 'w \<Rightarrow> nat \<Rightarrow> gerror option \<times> 'w" where
  "attempt os path w k = os_remove_all os path (before_attempt os path k w)"

text \<open>The state the loop is in before attempt \<open>i\<close>.\<close>

definition loop_state :: "'w os \<Rightarrow> string \<Rightarrow> 'w \<Rightarrow> nat \<Rightarrow> 'w" where
  "loop_state os path w i = (case i of 0 \<Rightarrow> w | Suc j \<Rightarrow> snd (attempt os path w j))"

lemma remove_loop_from:
  assumes "i + k = 5"
  shows "remove_loop os path k i (10 * 2 ^ (i - 1)) err (loop_state os path w i) =
    (case find (\<lambda>j. fst (attempt os path w j) = None) [i..<5] of
       Some j \<Rightarrow> attempt os path w j
     | None \<Rightarrow> (if k = 0 then err else fst (attempt os path w 4), loop_state os path w 5))"
  using assms
proof (induction k arbitrary: i err)
  case 0
  then show ?case by simp
next
  case (Suc k)
  have st: "(if i \<noteq> 0 then os_sleep os (10 * 2 ^ (i - 1)) (loop_state os path w i) else loop_state os path w i) =
      before_attempt os path i w"
    by (cases i) (simp_all add: loop_state_def attempt_def)
  have dl: "(if i \<noteq> 0 then 10 * 2 ^ (i - 1) * 2 else 10 * 2 ^ (i - 1)) = (10 * 2 ^ (Suc i - 1) :: nat)"
    by (cases i) simp_all
  have i: "[i..<5] = i # [Suc i..<5]" using Suc.prems by (simp add: upt_conv_Cons)
  obtain r w2 where r: "attempt os path w i = (r, w2)" by fastforce
  have next_st: "loop_state os path w (Suc i) = w2" using r by (simp add: loop_state_def)
  show ?case
  proof (cases r)
    case None
    then show ?thesis using r i by (simp only: remove_loop.simps Let_def st dl attempt_def [symmetric]) simp
  next
    case (Some e)
    have IH: "remove_loop os path k (Suc i) (10 * 2 ^ (Suc i - 1)) (Some e) w2 =
      (case find (\<lambda>j. fst (attempt os path w j) = None) [Suc i..<5] of
         Some j \<Rightarrow> attempt os path w j
       | None \<Rightarrow> (if k = 0 then Some e else fst (attempt os path w 4), loop_state os path w 5))"
      using Suc.IH [of "Suc i" "Some e"] Suc.prems next_st by simp
    have last: "k = 0 \<Longrightarrow> fst (attempt os path w 4) = Some e" using Suc.prems r Some by (simp add: eval_nat_numeral)
    show ?thesis
      using r Some i IH last by (simp only: remove_loop.simps Let_def st dl attempt_def [symmetric]) (simp split: option.splits)
  qed
qed

text \<open>So the whole loop is the first attempt of five that succeeds, or the failure of the fifth.\<close>

lemma remove_loop_eq:
  "remove_loop os path 5 0 10 None w =
    (case find (\<lambda>j. fst (attempt os path w j) = None) [0..<5] of
       Some j \<Rightarrow> attempt os path w j
     | None \<Rightarrow> attempt os path w 4)"
proof -
  have "loop_state os path w 0 = w" "snd (attempt os path w 4) = loop_state os path w 5"
    by (simp_all add: loop_state_def eval_nat_numeral)
  then show ?thesis
    using remove_loop_from [of 0 5 os path None w] by (simp split: option.splits) (metis prod.collapse)
qed

end
