(* ===== verification/V2Manager.thy ===== *)
theory V2Manager
  imports V2Stats V2Device Polling
begin

text \<open>
  The manager of \<open>cgroup2/manager.go\<close>: creating, loading, updating, populating, freezing, killing and
  deleting a group of the unified hierarchy, with \<open>remove\<close> and \<open>parseCgroupTasksFile\<close> of \<open>utils.go\<close>.
  A method of \<open>Manager\<close> takes the record of the manager after the parameters it calls.
\<close>

section \<open>The manager and what it calls\<close>

record Manager =
  unifiedMountpoint :: string
  mgr_path :: string

text \<open>Opening a directory by descriptor, and the calls of the eBPF library: loading a program, attaching it
  to the directory and detaching it again.\<close>

record 'w bpf =
  bpf_open_dir :: "string \<Rightarrow> 'w \<Rightarrow> gerror option"
  bpf_new_program :: "insn list \<Rightarrow> string \<Rightarrow> 'w \<Rightarrow> gerror option \<times> 'w"
  bpf_attach :: "insn list \<Rightarrow> string \<Rightarrow> 'w \<Rightarrow> gerror option \<times> 'w"
  bpf_detach :: "insn list \<Rightarrow> string \<Rightarrow> 'w \<Rightarrow> gerror option \<times> 'w"

text \<open>The process calls of the slow kill: finding a process, sending it SIGKILL, the subreaper flag, and
  waiting for it.\<close>

record 'w procs =
  pr_find :: "u64 \<Rightarrow> 'w \<Rightarrow> gerror option"
  pr_kill :: "u64 \<Rightarrow> 'w \<Rightarrow> gerror option \<times> 'w"
  pr_prctl :: "'w \<Rightarrow> gerror + u64"
    \<comment> \<open>\<open>unix.Prctl(PR_GET_CHILD_SUBREAPER, ...)\<close>: what it stores at the address it is given\<close>
  pr_wait :: "u64 \<Rightarrow> 'w \<Rightarrow> gerror option \<times> 'w"

section \<open>Resources\<close>

text \<open>The result is the function that detaches the program again; with an error comes one that does nothing,
  which the error value of \<open>Err\<close> leaves out.\<close>

definition LoadAttachCgroupDeviceFilter :: "'w bpf \<Rightarrow> insn list \<Rightarrow> string \<Rightarrow> string \<Rightarrow> ('w, ('w, unit) go) go" where
  "LoadAttachCgroupDeviceFilter bpf insts lic dir =
     seqn (sys (bpf_new_program bpf insts lic))
       (handle (sys (bpf_attach bpf insts dir))
          (\<lambda>e. fail (Wrap ''failed to call BPF_PROG_ATTACH (BPF_CGROUP_DEVICE, BPF_F_ALLOW_MULTI)'' e))
          (\<lambda>_. ret (handle (sys (bpf_detach bpf insts dir))
             (\<lambda>e. fail (Wrap ''failed to call BPF_PROG_DETACH (BPF_CGROUP_DEVICE)'' e)) ret)))"

definition setDevices :: "'w bpf \<Rightarrow> string \<Rightarrow> LinuxDeviceCgroup list \<Rightarrow> ('w, unit) go" where
  "setDevices bpf path devices w =
     (if length devices = 0 then (Ok (), w)
      else (case DeviceFilter devices of
          Err e \<Rightarrow> (Err e, w)
        | Panic \<Rightarrow> (Panic, w)
        | Ok (insts, lic) \<Rightarrow> (case bpf_open_dir bpf path w of
            Some e \<Rightarrow> (Err (ErrMsg (''cannot get dir FD for '' @ path)), w)
          | None \<Rightarrow> handle (LoadAttachCgroupDeviceFilter bpf insts lic path)
              (\<lambda>e. if \<not> canSkipEBPFError devices then fail e else ret ()) (\<lambda>_. ret ()) w)))"

definition setResources :: "'w os \<Rightarrow> 'w bpf \<Rightarrow> string \<Rightarrow> Resources option \<Rightarrow> ('w, unit) go" where
  "setResources os bpf path resources = (case resources of
     Some r \<Rightarrow> seqn (writeValues os path (Resources_Values r)) (setDevices bpf path (res_Devices r))
   | None \<Rightarrow> ret ())"

definition Update :: "'w os \<Rightarrow> 'w bpf \<Rightarrow> Manager \<Rightarrow> Resources option \<Rightarrow> ('w, unit) go" where
  "Update os bpf c resources = setResources os bpf (mgr_path c) resources"

section \<open>Enabling controllers\<close>

type_synonym ControllerToggle = int

definition Enable :: ControllerToggle where "Enable = 1"
definition Disable :: ControllerToggle where "Disable = 2"

definition subtreeControl :: string where "subtreeControl = ''cgroup.subtree_control''"

definition toggleFunc :: "string list \<Rightarrow> string \<Rightarrow> string list" where
  "toggleFunc controllers pre = map (\<lambda>c. pre @ c) controllers"

definition toggled :: "string list \<Rightarrow> ControllerToggle \<Rightarrow> string" where
  "toggled controllers t =
     join (if t = Enable then toggleFunc controllers ''+''
           else if t = Disable then toggleFunc controllers ''-''
           else controllers) '' ''"

definition writeSubtreeControl :: "'w os \<Rightarrow> string \<Rightarrow> string list \<Rightarrow> ControllerToggle \<Rightarrow> ('w, unit) go" where
  "writeSubtreeControl os filePath controllers t =
     seqn (sys (os_open_file os False filePath)) (sys (os_fd_write os filePath (toggled controllers t)))"

definition toggle_error :: "string list \<Rightarrow> string \<Rightarrow> gerror \<Rightarrow> gerror" where
  "toggle_error controllers filePath =
     Wrap (''failed to write subtree controllers ['' @ join controllers '' '' @ ''] to '' @ quoted filePath)"

text \<open>The loop over the prefixes of the path: only the result of the last write is kept.\<close>

fun toggle_loop :: "'w os \<Rightarrow> Manager \<Rightarrow> string list \<Rightarrow> ControllerToggle \<Rightarrow> string list \<Rightarrow> gerror option \<Rightarrow> ('w, unit) go" where
  "toggle_loop os c controllers t [] lastErr w = (case lastErr of None \<Rightarrow> (Ok (), w) | Some e \<Rightarrow> (Err e, w))"
| "toggle_loop os c controllers t (f # fs) lastErr w =
     (if \<not> has_prefix f (unifiedMountpoint c) \<or> f = mgr_path c
      then toggle_loop os c controllers t fs lastErr w
      else let filePath = path_join [f, subtreeControl]
      in case writeSubtreeControl os filePath controllers t w of
           (Ok _, w1) \<Rightarrow> toggle_loop os c controllers t fs None w1
         | (Err e, w1) \<Rightarrow> toggle_loop os c controllers t fs (Some (toggle_error controllers filePath e)) w1
         | (Panic, w1) \<Rightarrow> (Panic, w1))"

definition ToggleControllers :: "'w os \<Rightarrow> Manager \<Rightarrow> string list \<Rightarrow> ControllerToggle \<Rightarrow> ('w, unit) go" where
  "ToggleControllers os c controllers t =
     (let parts = split CHR ''/'' (mgr_path c)
      in toggle_loop os c controllers t (map (\<lambda>i. join (take i parts) ''/'') [0..<length parts]) None)"

section \<open>Creating and loading\<close>

text \<open>Run \<open>m\<close>; if it fails, remove the directory and return its error.\<close>

definition or_remove :: "'w os \<Rightarrow> string \<Rightarrow> ('w, unit) go \<Rightarrow> ('w, unit) go" where
  "or_remove os path m w = (case m w of
     (Err e, w1) \<Rightarrow> (Err e, ignoring (os_remove os path) w1)
   | r \<Rightarrow> r)"

definition NewManager :: "'w os \<Rightarrow> 'w bpf \<Rightarrow> string \<Rightarrow> string \<Rightarrow> Resources option \<Rightarrow> ('w, Manager) go" where
  "NewManager os bpf mountpoint grp resources = (case resources of
     None \<Rightarrow> fail (ErrMsg ''resources reference is nil'')
   | Some r \<Rightarrow> (case VerifyGroupPath grp of
       Some e \<Rightarrow> fail e
     | None \<Rightarrow>
         (let path = path_join [mountpoint, grp]; m = \<lparr>unifiedMountpoint = mountpoint, mgr_path = path\<rparr>
          in seqn (sys (os_mkdir_all os path))
             (seqn (or_remove os path (ToggleControllers os m (EnabledControllers r) Enable))
             (seqn (or_remove os path (setResources os bpf path (Some r)))
             (ret m))))))"

definition NewChild :: "'w os \<Rightarrow> 'w bpf \<Rightarrow> Manager \<Rightarrow> string \<Rightarrow> Resources option \<Rightarrow> ('w, Manager) go" where
  "NewChild os bpf c name resources =
     (if has_prefix name ''/'' then fail (ErrMsg ''name must be relative'')
      else let path = path_join [mgr_path c, name];
               m = \<lparr>unifiedMountpoint = unifiedMountpoint c, mgr_path = path\<rparr>
           in seqn (sys (os_mkdir_all os path))
              (seqn (case resources of
                       Some r \<Rightarrow> or_remove os path (ToggleControllers os m (EnabledControllers r) Enable)
                     | None \<Rightarrow> ret ())
              (seqn (or_remove os path (setResources os bpf path resources))
              (ret m))))"

record InitConfig =
  ic_mountpoint :: string

type_synonym InitOpts = "InitConfig \<Rightarrow> gerror option \<times> InitConfig"

definition WithMountpoint :: "string \<Rightarrow> InitOpts" where
  "WithMountpoint path c = (None, c\<lparr>ic_mountpoint := path\<rparr>)"

fun apply_opts :: "InitOpts list \<Rightarrow> InitConfig \<Rightarrow> InitConfig outcome" where
  "apply_opts [] c = Ok c"
| "apply_opts (opt # opts) c = (case opt c of (Some e, _) \<Rightarrow> Err e | (None, c1) \<Rightarrow> apply_opts opts c1)"

definition Load :: "string \<Rightarrow> InitOpts list \<Rightarrow> Manager outcome" where
  "Load grp opts =
     bind_out (apply_opts opts \<lparr>ic_mountpoint = defaultCgroup2Path\<rparr>) (\<lambda>c.
       (case VerifyGroupPath grp of
          Some e \<Rightarrow> Err e
        | None \<Rightarrow> Ok \<lparr>unifiedMountpoint = ic_mountpoint c, mgr_path = path_join [ic_mountpoint c, grp]\<rparr>))"

section \<open>Types, controllers and processes\<close>

type_synonym CgroupType = string

definition Domain :: CgroupType where "Domain = ''domain''"
definition DomainThreaded :: CgroupType where "DomainThreaded = ''domain threaded''"
definition DomainInvalid :: CgroupType where "DomainInvalid = ''domain invalid''"
definition Threaded :: CgroupType where "Threaded = ''threaded''"

definition GetType :: "'w os \<Rightarrow> Manager \<Rightarrow> 'w \<Rightarrow> CgroupType outcome" where
  "GetType os c w =
     bind_out (ReadFile os (path_join [mgr_path c, ''cgroup.type'']) w) (\<lambda>val. Ok (trim_space val))"

definition SetType :: "'w os \<Rightarrow> Manager \<Rightarrow> CgroupType \<Rightarrow> ('w, unit) go" where
  "SetType os c cgType = writeValues os (mgr_path c) [\<lparr>filename = ''cgroup.type'', contents = VString cgType\<rparr>]"

definition RootControllers :: "'w os \<Rightarrow> Manager \<Rightarrow> 'w \<Rightarrow> string list outcome" where
  "RootControllers os c w =
     bind_out (ReadFile os (path_join [unifiedMountpoint c, ''cgroup.controllers'']) w) (\<lambda>b. Ok (Fields b))"

definition Controllers :: "'w os \<Rightarrow> Manager \<Rightarrow> 'w \<Rightarrow> string list outcome" where
  "Controllers os c w =
     bind_out (ReadFile os (path_join [mgr_path c, ''cgroup.controllers'']) w) (\<lambda>b. Ok (Fields b))"

definition cgroupProcs :: string where "cgroupProcs = ''cgroup.procs''"
definition cgroupThreads :: string where "cgroupThreads = ''cgroup.threads''"

definition AddProc :: "'w os \<Rightarrow> Manager \<Rightarrow> u64 \<Rightarrow> ('w, unit) go" where
  "AddProc os c pid = writeValues os (mgr_path c) [\<lparr>filename = cgroupProcs, contents = VUint64 pid\<rparr>]"

definition AddThread :: "'w os \<Rightarrow> Manager \<Rightarrow> u64 \<Rightarrow> ('w, unit) go" where
  "AddThread os c tid = writeValues os (mgr_path c) [\<lparr>filename = cgroupThreads, contents = VUint64 tid\<rparr>]"


fun parse_pids :: "string list \<Rightarrow> u64 list outcome" where
  "parse_pids [] = Ok []"
| "parse_pids (t # ts) =
     (if t = [] then parse_pids ts
      else (case ParseUint t 0 of
          (pid, Some e) \<Rightarrow> Err (NumError ''ParseUint'' t e)
        | (pid, None) \<Rightarrow> bind_out (parse_pids ts) (\<lambda>out. Ok (pid # out))))"

definition parseCgroupTasksFile :: "'w os \<Rightarrow> string \<Rightarrow> 'w \<Rightarrow> u64 list outcome" where
  "parseCgroupTasksFile os path w = (case os_open os path w of
     Inl e \<Rightarrow> Err e
   | Inr (d, rd) \<Rightarrow> (case scan_lines d rd of (ls, serr) \<Rightarrow>
       bind_out (parse_pids ls) (\<lambda>out. case serr of Some e \<Rightarrow> Err e | None \<Rightarrow> Ok out)))"

text \<open>The callback of \<open>getTasks\<close>; its state is the list of tasks found so far.\<close>

definition tasks_visit :: "'w os \<Rightarrow> string \<Rightarrow> bool \<Rightarrow> string \<Rightarrow> 'w \<Rightarrow> u64 list walk_fn" where
  "tasks_visit os root recursive tType w p isdir err tasks = (case err of
     Some e \<Rightarrow> (WErr e, tasks)
   | None \<Rightarrow>
       if \<not> recursive \<and> isdir = Some True
       then (if p = root then (WOk, tasks) else (WSkipDir, tasks))
       else if snd (path_split p) \<noteq> tType then (WOk, tasks)
       else (case parseCgroupTasksFile os p w of
           Ok curTasks \<Rightarrow> (WOk, tasks @ curTasks)
         | Err e \<Rightarrow> (WErr e, tasks)
         | Panic \<Rightarrow> (WOk, tasks)))"

definition getTasks :: "'w os \<Rightarrow> Manager \<Rightarrow> bool \<Rightarrow> string \<Rightarrow> 'w \<Rightarrow> gerror option \<times> u64 list" where
  "getTasks os c recursive tType w = Walk os (mgr_path c) (tasks_visit os (mgr_path c) recursive tType w) w []"

definition Procs :: "'w os \<Rightarrow> Manager \<Rightarrow> bool \<Rightarrow> 'w \<Rightarrow> gerror option \<times> u64 list" where
  "Procs os c recursive w = getTasks os c recursive cgroupProcs w"

definition Threads :: "'w os \<Rightarrow> Manager \<Rightarrow> bool \<Rightarrow> 'w \<Rightarrow> gerror option \<times> u64 list" where
  "Threads os c recursive w = getTasks os c recursive cgroupThreads w"

text \<open>Moving: a process that is gone is skipped.\<close>

fun move_procs :: "'w os \<Rightarrow> Manager \<Rightarrow> u64 list \<Rightarrow> ('w, unit) go" where
  "move_procs os destination [] w = (Ok (), w)"
| "move_procs os destination (p # ps) w = (case AddProc os destination p w of
     (Ok _, w1) \<Rightarrow> move_procs os destination ps w1
   | (Err e, w1) \<Rightarrow>
       if contains (error_text e) ''no such process'' then move_procs os destination ps w1 else (Err e, w1)
   | (Panic, w1) \<Rightarrow> (Panic, w1))"

definition MoveTo :: "'w os \<Rightarrow> Manager \<Rightarrow> Manager \<Rightarrow> ('w, unit) go" where
  "MoveTo os c destination w = (case Procs os c True w of
     (Some e, _) \<Rightarrow> (Err e, w)
   | (None, processes) \<Rightarrow> move_procs os destination processes w)"

section \<open>Deleting\<close>

definition remove :: "'w os \<Rightarrow> string \<Rightarrow> ('w, unit) go" where
  "remove os path w = (case remove_loop os path 5 0 10 None w of
     (None, w1) \<Rightarrow> (Ok (), w1)
   | (Some e, w1) \<Rightarrow> (Err (Wrap (''cgroups: unable to remove path '' @ quoted path) e), w1))"

definition delete_of_type :: "'w os \<Rightarrow> Manager \<Rightarrow> CgroupType \<Rightarrow> ('w, unit) go" where
  "delete_of_type os c cgType w =
     (case (if cgType = Threaded \<or> cgType = DomainThreaded then Threads os c True w else Procs os c True w) of
        (Some e, _) \<Rightarrow> (Err e, w)
      | (None, tasks) \<Rightarrow>
          if 0 < length tasks
          then (Err (ErrMsg (''cgroups: unable to remove path '' @ quoted (mgr_path c) @ '': still contains running tasks'')), w)
          else remove os (mgr_path c) w)"

definition Delete :: "'w os \<Rightarrow> Manager \<Rightarrow> ('w, unit) go" where
  "Delete os c w = (case GetType os c w of
     Ok cgType \<Rightarrow> delete_of_type os c cgType w
   | Err e \<Rightarrow> if \<not> is_not_exist e then (Err e, w) else delete_of_type os c [] w
   | Panic \<Rightarrow> (Panic, w))"

section \<open>Freezing and killing\<close>

definition freeze :: "'w os \<Rightarrow> string \<Rightarrow> State \<Rightarrow> 'w \<Rightarrow> (unit outcome \<times> 'w) option" where
  "freeze os path state w =
     poll_until (writeValues os path (State_Values state)) (fetchState os path) (os_sleep os 1) state w"

definition Freeze :: "'w os \<Rightarrow> Manager \<Rightarrow> 'w \<Rightarrow> (unit outcome \<times> 'w) option" where
  "Freeze os c w = freeze os (mgr_path c) Frozen w"

definition Thaw :: "'w os \<Rightarrow> Manager \<Rightarrow> 'w \<Rightarrow> (unit outcome \<times> 'w) option" where
  "Thaw os c w = freeze os (mgr_path c) Thawed w"

text \<open>Go on after a loop that may not return and whose error is only logged.\<close>

definition logging :: "(unit outcome \<times> 'w) option \<Rightarrow> ('w \<Rightarrow> (unit outcome \<times> 'w) option) \<Rightarrow> (unit outcome \<times> 'w) option" where
  "logging m k = (case m of
     None \<Rightarrow> None
   | Some (Panic, w1) \<Rightarrow> Some (Panic, w1)
   | Some (_, w1) \<Rightarrow> k w1)"

text \<open>The loop that signals: the processes that were found, in order.\<close>

fun kill_loop :: "'w procs \<Rightarrow> u64 list \<Rightarrow> 'w \<Rightarrow> u64 list \<times> 'w" where
  "kill_loop pr [] w = ([], w)"
| "kill_loop pr (pid # pids) w = (case pr_find pr pid w of
     Some e \<Rightarrow> kill_loop pr pids w
   | None \<Rightarrow> (case kill_loop pr pids (ignoring (pr_kill pr pid) w) of (found, w1) \<Rightarrow> (pid # found, w1)))"

definition getSubreaper :: "'w procs \<Rightarrow> 'w \<Rightarrow> gerror + i64" where
  "getSubreaper pr w = (case pr_prctl pr w of Inl e \<Rightarrow> Inl e | Inr i \<Rightarrow> Inr i)"

definition fallbackKill :: "'w os \<Rightarrow> 'w procs \<Rightarrow> Manager \<Rightarrow> 'w \<Rightarrow> (unit outcome \<times> 'w) option" where
  "fallbackKill os pr c w =
     logging (Freeze os c w) (\<lambda>w1.
       (case Procs os c True w1 of
          (Some e, _) \<Rightarrow> logging (Thaw os c w1) (\<lambda>w2. Some (Err e, w2))
        | (None, pids) \<Rightarrow> (case kill_loop pr pids w1 of (found, w2) \<Rightarrow>
            logging (Thaw os c w2) (\<lambda>w3.
              (let subreaper = (case getSubreaper pr w3 of Inl e \<Rightarrow> 0 | Inr i \<Rightarrow> i)
               in Some (Ok (), if subreaper = 0 then fold (\<lambda>pid. ignoring (pr_wait pr pid)) found w3 else w3))))))"

definition Kill :: "'w os \<Rightarrow> 'w procs \<Rightarrow> Manager \<Rightarrow> 'w \<Rightarrow> (unit outcome \<times> 'w) option" where
  "Kill os pr c w = (case writeValues os (mgr_path c) [\<lparr>filename = ''cgroup.kill'', contents = VString ''1''\<rparr>] w of
     (Ok _, w1) \<Rightarrow> Some (Ok (), w1)
   | (Err e, w1) \<Rightarrow> fallbackKill os pr c w1
   | (Panic, w1) \<Rightarrow> Some (Panic, w1))"

section \<open>Memory events\<close>

record Event =
  ev_Low :: u64
  ev_High :: u64
  ev_Max :: u64
  ev_OOM :: u64
  ev_OOMKill :: u64
  ev_OOMGroupKill :: u64

definition isCgroupEmpty :: "'w os \<Rightarrow> Manager \<Rightarrow> 'w \<Rightarrow> bool" where
  "isCgroupEmpty os c w = (case readKVStatsFile os (mgr_path c) ''cgroup.events'' w of
     (Some e, _) \<Rightarrow> True
   | (None, out) \<Rightarrow> (case map_of out ''populated'' of Some v \<Rightarrow> v = 0 | None \<Rightarrow> True))"

text \<open>One round of the goroutine of \<open>EventChan\<close>, for what reading the inotify descriptor returned (an
  error or a number of bytes): the event it sends, the error it sends, and whether it ends.\<close>

definition event_round :: "'w os \<Rightarrow> Manager \<Rightarrow> gerror + nat \<Rightarrow> 'w \<Rightarrow> Event option \<times> gerror option \<times> bool" where
  "event_round os c rd w = (case rd of
     Inl e \<Rightarrow> (None, Some e, True)
   | Inr bytesRead \<Rightarrow>
       if bytesRead < 16 then (None, None, False)
       else let shouldExit = isCgroupEmpty os c w
       in (case readKVStatsFile os (mgr_path c) ''memory.events'' w of
             (Some e, _) \<Rightarrow>
               (None,
                case Lstat os (path_join [mgr_path c, ''memory.events'']) w of
                  Some e1 \<Rightarrow> if is_not_exist e1 then None else Some e
                | None \<Rightarrow> Some e,
                True)
           | (None, out) \<Rightarrow>
               (Some \<lparr>ev_Low = mget out ''low'', ev_High = mget out ''high'', ev_Max = mget out ''max'',
                  ev_OOM = mget out ''oom'', ev_OOMKill = mget out ''oom_kill'',
                  ev_OOMGroupKill = mget out ''oom_group_kill''\<rparr>, None, shouldExit)))"

text \<open>What the two channels have carried, and whether the goroutine still runs. The system may be in any
  state at a round.\<close>

record channels =
  ch_events :: "Event list"
  ch_errors :: "gerror list"
  ch_running :: bool

definition EventChan :: "gerror option \<Rightarrow> channels" where
  "EventChan inotify = (case inotify of
     Some e \<Rightarrow> \<lparr>ch_events = [], ch_errors = [e], ch_running = False\<rparr>
   | None \<Rightarrow> \<lparr>ch_events = [], ch_errors = [], ch_running = True\<rparr>)"

inductive event_step :: "'w os \<Rightarrow> Manager \<Rightarrow> channels \<Rightarrow> channels \<Rightarrow> bool" for os c where
  "ch_running s \<Longrightarrow> event_round os c rd w = (ev, er, stop) \<Longrightarrow>
     event_step os c s \<lparr>ch_events = ch_events s @ somes [ev], ch_errors = ch_errors s @ somes [er], ch_running = \<not> stop\<rparr>"

inductive_cases event_stepE: "event_step os c s t"

end
