(* ===== verification/V2ManagerFacts.thy ===== *)
theory V2ManagerFacts
  imports V2Manager
begin

text \<open>
  What the operations of the manager do: which files enabling controllers writes, what a failed creation
  leaves behind, what an update leaves in the files, when a group is deleted, which processes are listed,
  moved and killed, when freezing returns, and how the goroutine of \<open>EventChan\<close> ends.
\<close>

section \<open>Enabling controllers along the path\<close>

lemma writeSubtreeControl_cases:
  "\<exists>w1. writeSubtreeControl os f cs t w = (Ok (), w1) \<or> (\<exists>e. writeSubtreeControl os f cs t w = (Err e, w1))"
  by (simp add: writeSubtreeControl_def seqn_def bnd_def sys_def split: prod.splits option.splits)

text \<open>All files are written, in order; the result is that of the last one.\<close>

definition toggle_all :: "'w os \<Rightarrow> string list \<Rightarrow> ControllerToggle \<Rightarrow> string list \<Rightarrow> 'w \<Rightarrow> 'w" where
  "toggle_all os cs t files w = fold (\<lambda>f w. snd (writeSubtreeControl os f cs t w)) files w"

definition toggle_result :: "'w os \<Rightarrow> string list \<Rightarrow> ControllerToggle \<Rightarrow> string list \<Rightarrow> gerror option \<Rightarrow> 'w \<Rightarrow> unit outcome" where
  "toggle_result os cs t files lastErr w =
     (if files = [] then (case lastErr of None \<Rightarrow> Ok () | Some e \<Rightarrow> Err e)
      else (case fst (writeSubtreeControl os (last files) cs t (toggle_all os cs t (butlast files) w)) of
          Ok u \<Rightarrow> Ok () | Err e \<Rightarrow> Err (toggle_error cs (last files) e) | Panic \<Rightarrow> Panic))"

lemma toggle_result_Cons:
  "toggle_result os cs t (f # files) lastErr w =
    (case writeSubtreeControl os f cs t w of
       (Ok _, w1) \<Rightarrow> toggle_result os cs t files None w1
     | (Err e, w1) \<Rightarrow> toggle_result os cs t files (Some (toggle_error cs f e)) w1
     | (Panic, w1) \<Rightarrow> Panic)"
proof (cases "files = []")
  case False
  show ?thesis
    using writeSubtreeControl_cases [of os f cs t w] False
    unfolding toggle_result_def toggle_all_def last_ConsR [OF False] by auto
qed (use writeSubtreeControl_cases [of os f cs t w] in \<open>auto simp: toggle_result_def toggle_all_def\<close>)

definition touched :: "Manager \<Rightarrow> string \<Rightarrow> bool" where
  "touched c f = (has_prefix f (unifiedMountpoint c) \<and> f \<noteq> mgr_path c)"

lemma toggle_loop_eq:
  "toggle_loop os c cs t fs lastErr w =
    (let files = map (\<lambda>f. path_join [f, subtreeControl]) (filter (touched c) fs)
     in (toggle_result os cs t files lastErr w, toggle_all os cs t files w))"
proof (induction os c cs t fs lastErr w rule: toggle_loop.induct)
  case (1 os c cs t lastErr w)
  then show ?case by (simp add: toggle_result_def toggle_all_def split: option.splits)
next
  case (2 os c cs t f fs lastErr w)
  show ?case
  proof (cases "touched c f")
    case False
    then have "\<not> has_prefix f (unifiedMountpoint c) \<or> f = mgr_path c" by (simp add: touched_def)
    then show ?thesis using 2(1) False by (simp only: toggle_loop.simps filter.simps if_True if_False)
  next
    case True
    let ?p = "path_join [f, subtreeControl]"
    have step: "toggle_loop os c cs t (f # fs) lastErr w = (case writeSubtreeControl os ?p cs t w of
           (Ok _, w1) \<Rightarrow> toggle_loop os c cs t fs None w1
         | (Err e, w1) \<Rightarrow> toggle_loop os c cs t fs (Some (toggle_error cs ?p e)) w1
         | (Panic, w1) \<Rightarrow> (Panic, w1))"
      using True by (simp add: touched_def Let_def)
    obtain w1 where "writeSubtreeControl os ?p cs t w = (Ok (), w1) \<or> (\<exists>e. writeSubtreeControl os ?p cs t w = (Err e, w1))"
      using writeSubtreeControl_cases [of os ?p cs t w] by blast
    then show ?thesis
      using 2 True unfolding step by (auto simp: touched_def toggle_result_Cons toggle_all_def Let_def)
  qed
qed

text \<open>The prefixes of a clean path that pass the test are the proper ones from the mount point on.\<close>

lemma take_split_abs: "proper_path cs \<Longrightarrow> cs \<noteq> [] \<Longrightarrow> 0 < j \<Longrightarrow> join (take (Suc j) (split CHR ''/'' (abs_path cs))) ''/'' = abs_path (take j cs)"
proof -
  assume a: "proper_path cs" "cs \<noteq> []" "0 < j"
  have "take (Suc j) (split CHR ''/'' (abs_path cs)) = [] # take j cs" using a by (simp add: split_abs_path)
  moreover have "join ([] # ds) ''/'' = abs_path ds" if "ds \<noteq> []" for ds
    using that by (cases ds) (simp_all add: render_path_def)
  moreover have "take j cs \<noteq> []" using a by simp
  ultimately show ?thesis by simp
qed

lemma length_abs_path_less:
  assumes "cs \<noteq> []" "proper_path ds" "ds \<noteq> []" shows "length (abs_path cs) < length (abs_path (cs @ ds))"
  using assms by (cases ds) (simp_all add: render_append)

lemma prefix_abs_take:
  assumes "proper_path (ms @ gs)" "ms \<noteq> []" "0 < j" "j < length (ms @ gs)"
  shows "has_prefix (abs_path (take j (ms @ gs))) (abs_path ms) \<longleftrightarrow> length ms \<le> j"
proof
  assume "length ms \<le> j"
  then have "take j (ms @ gs) = ms @ take (j - length ms) gs" by simp
  then show "has_prefix (abs_path (take j (ms @ gs))) (abs_path ms)"
    using assms(2) by (simp add: render_append)
next
  assume h: "has_prefix (abs_path (take j (ms @ gs))) (abs_path ms)"
  show "length ms \<le> j"
  proof (rule ccontr)
    assume "\<not> length ms \<le> j"
    then have t: "take j (ms @ gs) = take j ms" "drop j ms \<noteq> []" by simp_all
    have "take j ms \<noteq> []" using assms by simp
    moreover have "proper_path (drop j ms)" using assms(1) by (auto simp: list_all_iff dest: in_set_dropD)
    ultimately have "length (abs_path (take j ms)) < length (abs_path (take j ms @ drop j ms))"
      using t(2) by (rule length_abs_path_less)
    then show False using h t(1) by (auto simp: has_prefix_iff)
  qed
qed

definition subtree_files :: "string list \<Rightarrow> string list \<Rightarrow> string list" where
  "subtree_files ms gs = map (\<lambda>k. abs_path (ms @ take k gs @ [subtreeControl])) [0..<length gs]"

lemma touched_prefix:
  assumes "proper_path (ms @ gs)" "ms \<noteq> []" "unifiedMountpoint c = abs_path ms" "mgr_path c = abs_path (ms @ gs)"
    and j: "0 < j" "j < length (ms @ gs)"
  shows "touched c (join (take (Suc j) (split CHR ''/'' (mgr_path c))) ''/'') \<longleftrightarrow> length ms \<le> j"
    and "join (take (Suc j) (split CHR ''/'' (mgr_path c))) ''/'' = abs_path (take j (ms @ gs))"
proof -
  show eq: "join (take (Suc j) (split CHR ''/'' (mgr_path c))) ''/'' = abs_path (take j (ms @ gs))"
    unfolding assms(4) using assms(1,2) j by (intro take_split_abs) auto
  have "length (abs_path (take j (ms @ gs))) < length (abs_path (take j (ms @ gs) @ drop j (ms @ gs)))"
    using assms(1,2) j by (intro length_abs_path_less) (auto simp: list_all_iff dest: in_set_dropD)
  then have "abs_path (take j (ms @ gs)) \<noteq> mgr_path c" unfolding assms(4) append_take_drop_id by auto
  then show "touched c (join (take (Suc j) (split CHR ''/'' (mgr_path c))) ''/'') \<longleftrightarrow> length ms \<le> j"
    unfolding touched_def eq assms(3) using prefix_abs_take [OF assms(1,2) j] by simp
qed

lemma upt_Suc_split: "0 < n \<Longrightarrow> [0..<Suc n] = 0 # 1 # map Suc [1..<n]"
proof -
  assume "0 < n"
  then have "[0..<n] = 0 # [1..<n]" by (simp add: upt_conv_Cons)
  moreover have "[0..<Suc n] = 0 # map Suc [0..<n]" by (simp add: map_Suc_upt upt_conv_Cons del: upt_Suc)
  ultimately show ?thesis by simp
qed

lemma filter_le_upt:
  assumes "0 < m" shows "filter (\<lambda>j. m \<le> j) [1..<m + n] = map (\<lambda>k. m + k) [0..<n]"
proof -
  have "1 \<le> m" using assms by simp
  from upt_add_eq_append [OF this] have "[1..<m + n] = [1..<m] @ [m..<m + n]" .
  moreover have "filter (\<lambda>j. m \<le> j) [1..<m] = []" by (auto simp: filter_empty_conv)
  moreover have "filter (\<lambda>j. m \<le> j) [m..<m + n] = [m..<m + n]" by (auto simp: filter_id_conv)
  moreover have "map (\<lambda>k. m + k) [0..<n] = [m..<m + n]" using map_add_upt [of m n] by (simp add: add.commute)
  ultimately show ?thesis by simp
qed

lemma touched_levels:
  assumes "proper_path (ms @ gs)" "ms \<noteq> []" "unifiedMountpoint c = abs_path ms" "mgr_path c = abs_path (ms @ gs)"
  shows "filter (touched c) (map (\<lambda>i. join (take i (split CHR ''/'' (mgr_path c))) ''/'') [0..<Suc (length (ms @ gs))]) =
    map (\<lambda>k. abs_path (ms @ take k gs)) [0..<length gs]"
proof -
  let ?cs = "ms @ gs" and ?p = "\<lambda>i. join (take i (split CHR ''/'' (mgr_path c))) ''/''"
  have f0: "\<not> touched c (?p 0)" "\<not> touched c (?p 1)"
    using assms by (simp_all add: touched_def split_abs_path) (simp_all add: render_path_def)
  have cs: "0 < length ?cs" using assms(2) by simp
  have fj: "touched c (?p (Suc j)) \<longleftrightarrow> length ms \<le> j" "?p (Suc j) = abs_path (take j ?cs)" if "j \<in> set [1..<length ?cs]" for j
    using touched_prefix [OF assms] that by simp_all
  have "filter (touched c) (map ?p [0..<Suc (length ?cs)]) = filter (touched c) (map (\<lambda>j. ?p (Suc j)) [1..<length ?cs])"
    unfolding upt_Suc_split [OF cs] using f0 by (simp add: comp_def)
  also have "\<dots> = map (\<lambda>j. ?p (Suc j)) (filter (\<lambda>j. touched c (?p (Suc j))) [1..<length ?cs])"
    by (simp add: filter_map comp_def)
  also have "filter (\<lambda>j. touched c (?p (Suc j))) [1..<length ?cs] = filter (\<lambda>j. length ms \<le> j) [1..<length ?cs]"
    by (intro filter_cong refl) (rule fj(1))
  also have "map (\<lambda>j. ?p (Suc j)) (filter (\<lambda>j. length ms \<le> j) [1..<length ?cs]) =
      map (\<lambda>j. abs_path (take j ?cs)) (filter (\<lambda>j. length ms \<le> j) [1..<length ?cs])"
    by (intro map_cong refl fj(2)) simp
  also have "filter (\<lambda>j. length ms \<le> j) [1..<length ?cs] = map (\<lambda>k. length ms + k) [0..<length gs]"
    using filter_le_upt [of "length ms" "length gs"] assms(2) by simp
  finally show ?thesis by (simp add: comp_def)
qed

lemma toggle_files:
  assumes "proper_path (ms @ gs)" "ms \<noteq> []" "unifiedMountpoint c = abs_path ms" "mgr_path c = abs_path (ms @ gs)"
  shows "map (\<lambda>f. path_join [f, subtreeControl]) (filter (touched c)
      (map (\<lambda>i. join (take i (split CHR ''/'' (mgr_path c))) ''/'') [0..<length (split CHR ''/'' (mgr_path c))])) =
    subtree_files ms gs"
proof -
  have len: "length (split CHR ''/'' (mgr_path c)) = Suc (length (ms @ gs))"
    using assms by (simp add: split_abs_path)
  have sub: "proper subtreeControl" by (simp add: subtreeControl_def proper_def)
  have "path_join [abs_path (ms @ take k gs), subtreeControl] = abs_path (ms @ take k gs @ [subtreeControl])" for k
    using path_join_proper [of "ms @ take k gs", OF _ sub] assms(1) by (auto simp: list_all_iff dest: in_set_takeD)
  then show ?thesis unfolding len touched_levels [OF assms] by (simp add: subtree_files_def)
qed

text \<open>C11: Enabling or disabling controllers for a group writes the cgroup.subtree_control file of the
  mount point and of every ancestor of the group, from the top down, never that of the group itself;
  every file is tried, and the result is that of the last one, the parent's.\<close>

theorem toggle_controllers_ancestors:
  assumes "proper_path (ms @ gs)" and "ms \<noteq> []"
    and "c = \<lparr>unifiedMountpoint = abs_path ms, mgr_path = abs_path (ms @ gs)\<rparr>"
  shows "ToggleControllers os c cs t w =
    (toggle_result os cs t (subtree_files ms gs) None w, toggle_all os cs t (subtree_files ms gs) w)"
  unfolding ToggleControllers_def Let_def toggle_loop_eq
  by (subst (1 2) toggle_files [OF assms(1,2)]) (simp_all add: assms(3))


theorem toggle_controllers_ancestors_witness:
  "snd (ToggleControllers mem_os \<lparr>unifiedMountpoint = ''/m'', mgr_path = ''/m/a/b''\<rparr> [''cpu''] Enable
      \<lparr>mem_files = [(''/m/cgroup.subtree_control'', []), (''/m/a/cgroup.subtree_control'', [])],
       mem_dirs = [], mem_faults = []\<rparr>) =
    \<lparr>mem_files = [(''/m/cgroup.subtree_control'', ''+cpu''), (''/m/a/cgroup.subtree_control'', ''+cpu'')],
       mem_dirs = [], mem_faults = []\<rparr>"
proof -
  let ?w = "\<lparr>mem_files = [(''/m/cgroup.subtree_control'', []), (''/m/a/cgroup.subtree_control'', [])],
    mem_dirs = [], mem_faults = []\<rparr>"
  have p: "proper_path ([''m''] @ [''a'', ''b''])" by (simp add: proper_def)
  have m: "\<lparr>unifiedMountpoint = ''/m'', mgr_path = ''/m/a/b''\<rparr> =
      \<lparr>unifiedMountpoint = abs_path [''m''], mgr_path = abs_path ([''m''] @ [''a'', ''b''])\<rparr>"
    by (simp add: render_path_def)
  have files: "subtree_files [''m''] [''a'', ''b''] = [''/m/cgroup.subtree_control'', ''/m/a/cgroup.subtree_control'']"
    by (simp add: subtree_files_def render_path_def subtreeControl_def upt_conv_Cons)
  show ?thesis
    unfolding toggle_controllers_ancestors [OF p _ m, simplified snd_conv, simplified] snd_conv files
    by (simp add: toggle_all_def writeSubtreeControl_def seqn_def bnd_def sys_def mem_open_file_def mem_fd_write_def
        fault_def toggled_def toggleFunc_def Enable_def)
qed

section \<open>Creating a group\<close>

lemma or_remove_cases:
  "or_remove os path m w = (r, w1) \<Longrightarrow>
     (r = Ok () \<and> m w = (Ok (), w1)) \<or> (r = Panic \<and> m w = (Panic, w1)) \<or>
     (\<exists>e w2. r = Err e \<and> m w = (Err e, w2) \<and> w1 = ignoring (os_remove os path) w2)"
  by (cases "m w"; cases "fst (m w)") (auto simp: or_remove_def)

lemma seqn_cases:
  "seqn m k w = (r, w1) \<Longrightarrow>
     (\<exists>w2. m w = (Ok (), w2) \<and> k w2 = (r, w1)) \<or> (r = Panic \<and> m w = (Panic, w1)) \<or> (\<exists>e. r = Err e \<and> m w = (Err e, w1))"
  by (cases "m w"; cases "fst (m w)") (auto simp: seqn_def bnd_def)



text \<open>An eBPF library that accepts every program, for the concrete instances.\<close>

definition mem_bpf :: "memfs bpf" where
  "mem_bpf = \<lparr>bpf_open_dir = (\<lambda>_ _. None), bpf_new_program = (\<lambda>_ _ m. (None, m)), bpf_attach = (\<lambda>_ _ m. (None, m)),
     bpf_detach = (\<lambda>_ _ m. (None, m))\<rparr>"

lemmas mem_eval = sys_def mem_mkdir_all_def mem_open_file_def mem_fd_write_def mem_write_file_def mem_open_def
  mem_remove_def fault_def ancestors_def abs_comps_def path_eval

lemmas manager_eval = seqn_def bnd_def handle_def Let_def or_remove_def ToggleControllers_def writeSubtreeControl_def
  toggled_def toggleFunc_def Enable_def Disable_def subtreeControl_def upt_conv_Cons


lemma Update_file_writes:
  assumes "disk os good writable" and "good w" and "res_Devices r = []"
    and "\<And>v. v \<in> set (Resources_Values r) \<Longrightarrow> writable (path_join [mgr_path c, filename v]) w"
  shows "\<exists>w1. Update os bpf c (Some r) w = (Ok (), w1) \<and>
    (\<forall>p d. assign_all (file_writes (mgr_path c) (Resources_Values r)) p = Some d \<longrightarrow> ReadFile os p w1 = Ok d)"
proof -
  let ?fs = "file_writes (mgr_path c) (Resources_Values r)"
  have wr: "pd \<in> set ?fs \<Longrightarrow> writable (fst pd) w" for pd
    using assms(4) by (auto simp: file_writes_def)
  obtain w1 where w1: "for_each (\<lambda>pd. sys (os_write_file os (fst pd) (snd pd))) ?fs w = (Ok (), w1)"
    using disk.write_all_ok [OF assms(1,2) wr] by blast
  have "writeValues os (mgr_path c) (Resources_Values r) w = (Ok (), w1)"
    using writeValues_batch [of "Resources_Values r" os "mgr_path c" w] resources_source.vals_encode w1 by metis
  then have "Update os bpf c (Some r) w = (Ok (), w1)"
    by (simp add: Update_def setResources_def seqn_def bnd_def setDevices_def assms(3))
  moreover have "ReadFile os p w1 = Ok d" if "assign_all ?fs p = Some d" for p d
    using disk.read_back [OF assms(1,2) wr w1 that] by simp
  ultimately show ?thesis by blast
qed



section \<open>Removing and deleting\<close>

text \<open>Removing a directory is tried at most five times, with sleeps of 10, 20, 40 and 80 ms in between;
  the first attempt that succeeds ends it, and otherwise the error of the fifth is reported.\<close>

theorem remove_first_of_five:
  "remove os path w =
    (case find (\<lambda>j. fst (attempt os path w j) = None) [0..<5] of
       Some j \<Rightarrow> (Ok (), snd (attempt os path w j))
     | None \<Rightarrow> (Err (Wrap (''cgroups: unable to remove path '' @ quoted path) (the (fst (attempt os path w 4)))),
                snd (attempt os path w 4)))"
proof (cases "find (\<lambda>j. fst (attempt os path w j) = None) [0..<5]")
  case None
  then have "fst (attempt os path w 4) \<noteq> None" by (auto simp: find_None_iff)
  then show ?thesis using None by (auto simp: remove_def remove_loop_eq split: prod.splits)
next
  case (Some j)
  then have "fst (attempt os path w j) = None" by (auto simp: find_Some_iff)
  then show ?thesis using Some by (auto simp: remove_def remove_loop_eq split: prod.splits)
qed

text \<open>C8: Delete never removes a group with running tasks: if it succeeds or changes anything, the list of
  tasks of the right kind (threads for a threaded group, processes otherwise) was read without an error and
  was empty, and what it did is remove the group's directory.\<close>

theorem delete_only_empty:
  assumes "Delete os c w = (r, w1)" and "r = Ok () \<or> w1 \<noteq> w"
  shows "\<exists>ty. (GetType os c w = Ok ty \<or> (\<exists>e. GetType os c w = Err e \<and> is_not_exist e) \<and> ty = []) \<and>
    getTasks os c True (if ty = Threaded \<or> ty = DomainThreaded then cgroupThreads else cgroupProcs) w = (None, []) \<and>
    remove os (mgr_path c) w = (r, w1)"
proof -
  have step: "getTasks os c True (if ty = Threaded \<or> ty = DomainThreaded then cgroupThreads else cgroupProcs) w = (None, []) \<and>
      remove os (mgr_path c) w = (r, w1)" if "delete_of_type os c ty w = (r, w1)" for ty
    using that assms(2)
    by (auto simp: delete_of_type_def Procs_def Threads_def split: prod.splits option.splits if_splits)
  show ?thesis
  proof (cases "GetType os c w")
    case (Ok ty)
    then show ?thesis using assms(1) step [of ty] by (auto simp: Delete_def)
  next
    case (Err e)
    then show ?thesis using assms step [of "[]"] by (auto simp: Delete_def split: if_splits)
  next
    case Panic
    then show ?thesis using assms by (auto simp: Delete_def)
  qed
qed


theorem delete_only_empty_witness:
  "getTasks mem_os \<lparr>unifiedMountpoint = ''/m'', mgr_path = ''/m/a''\<rparr> True cgroupProcs
     \<lparr>mem_files = [], mem_dirs = [''/m/a''], mem_faults = []\<rparr> = (None, [])"
proof -
  let ?c = "\<lparr>unifiedMountpoint = ''/m'', mgr_path = ''/m/a''\<rparr>"
  let ?w = "\<lparr>mem_files = [], mem_dirs = [''/m/a''], mem_faults = []\<rparr>"
  have ty: "GetType mem_os ?c ?w = Err (PathError ''open'' ''/m/a/cgroup.type'' ENOENT)"
    by (simp add: GetType_def ReadFile_def mem_eval)
  have tree: "mem_tree ''/m/a'' ?w = NDir None []"
    by (simp add: mem_tree_def mem_children_def fault_def path_dir_def path_split_def path_eval)
  have tasks: "getTasks mem_os ?c True cgroupProcs ?w = (None, [])"
    by (simp add: getTasks_def Walk_def tree tasks_visit_def cgroupProcs_def path_split_def)
  obtain w1 where del: "Delete mem_os ?c ?w = (Ok (), w1)"
    by (simp add: Delete_def ty delete_of_type_def Procs_def tasks Threaded_def DomainThreaded_def
        remove_def remove_loop_eq attempt_def upt_conv_Cons mem_remove_all_def fault_def)
  from delete_only_empty [OF this] show ?thesis
    by (auto simp: ty Threaded_def DomainThreaded_def)
qed

section \<open>Moving processes\<close>

text \<open>MoveTo writes the processes of the group one by one to the destination, in the order they are
  listed, and goes on over processes that are gone; it stops at the first other error, which it returns,
  and succeeds only if it came to the end of the list.\<close>

theorem move_to_sequence:
  assumes "Procs os c True w = (None, ps)" and "MoveTo os c dst w = (r, w1)"
  shows "\<exists>k \<le> length ps. w1 = fold (\<lambda>p w. snd (AddProc os dst p w)) (take k ps) w \<and>
    (r = Ok () \<longleftrightarrow> (\<forall>i < k. \<forall>e. fst (AddProc os dst (ps ! i) (fold (\<lambda>p w. snd (AddProc os dst p w)) (take i ps) w)) = Err e \<longrightarrow>
        contains (error_text e) ''no such process'')) \<and> (r = Ok () \<longrightarrow> k = length ps)"
proof -
  have no_panic: "fst (AddProc os dst p w) \<noteq> Panic" for p w
    by (simp add: AddProc_def writeValues_def value_write_def bnd_def sys_def split: prod.splits option.splits)
  have "\<exists>k \<le> length ps. w1 = fold (\<lambda>p w. snd (AddProc os dst p w)) (take k ps) w \<and>
    (r = Ok () \<longleftrightarrow> (\<forall>i < k. \<forall>e. fst (AddProc os dst (ps ! i) (fold (\<lambda>p w. snd (AddProc os dst p w)) (take i ps) w)) = Err e \<longrightarrow>
        contains (error_text e) ''no such process'')) \<and> (r = Ok () \<longrightarrow> k = length ps)"
    if "move_procs os dst ps w = (r, w1)" for ps w
    using that
  proof (induction ps arbitrary: w)
    case (Cons p ps)
    obtain a w2 where a: "AddProc os dst p w = (a, w2)" by fastforce
    show ?case
    proof (cases "\<exists>e. a = Err e \<and> \<not> contains (error_text e) ''no such process''")
      case True
      then have "r = a" "w1 = w2" using Cons.prems a by auto
      then show ?thesis using True a by (intro exI [of _ 1]) auto
    next
      case False
      then have "move_procs os dst ps w2 = (r, w1)"
        using Cons.prems a no_panic [of p w] by (cases a) auto
      from Cons.IH [OF this] obtain k where k: "k \<le> length ps"
        "w1 = fold (\<lambda>p w. snd (AddProc os dst p w)) (take k ps) w2"
        "r = Ok () \<longleftrightarrow> (\<forall>i < k. \<forall>e. fst (AddProc os dst (ps ! i) (fold (\<lambda>p w. snd (AddProc os dst p w)) (take i ps) w2)) = Err e \<longrightarrow>
          contains (error_text e) ''no such process'')" "r = Ok () \<longrightarrow> k = length ps" by blast
      have split: "(\<forall>i < Suc k. P i) \<longleftrightarrow> P 0 \<and> (\<forall>i < k. P (Suc i))" for P :: "nat \<Rightarrow> bool"
        by (auto simp: less_Suc_eq_0_disj)
      show ?thesis
        using k a False by (intro exI [of _ "Suc k"]) (simp add: split)
    qed
  qed auto
  then show ?thesis using assms by (simp add: MoveTo_def)
qed

section \<open>Freezing\<close>

text \<open>C25: Freezing and thawing return exactly when the kernel gets there: if every round of writing the
  state and reading it back succeeds and brings the group closer, the loop returns without an error, in a
  state of the system in which the group reads as asked for; and if the state is never read, it runs
  forever.\<close>

theorem freeze_returns:
  assumes "st = Frozen \<or> st = Thawed"
    and "poll (writeValues os path (State_Values st)) (fetchState os path) (os_sleep os 1) st good dist" and "good w"
  shows "\<exists>w1. freeze os path st w = Some (Ok (), w1) \<and> fetchState os path w1 = Ok st"
  using poll.returns [OF assms(2,3)] by (simp add: freeze_def)

text \<open>In memory, the state is there after the first write.\<close>

lemma mem_freeze_round:
  assumes "mem_writable (path_join [path, ''cgroup.freeze'']) w" and "st = Frozen \<or> st = Thawed"
  shows "\<exists>w1. writeValues mem_os path (State_Values st) w = (Ok (), w1) \<and> fetchState mem_os path w1 = Ok st"
proof -
  let ?p = "path_join [path, ''cgroup.freeze'']"
  let ?d = "if st = Frozen then ''1'' else ''0''"
  obtain w1 where w1: "mem_write_file ?p ?d w = (None, w1)" "mem_open ?p w1 = Inr (?d, None)"
    using mem_disk.write_ok [where w = w and p = ?p and d = ?d] mem_disk.write_read [where w = w and p = ?p and d = ?d] assms(1)
    by (cases "mem_write_file ?p ?d w") auto
  have v: "State_Values st = [\<lparr>filename = ''cgroup.freeze'', contents = VString ?d\<rparr>]"
    using assms(2) by (auto simp: State_Values_def Thawed_def Frozen_def)
  have "trim_space ''1'' = ''1''" "trim_space ''0'' = ''0''"
    by (simp_all add: trim_space_word plain_word_def plain_char_def ascii_space_def)
  then show ?thesis
    using assms(2) w1
    by (auto simp: writeValues_def v value_write_def bnd_def sys_def fetchState_def ReadFile_def Thawed_def Frozen_def
        split: if_splits)
qed

interpretation mem_freeze: poll "writeValues mem_os ''/m/a'' (State_Values Frozen)" "fetchState mem_os ''/m/a''"
  "os_sleep mem_os 1" Frozen "mem_writable (path_join [''/m/a'', ''cgroup.freeze''])" "\<lambda>_. 0"
proof (unfold_locales, goal_cases)
  case (1 w)
  then show ?case using mem_freeze_round [where path = "''/m/a''" and w = w and st = Frozen] by auto
next
  case (2 w)
  then show ?case using mem_freeze_round [where path = "''/m/a''" and w = w and st = Frozen] by auto
next
  case (3 w)
  then show ?case using mem_freeze_round [where path = "''/m/a''" and w = w and st = Frozen] by auto
qed

theorem freeze_returns_witness:
  "\<exists>w1. freeze mem_os ''/m/a'' Frozen \<lparr>mem_files = [(''/m/a/cgroup.freeze'', ''0'')], mem_dirs = [], mem_faults = []\<rparr>
      = Some (Ok (), w1) \<and> fetchState mem_os ''/m/a'' w1 = Ok Frozen"
  by (rule freeze_returns [OF _ mem_freeze.poll_axioms]) (simp_all add: mem_writable_def fault_def path_eval)

text \<open>A group whose freezer never reports the state that is asked for is polled forever: Freeze has
  no timeout.\<close>

theorem freeze_diverges:
  assumes "S w"
    and "\<And>w. S w \<Longrightarrow> fst (writeValues os path (State_Values st) w) = Ok ()"
    and "\<And>w. S w \<Longrightarrow> \<exists>x. fetchState os path (snd (writeValues os path (State_Values st) w)) = Ok x \<and> x \<noteq> st"
    and "\<And>w. S w \<Longrightarrow> S (os_sleep os 1 (snd (writeValues os path (State_Values st) w)))"
  shows "freeze os path st w = None"
  unfolding freeze_def by (rule poll_until_diverges [of S]) (use assms in auto)


theorem freeze_diverges_witness:
  "freeze (mem_os\<lparr>os_write_file := \<lambda>_ _ m. (None, m)\<rparr>) ''/m/a'' Frozen
     \<lparr>mem_files = [(''/m/a/cgroup.freeze'', ''0'')], mem_dirs = [], mem_faults = []\<rparr> = None"
proof -
  let ?w = "\<lparr>mem_files = [(''/m/a/cgroup.freeze'', ''0'')], mem_dirs = [], mem_faults = []\<rparr>"
  have "trim_space ''0'' = ''0''" by (simp add: trim_space_word plain_word_def plain_char_def ascii_space_def)
  then show ?thesis
    by (intro freeze_diverges [of "\<lambda>w. w = ?w"])
      (auto simp: State_Values_def writeValues_def value_write_def bnd_def sys_def Frozen_def Thawed_def Unknown_def
        fetchState_def ReadFile_def mem_open_def fault_def path_eval)
qed

section \<open>Killing\<close>

lemma kill_loop_found:
  assumes "\<And>pid w. pid \<in> set pids \<Longrightarrow> pr_find pr pid w = None"
  shows "kill_loop pr pids w = (pids, fold (\<lambda>pid. ignoring (pr_kill pr pid)) pids w)"
  using assms by (induction pids arbitrary: w) auto

text \<open>C38: The slow kill signals every process of the group once, in the order listed, between freezing and
  thawing, whether or not these succeed, then waits for each of them unless the caller is a subreaper, and
  reports no error.\<close>

theorem fallback_kill_all:
  assumes "Freeze os c w = Some (r1, w1)" and "r1 \<noteq> Panic" and "Procs os c True w1 = (None, pids)"
    and "\<And>pid w. pid \<in> set pids \<Longrightarrow> pr_find pr pid w = None"
    and "Thaw os c (fold (\<lambda>pid. ignoring (pr_kill pr pid)) pids w1) = Some (r2, w2)" and "r2 \<noteq> Panic"
    and "getSubreaper pr w2 = Inr s"
  shows "fallbackKill os pr c w =
    Some (Ok (), if s = 0 then fold (\<lambda>pid. ignoring (pr_wait pr pid)) pids w2 else w2)"
  using assms kill_loop_found [of pids pr w1]
  by (cases r1; cases r2) (simp_all add: fallbackKill_def logging_def)

text \<open>An example: the system state counts what was done to each process.\<close>

definition log_procs :: "memfs procs" where
  "log_procs = \<lparr>pr_find = (\<lambda>_ _. None), pr_kill = (\<lambda>pid m. (None, m\<lparr>mem_dirs := mem_dirs m @ [''kill '' @ FormatUint pid]\<rparr>)),
     pr_prctl = (\<lambda>_. Inr 1), pr_wait = (\<lambda>pid m. (None, m))\<rparr>"

theorem fallback_kill_all_witness:
  "fallbackKill mem_os log_procs \<lparr>unifiedMountpoint = ''/m'', mgr_path = ''/m/a''\<rparr>
     \<lparr>mem_files = [(''/m/a/cgroup.procs'', ''7'')], mem_dirs = [''/m/a''],
      mem_faults = [((''open'', ''/m/a/cgroup.freeze''), EPERM)]\<rparr> =
   Some (Ok (), \<lparr>mem_files = [(''/m/a/cgroup.procs'', ''7'')], mem_dirs = [''/m/a'', ''kill 7''],
      mem_faults = [((''open'', ''/m/a/cgroup.freeze''), EPERM)]\<rparr>)"
proof -
  let ?c = "\<lparr>unifiedMountpoint = ''/m'', mgr_path = ''/m/a''\<rparr>"
  let ?w = "\<lparr>mem_files = [(''/m/a/cgroup.procs'', ''7'')], mem_dirs = [''/m/a''],
    mem_faults = [((''open'', ''/m/a/cgroup.freeze''), EPERM)]\<rparr>"
  let ?w1 = "\<lparr>mem_files = [(''/m/a/cgroup.procs'', ''7'')], mem_dirs = [''/m/a'', ''kill 7''],
    mem_faults = [((''open'', ''/m/a/cgroup.freeze''), EPERM)]\<rparr>"
  have fr: "freeze mem_os ''/m/a'' st w = Some (Err (PathError ''open'' ''/m/a/cgroup.freeze'' EPERM), w)"
    if "mem_faults w = [((''open'', ''/m/a/cgroup.freeze''), EPERM)]" "st = Frozen \<or> st = Thawed" for w st
    unfolding freeze_def using that
    by (subst poll_until.simps) (auto simp: writeValues_def State_Values_def value_write_def bnd_def mem_eval
        Frozen_def Thawed_def)
  have tree: "mem_tree ''/m/a'' ?w = NDir None [(''cgroup.procs'', NFile)]"
    by (simp add: mem_tree_def mem_children_def fault_def path_dir_def path_split_def path_eval)
  have seven: "ParseUint ''7'' 0 = (7, None)" by (simp add: parse_eval)
  have tasks: "Procs mem_os ?c True ?w = (None, [7])"
    by (simp add: Procs_def getTasks_def Walk_def tree tasks_visit_def cgroupProcs_def path_split_def path_eval
        parseCgroupTasksFile_def mem_open_def fault_def scan_lines_def raw_lines_def drop_cr_def max_token_def seven)
  have k: "fold (\<lambda>pid. ignoring (pr_kill log_procs pid)) [7] ?w = ?w1"
    by (simp add: log_procs_def ignoring_def print_eval)
  have "fallbackKill mem_os log_procs ?c ?w =
      Some (Ok (), if (1 :: i64) = 0 then fold (\<lambda>pid. ignoring (pr_wait log_procs pid)) [7] ?w1 else ?w1)"
    by (rule fallback_kill_all [where pids = "[7]"])
      (use fr [of ?w Frozen] fr [of ?w1 Thawed] tasks k in \<open>auto simp: Freeze_def Thaw_def log_procs_def getSubreaper_def\<close>)
  then show ?thesis by simp
qed

section \<open>Memory events\<close>

lemma somes_single [simp]: "somes [x] = (case x of None \<Rightarrow> [] | Some y \<Rightarrow> [y])"
  by (cases x) auto

lemma event_round_error:
  "event_round os c rd w = (ev, Some e, stop) \<Longrightarrow> stop \<and> ev = None"
  by (auto simp: event_round_def Let_def split: sum.splits prod.splits option.splits if_splits)


lemma event_step_errors:
  assumes "event_step os c s t" and "ch_errors s = []"
  shows "length (ch_errors t) \<le> 1 \<and> (ch_errors t \<noteq> [] \<longrightarrow> \<not> ch_running t \<and> ch_events t = ch_events s)"
proof -
  obtain rd w ev er stop where e: "event_round os c rd w = (ev, er, stop)"
    and t: "t = \<lparr>ch_events = ch_events s @ somes [ev], ch_errors = ch_errors s @ somes [er], ch_running = \<not> stop\<rparr>"
    using assms(1) by (auto elim!: event_stepE)
  show ?thesis
  proof (cases er)
    case (Some x)
    then have "stop \<and> ev = None" using e event_round_error [of os c rd w ev x stop] by simp
    then show ?thesis using Some assms(2) t by simp
  qed (simp add: assms(2) t)
qed

text \<open>The goroutine of EventChan sends at most one error, after which it has ended, so its send on the
  error channel of capacity one never blocks; and no event follows an error.\<close>

theorem event_chan_one_error:
  assumes "(event_step os c)\<^sup>*\<^sup>* (EventChan inotify) s"
  shows "length (ch_errors s) \<le> 1 \<and> (ch_errors s \<noteq> [] \<longrightarrow> \<not> ch_running s) \<and> (\<not> ch_running s \<longrightarrow> (\<forall>t. \<not> event_step os c s t))"
proof -
  have "length (ch_errors s) \<le> 1 \<and> (ch_errors s \<noteq> [] \<longrightarrow> \<not> ch_running s)"
    using assms
  proof (induction rule: rtranclp_induct)
    case base
    then show ?case by (cases inotify) (simp_all add: EventChan_def)
  next
    case (step s t)
    then have "ch_errors s = []" by (auto elim!: event_stepE)
    then show ?case using event_step_errors [OF step.hyps(2)] by blast
  qed
  then show ?thesis by (auto elim!: event_stepE)
qed

theorem event_chan_one_error_witness:
  "length (ch_errors (EventChan (Some ErrEOF))) \<le> 1"
  using event_chan_one_error [of mem_os "\<lparr>unifiedMountpoint = ''/m'', mgr_path = ''/m/a''\<rparr>" "Some ErrEOF" "EventChan (Some ErrEOF)"] by simp

text \<open>The goroutine ends with the last event: when the group is reported as not populated (or cannot be
  asked) and its counters can still be read, the round sends them and stops; while it is populated, the
  round sends them and goes on.\<close>

theorem event_round_exit:
  assumes "16 \<le> n" and "readKVStatsFile os (mgr_path c) ''memory.events'' w = (None, out)"
  shows "\<exists>ev. event_round os c (Inr n) w = (Some ev, None, isCgroupEmpty os c w) \<and> ev_OOM ev = mget out ''oom'' \<and>
    ev_OOMKill ev = mget out ''oom_kill'' \<and> ev_Max ev = mget out ''max''"
  using assms by (simp add: event_round_def)

theorem event_round_exit_witness:
  "\<exists>ev. event_round mem_os \<lparr>unifiedMountpoint = ''/m'', mgr_path = ''/m/a''\<rparr> (Inr 16)
      \<lparr>mem_files = [(''/m/a/memory.events'', kv_file [(''oom'', 1)]), (''/m/a/cgroup.events'', kv_file [(''populated'', 0)])],
       mem_dirs = [], mem_faults = []\<rparr> = (Some ev, None, True) \<and> ev_OOM ev = 1"
proof -
  let ?c = "\<lparr>unifiedMountpoint = ''/m'', mgr_path = ''/m/a''\<rparr>"
  let ?w = "\<lparr>mem_files = [(''/m/a/memory.events'', kv_file [(''oom'', 1)]), (''/m/a/cgroup.events'', kv_file [(''populated'', 0)])],
    mem_dirs = [], mem_faults = []\<rparr>"
  have key: "kv_key ''oom''" "kv_key ''populated''" by (simp_all add: kv_key_def plain_word_def plain_char_def ascii_space_def)
  have "readKVStatsFile mem_os ''/m/a'' ''memory.events'' ?w = (None, put_all [(''oom'', 1)] [])"
    by (rule readKVStatsFile_kv_file) (auto simp: path_eval mem_open_def fault_def key)
  then have me: "readKVStatsFile mem_os (mgr_path ?c) ''memory.events'' ?w = (None, [(''oom'', 1)])" by (simp add: put_all_def)
  have "readKVStatsFile mem_os ''/m/a'' ''cgroup.events'' ?w = (None, put_all [(''populated'', 0)] [])"
    by (rule readKVStatsFile_kv_file) (auto simp: path_eval mem_open_def fault_def key)
  then have "isCgroupEmpty mem_os ?c ?w" by (simp add: isCgroupEmpty_def put_all_def)
  then show ?thesis using event_round_exit [OF _ me, of 16] by (auto simp: mget_def)
qed

section \<open>The processes of a tree\<close>

text \<open>The files of one name in a tree, as lists of path elements, and those directly in a directory.\<close>

fun task_files :: "string \<Rightarrow> string list \<Rightarrow> fnode \<Rightarrow> string list list"
  and task_files_in :: "string \<Rightarrow> string list \<Rightarrow> (string \<times> fnode) list \<Rightarrow> string list list"
where
  "task_files t cs NFile = (if last cs = t then [cs] else [])"
| "task_files t cs (NBad e) = []"
| "task_files t cs (NDir rd kids) = task_files_in t cs kids"
| "task_files_in t cs [] = []"
| "task_files_in t cs ((name, n) # ns) = task_files t (cs @ [name]) n @ task_files_in t cs ns"

definition direct_files :: "string \<Rightarrow> string list \<Rightarrow> (string \<times> fnode) list \<Rightarrow> string list list" where
  "direct_files t cs kids = map (\<lambda>(name, n). cs @ [name]) (filter (\<lambda>(name, n). n = NFile \<and> name = t) kids)"

text \<open>A tree that can be listed, and in which no directory has the name of the files.\<close>

fun sound_tree :: "string \<Rightarrow> string list \<Rightarrow> fnode \<Rightarrow> bool"
  and sound_entries :: "string \<Rightarrow> string list \<Rightarrow> (string \<times> fnode) list \<Rightarrow> bool"
where
  "sound_tree t cs NFile = True"
| "sound_tree t cs (NBad e) = False"
| "sound_tree t cs (NDir rd kids) = (rd = None \<and> last cs \<noteq> t \<and> sound_entries t cs kids)"
| "sound_entries t cs [] = True"
| "sound_entries t cs ((name, n) # ns) = (proper name \<and> sound_tree t (cs @ [name]) n \<and> sound_entries t cs ns)"

definition tasks_in :: "'w os \<Rightarrow> 'w \<Rightarrow> string list \<Rightarrow> u64 list" where
  "tasks_in os w cs = (case parseCgroupTasksFile os (abs_path cs) w of Ok ts \<Rightarrow> ts | _ \<Rightarrow> [])"

definition readable :: "'w os \<Rightarrow> 'w \<Rightarrow> string list \<Rightarrow> bool" where
  "readable os w cs = (\<exists>ts. parseCgroupTasksFile os (abs_path cs) w = Ok ts)"

lemma split_abs_last:
  "proper_path cs \<Longrightarrow> cs \<noteq> [] \<Longrightarrow> snd (path_split (abs_path cs)) = last cs"
  using path_split_abs_path [of "last cs" "butlast cs"] by (simp add: list_all_iff proper_def)

lemma walk_tasks:
  "proper_path cs \<Longrightarrow> cs \<noteq> [] \<Longrightarrow> sound_tree t cs n \<Longrightarrow> (\<forall>f \<in> set (task_files t cs n). readable os w f) \<Longrightarrow>
     walk (tasks_visit os root True t w) (abs_path cs) n tasks =
       (WOk, tasks @ concat (map (tasks_in os w) (task_files t cs n)))"
  "proper_path cs \<Longrightarrow> sound_entries t cs ns \<Longrightarrow> (\<forall>f \<in> set (task_files_in t cs ns). readable os w f) \<Longrightarrow>
     walk_entries (tasks_visit os root True t w) (abs_path cs) ns tasks =
       (WOk, tasks @ concat (map (tasks_in os w) (task_files_in t cs ns)))"
proof (induction t cs n and t cs ns arbitrary: tasks and tasks rule: task_files_task_files_in.induct)
  case (1 t cs)
  then show ?case by (auto simp: tasks_visit_def split_abs_last readable_def tasks_in_def)
next
  case (3 t cs rd kids)
  then have "tasks_visit os root True t w (abs_path cs) (Some True) rd tasks = (WOk, tasks)"
    by (simp add: tasks_visit_def split_abs_last)
  then show ?case using 3 by simp
next
  case (5 t cs name n ns)
  then show ?case by simp
qed simp_all

text \<open>Without recursion the walk does not enter the directories.\<close>

lemma walk_direct:
  assumes "proper_path cs" and "\<And>name n. (name, n) \<in> set ns \<Longrightarrow> proper name \<and> (\<forall>e. n \<noteq> NBad e) \<and> (\<forall>rd kids. n = NDir rd kids \<longrightarrow> rd = None)"
    and "\<forall>f \<in> set (direct_files t cs ns). readable os w f"
  shows "walk_entries (tasks_visit os (abs_path cs) False t w) (abs_path cs) ns tasks =
    (WOk, tasks @ concat (map (tasks_in os w) (direct_files t cs ns)))"
  using assms(2,3)
proof (induction ns arbitrary: tasks)
  case Nil
  then show ?case by (simp add: direct_files_def)
next
  case (Cons x ns)
  obtain name n where x: "x = (name, n)" by (cases x)
  have nm: "proper name" using Cons.prems(1) [of name n] by (simp add: x)
  have pj: "path_join [abs_path cs, name] = abs_path (cs @ [name])" using assms(1) nm by simp
  have sp: "snd (path_split (abs_path (cs @ [name]))) = name" using nm by (intro path_split_abs_path) (simp add: proper_def)
  have ne: "abs_path (cs @ [name]) \<noteq> abs_path cs" using assms(1) nm abs_path_inj [of "cs @ [name]" cs] by simp
  have IH: "walk_entries (tasks_visit os (abs_path cs) False t w) (abs_path cs) ns tasks =
      (WOk, tasks @ concat (map (tasks_in os w) (direct_files t cs ns)))" for tasks
  proof (rule Cons.IH)
    show "proper a \<and> (\<forall>e. b \<noteq> NBad e) \<and> (\<forall>rd kids. b = NDir rd kids \<longrightarrow> rd = None)" if "(a, b) \<in> set ns" for a b
      using Cons.prems(1) [of a b] that by simp
    show "\<forall>f\<in>set (direct_files t cs ns). readable os w f"
      using Cons.prems(2) by (auto simp: direct_files_def x split: if_splits)
  qed
  show ?case
  proof (cases n)
    case NFile
    then have "tasks_visit os (abs_path cs) False t w (abs_path (cs @ [name])) (Some False) None tasks =
        (WOk, tasks @ (if name = t then tasks_in os w (cs @ [name]) else []))"
      using Cons.prems(2) sp by (auto simp: x tasks_visit_def direct_files_def readable_def tasks_in_def)
    then show ?thesis using NFile IH by (simp add: x pj) (simp add: direct_files_def)
  next
    case (NDir rd kids)
    moreover from this have "rd = None" using Cons.prems(1) [of name n] by (simp add: x)
    moreover have "tasks_visit os (abs_path cs) False t w (abs_path (cs @ [name])) (Some True) None tasks = (WSkipDir, tasks)"
      using ne by (simp add: tasks_visit_def)
    ultimately show ?thesis using IH by (simp add: x pj) (simp add: direct_files_def)
  next
    case (NBad e)
    then show ?thesis using Cons.prems(1) [of name n] by (simp add: x)
  qed
qed

lemma sound_entries_plain:
  "sound_entries t cs ns \<Longrightarrow> (name, n) \<in> set ns \<Longrightarrow>
     proper name \<and> (\<forall>e. n \<noteq> NBad e) \<and> (\<forall>rd kids. n = NDir rd kids \<longrightarrow> rd = None)"
  by (induction ns) auto

lemma direct_files_subset: "set (direct_files t cs ns) \<subseteq> set (task_files_in t cs ns)"
  by (induction ns) (auto simp: direct_files_def)

text \<open>C26: The processes (or threads) of a group: with recursion, those listed in all files of that name in
  the group's tree, in the order of the tree; without, those of the group's own file only.\<close>

theorem tasks_of_tree:
  assumes "mgr_path c = abs_path cs" and "proper_path cs" and "cs \<noteq> []"
    and "os_tree os (mgr_path c) w = NDir None kids" and "sound_tree t cs (NDir None kids)"
    and "\<And>f. f \<in> set (task_files_in t cs kids) \<Longrightarrow> readable os w f"
  shows "getTasks os c True t w = (None, concat (map (tasks_in os w) (task_files_in t cs kids)))
    \<and> getTasks os c False t w = (None, concat (map (tasks_in os w) (direct_files t cs kids)))"
proof -
  have "walk (tasks_visit os (mgr_path c) True t w) (abs_path cs) (NDir None kids) [] =
      (WOk, concat (map (tasks_in os w) (task_files_in t cs kids)))"
  proof -
    have "\<forall>f\<in>set (task_files t cs (NDir None kids)). readable os w f" using assms(6) by simp
    from walk_tasks(1) [OF assms(2,3,5) this, where root = "mgr_path c" and tasks = "[]"] show ?thesis by simp
  qed
  moreover have "walk_entries (tasks_visit os (abs_path cs) False t w) (abs_path cs) kids [] =
      (WOk, concat (map (tasks_in os w) (direct_files t cs kids)))"
  proof -
    have "\<forall>f\<in>set (direct_files t cs kids). readable os w f" using assms(6) direct_files_subset by blast
    moreover have "sound_entries t cs kids" using assms(5) by simp
    ultimately show ?thesis
      using walk_direct [OF assms(2) sound_entries_plain, where tasks = "[]" and ns = kids and t = t] by simp
  qed
  ultimately show ?thesis
    using assms(1,4) by (simp add: getTasks_def Walk_def tasks_visit_def)
qed


text \<open>A group with one process and a child group with another, for the concrete instances.\<close>

definition example_fs :: memfs where
  "example_fs = \<lparr>mem_files = [(''/m/a/cgroup.procs'', ''7''), (''/m/a/b/cgroup.procs'', ''8'')], mem_dirs = [''/m/a'', ''/m/a/b''],
     mem_faults = []\<rparr>"

definition example_mgr :: Manager where
  "example_mgr = \<lparr>unifiedMountpoint = ''/m'', mgr_path = ''/m/a''\<rparr>"

lemma example_tree: "mem_tree ''/m/a'' example_fs = NDir None [(''b'', NDir None [(''cgroup.procs'', NFile)]), (''cgroup.procs'', NFile)]"
  by (simp add: mem_tree_def mem_children_def fault_def path_dir_def path_split_def path_eval example_fs_def)

lemma example_pids:
  "parseCgroupTasksFile mem_os ''/m/a/cgroup.procs'' example_fs = Ok [7]"
  "parseCgroupTasksFile mem_os ''/m/a/b/cgroup.procs'' example_fs = Ok [8]"
proof -
  have "ParseUint ''7'' 0 = (7, None)" "ParseUint ''8'' 0 = (8, None)" by (simp_all add: parse_eval)
  then show "parseCgroupTasksFile mem_os ''/m/a/cgroup.procs'' example_fs = Ok [7]"
    "parseCgroupTasksFile mem_os ''/m/a/b/cgroup.procs'' example_fs = Ok [8]"
    by (simp_all add: example_fs_def parseCgroupTasksFile_def mem_open_def fault_def scan_lines_def raw_lines_def
        drop_cr_def max_token_def)
qed

theorem tasks_of_tree_witness:
  "getTasks mem_os example_mgr True ''cgroup.procs'' example_fs = (None, [8, 7])
    \<and> getTasks mem_os example_mgr False ''cgroup.procs'' example_fs = (None, [7])"
proof -
  let ?cs = "[''m'', ''a'']"
  let ?kids = "[(''b'', NDir None [(''cgroup.procs'', NFile)]), (''cgroup.procs'', NFile)]"
  have files: "task_files_in ''cgroup.procs'' ?cs ?kids = [[''m'', ''a'', ''b'', ''cgroup.procs''], [''m'', ''a'', ''cgroup.procs'']]"
    "direct_files ''cgroup.procs'' ?cs ?kids = [[''m'', ''a'', ''cgroup.procs'']]"
    by (simp_all add: direct_files_def)
  have "readable mem_os example_fs f" if "f \<in> set (task_files_in ''cgroup.procs'' ?cs ?kids)" for f
    using that unfolding files by (auto simp: readable_def render_path_def example_pids)
  from tasks_of_tree [of example_mgr ?cs mem_os example_fs ?kids "''cgroup.procs''", OF _ _ _ _ _ this]
  show ?thesis
    by (simp add: example_mgr_def example_tree proper_def files tasks_in_def example_pids render_path_def)
qed

theorem move_to_sequence_witness:
  "\<exists>k \<le> 2. snd (MoveTo mem_os example_mgr \<lparr>unifiedMountpoint = ''/m'', mgr_path = ''/m/c''\<rparr> example_fs) =
     fold (\<lambda>p w. snd (AddProc mem_os \<lparr>unifiedMountpoint = ''/m'', mgr_path = ''/m/c''\<rparr> p w)) (take k [8, 7]) example_fs"
proof -
  have visit: "tasks_visit mem_os ''/m/a'' True ''cgroup.procs'' example_fs p d None ts =
      (if snd (path_split p) \<noteq> ''cgroup.procs'' then (WOk, ts)
       else (case parseCgroupTasksFile mem_os p example_fs of Ok cur \<Rightarrow> (WOk, ts @ cur) | Err e \<Rightarrow> (WErr e, ts) | Panic \<Rightarrow> (WOk, ts)))" for p d ts
    by (simp add: tasks_visit_def)
  have "Procs mem_os example_mgr True example_fs = (None, [8, 7])"
    by (simp add: Procs_def getTasks_def Walk_def example_mgr_def example_tree cgroupProcs_def visit path_split_def
        path_eval example_pids)
  from move_to_sequence [OF this surjective_pairing] show ?thesis
    by (simp add: numeral_2_eq_2) blast
qed

end
