(* ===== verification/OCISpec.thy ===== *)
theory OCISpec
  imports V2Values
begin

text \<open>
  The part of the OCI runtime specification (\<open>specs-go\<close>) that the repository reads: the resources of a
  container in terms of the v1 controllers. Optional fields are pointers; a Go map is the association
  list of its entries in the order in which a \<open>range\<close> visits them, which Go leaves open.
\<close>

record LinuxCPU =
  lc_Shares :: "u64 option"
  lc_Quota :: "i64 option"
  lc_Period :: "u64 option"
  lc_RealtimeRuntime :: "i64 option"
  lc_RealtimePeriod :: "u64 option"
  lc_Cpus :: string
  lc_Mems :: string

record LinuxMemory =
  lm_Limit :: "i64 option"
  lm_Reservation :: "i64 option"
  lm_Swap :: "i64 option"
  lm_Kernel :: "i64 option"
  lm_KernelTCP :: "i64 option"
  lm_Swappiness :: "u64 option"
  lm_DisableOOMKiller :: "bool option"

record LinuxWeightDevice =
  wd_Major :: i64
  wd_Minor :: i64
  wd_Weight :: "u16 option"
  wd_LeafWeight :: "u16 option"

record LinuxThrottleDevice =
  td_Major :: i64
  td_Minor :: i64
  td_Rate :: u64

record LinuxBlockIO =
  bio_Weight :: "u16 option"
  bio_LeafWeight :: "u16 option"
  bio_WeightDevice :: "LinuxWeightDevice list"
  bio_ThrottleReadBpsDevice :: "LinuxThrottleDevice list"
  bio_ThrottleWriteBpsDevice :: "LinuxThrottleDevice list"
  bio_ThrottleReadIOPSDevice :: "LinuxThrottleDevice list"
  bio_ThrottleWriteIOPSDevice :: "LinuxThrottleDevice list"

record LinuxHugepageLimit =
  hl_Pagesize :: string
  hl_Limit :: u64

record LinuxInterfacePriority =
  ip_Name :: string
  ip_Priority :: u32

record LinuxNetwork =
  ln_ClassID :: "u32 option"
  ln_Priorities :: "LinuxInterfacePriority list"

record LinuxRdma =
  lr_HcaHandles :: "u32 option"
  lr_HcaObjects :: "u32 option"

text \<open>\<open>Pids\<close> is the pointer to a structure whose only field is the pointer \<open>Limit\<close>; a nil slice or map
  is \<open>None\<close> where the code tests for it.\<close>

record LinuxResources =
  lx_Devices :: "LinuxDeviceCgroup list"
  lx_Memory :: "LinuxMemory option"
  lx_CPU :: "LinuxCPU option"
  lx_Pids :: "i64 option option"
  lx_BlockIO :: "LinuxBlockIO option"
  lx_HugepageLimits :: "LinuxHugepageLimit list option"
  lx_Network :: "LinuxNetwork option"
  lx_Rdma :: "(string \<times> LinuxRdma) list option"

end
