(* ===== verification/V2Convert.thy ===== *)
theory V2Convert
  imports OCISpec Complex_Main "HOL-Library.Multiset"
begin

text \<open>
  The conversion of v1 resources to v2 resources in \<open>cgroup2/utils.go\<close>: \<open>ConvertCPUSharesToCgroupV2Value\<close>
  and \<open>ToResources\<close>. The floating-point functions are a parameter, a record of operations; the
  properties of the curve are proved for exact real arithmetic, the weight and swap computations, which
  wrap around, at their machine width.
\<close>

section \<open>CPU shares\<close>

record 'f float64_ops =
  f_of_uint :: "u64 \<Rightarrow> 'f"
  f_add :: "'f \<Rightarrow> 'f \<Rightarrow> 'f"
  f_sub :: "'f \<Rightarrow> 'f \<Rightarrow> 'f"
  f_mul :: "'f \<Rightarrow> 'f \<Rightarrow> 'f"
  f_div :: "'f \<Rightarrow> 'f \<Rightarrow> 'f"
  f_log2 :: "'f \<Rightarrow> 'f"
  f_pow :: "'f \<Rightarrow> 'f \<Rightarrow> 'f"
  f_ceil_uint :: "'f \<Rightarrow> u64"

definition ConvertCPUSharesToCgroupV2Value :: "'f float64_ops \<Rightarrow> u64 \<Rightarrow> u64" where
  "ConvertCPUSharesToCgroupV2Value F cpuShares =
     (if cpuShares = 0 then 0
      else if cpuShares \<le> 2 then 1
      else if 262144 \<le> cpuShares then 10000
      else let n = f_of_uint F;
               l = f_log2 F (n cpuShares);
               exponent = f_sub F (f_div F (f_add F (f_mul F l l) (f_mul F (n 125) l)) (n 612)) (f_div F (n 7) (n 34))
           in f_ceil_uint F (f_pow F (n 10) exponent))"

section \<open>Resources\<close>

definition convert_CPU :: "'f float64_ops \<Rightarrow> LinuxCPU \<Rightarrow> CPU" where
  "convert_CPU F cpu =
     \<lparr>cpu_Weight = map_option (ConvertCPUSharesToCgroupV2Value F) (lc_Shares cpu),
      cpu_Max = (case lc_Period cpu of Some period \<Rightarrow> NewCPUMax (lc_Quota cpu) (Some period) | None \<Rightarrow> []),
      cpu_Cpus = lc_Cpus cpu, cpu_Mems = lc_Mems cpu\<rparr>"

definition convert_Memory :: "LinuxMemory \<Rightarrow> Memory" where
  "convert_Memory m =
     \<lparr>mem_Swap = (case lm_Swap m of
         None \<Rightarrow> None
       | Some swap \<Rightarrow> (case lm_Limit m of Some l \<Rightarrow> Some (swap - l) | None \<Rightarrow> Some swap)),
      mem_Min = None, mem_Max = lm_Limit m, mem_Low = lm_Reservation m, mem_High = None, mem_OOMGroup = None\<rparr>"

text \<open>The throttle lists of a type; the map over the four types is visited in the order \<open>ord\<close>.\<close>

definition throttle_list :: "LinuxBlockIO \<Rightarrow> IOType \<Rightarrow> LinuxThrottleDevice list" where
  "throttle_list i t =
     (if t = ReadBPS then bio_ThrottleReadBpsDevice i
      else if t = WriteBPS then bio_ThrottleWriteBpsDevice i
      else if t = ReadIOPS then bio_ThrottleReadIOPSDevice i
      else if t = WriteIOPS then bio_ThrottleWriteIOPSDevice i
      else [])"

definition throttle_entries :: "LinuxBlockIO \<Rightarrow> IOType \<Rightarrow> Entry list" where
  "throttle_entries i t =
     map (\<lambda>d. \<lparr>entry_Type = t, entry_Major = td_Major d, entry_Minor = td_Minor d, entry_Rate = td_Rate d\<rparr>) (throttle_list i t)"

definition bfq_weight :: "u16 \<Rightarrow> u16" where
  "bfq_weight w = 1 + (w - 10) * 9999 div 990"

definition convert_BlockIO :: "IOType list \<Rightarrow> LinuxBlockIO \<Rightarrow> IO" where
  "convert_BlockIO ord i =
     \<lparr>io_BFQ = \<lparr>bfq_Weight = (case bio_Weight i of Some w \<Rightarrow> bfq_weight w | None \<Rightarrow> 0)\<rparr>,
      io_Max = concat (map (throttle_entries i) ord)\<rparr>"

fun convert_Rdma :: "(string \<times> LinuxRdma) list \<Rightarrow> RDMAEntry list" where
  "convert_Rdma [] = []"
| "convert_Rdma ((device, v) # ds) =
     (case (lr_HcaHandles v, lr_HcaObjects v) of
        (Some h, Some ob) \<Rightarrow>
          if device \<noteq> [] then \<lparr>rdma_Device = device, rdma_HcaHandles = h, rdma_HcaObjects = ob\<rparr> # convert_Rdma ds
          else convert_Rdma ds
      | _ \<Rightarrow> convert_Rdma ds)"

definition ToResources :: "'f float64_ops \<Rightarrow> IOType list \<Rightarrow> LinuxResources \<Rightarrow> Resources" where
  "ToResources F ord spec =
     \<lparr>res_CPU = map_option (convert_CPU F) (lx_CPU spec),
      res_Memory = map_option convert_Memory (lx_Memory spec),
      res_Pids = (case lx_Pids spec of Some (Some limit) \<Rightarrow> Some \<lparr>pids_Max = limit\<rparr> | _ \<Rightarrow> None),
      res_IO = map_option (convert_BlockIO ord) (lx_BlockIO spec),
      res_RDMA = map_option (\<lambda>m. \<lparr>rdma_Limit = convert_Rdma m\<rparr>) (lx_Rdma spec),
      res_HugeTlb = map_option (map (\<lambda>h. \<lparr>huge_PageSize = hl_Pagesize h, huge_Limit = hl_Limit h\<rparr>)) (lx_HugepageLimits spec),
      res_Devices = []\<rparr>"

section \<open>The curve in exact arithmetic\<close>

definition real_ops :: "real float64_ops" where
  "real_ops = \<lparr>f_of_uint = (\<lambda>n. real (unat n)), f_add = (+), f_sub = (-), f_mul = (*), f_div = (/),
     f_log2 = log 2, f_pow = (powr), f_ceil_uint = (\<lambda>x. of_int \<lceil>x\<rceil>)\<rparr>"

definition weight_exponent :: "real \<Rightarrow> real" where
  "weight_exponent l = (l * l + 125 * l) / 612 - 7 / 34"

lemma weight_exponent_mono: "0 \<le> l \<Longrightarrow> l \<le> m \<Longrightarrow> weight_exponent l \<le> weight_exponent m"
  unfolding weight_exponent_def by (intro diff_right_mono divide_right_mono add_mono mult_mono) auto

lemma weight_exponent_anchors: "weight_exponent 1 = 0" "weight_exponent 10 = 2" "weight_exponent 18 = 4"
  by (simp_all add: weight_exponent_def)

definition exact_weight :: "nat \<Rightarrow> int" where
  "exact_weight s = \<lceil>10 powr weight_exponent (log 2 (real s))\<rceil>"

lemma exact_weight_mono: "0 < s \<Longrightarrow> s \<le> t \<Longrightarrow> exact_weight s \<le> exact_weight t"
  unfolding exact_weight_def by (intro ceiling_mono powr_mono weight_exponent_mono) auto

lemma exact_weight_anchors: "exact_weight 2 = 1" "exact_weight 1024 = 100" "exact_weight 262144 = 10000"
proof -
  have "log 2 (real 1024) = 10" "log 2 (real 262144) = 18"
    using log_pow_cancel [of 2 10] log_pow_cancel [of 2 18] by simp_all
  then show "exact_weight 2 = 1" "exact_weight 1024 = 100" "exact_weight 262144 = 10000"
    by (simp_all add: exact_weight_def weight_exponent_anchors)
qed


lemma convert_eq_exact:
  assumes "0 < s"
  shows "ConvertCPUSharesToCgroupV2Value real_ops s = of_int (exact_weight (max 2 (min 262144 (unat s))))"
proof -
  have pos: "s \<noteq> 0" using assms by auto
  have le2: "s \<le> 2 \<longleftrightarrow> unat s \<le> 2" by (simp add: word_le_nat_alt)
  have ge: "262144 \<le> s \<longleftrightarrow> 262144 \<le> unat s" by (simp add: word_le_nat_alt)
  consider "unat s \<le> 2" | "262144 \<le> unat s" | "2 < unat s" "unat s < 262144" by linarith
  then show ?thesis
  proof cases
    case 1
    then show ?thesis using pos le2 by (simp add: ConvertCPUSharesToCgroupV2Value_def exact_weight_anchors max_def min_def)
  next
    case 2
    then have "max 2 (min 262144 (unat s)) = 262144" by simp
    then show ?thesis using pos le2 ge 2 by (simp add: ConvertCPUSharesToCgroupV2Value_def exact_weight_anchors)
  next
    case 3
    then have "max 2 (min 262144 (unat s)) = unat s" by simp
    then show ?thesis
      using pos le2 ge 3
      by (simp add: ConvertCPUSharesToCgroupV2Value_def real_ops_def exact_weight_def weight_exponent_def Let_def)
  qed
qed

lemma exact_weight_range:
  "1 \<le> exact_weight (max 2 (min 262144 n))" "exact_weight (max 2 (min 262144 n)) \<le> 10000"
  using exact_weight_mono [of 2 "max 2 (min 262144 n)"] exact_weight_mono [of "max 2 (min 262144 n)" 262144]
  by (simp_all add: exact_weight_anchors)

text \<open>C39: The conversion of CPU shares, in exact arithmetic: it maps all positive shares into the range of
  weights, 1 to 10000, never orders two shares the other way round, and maps the default to the default.\<close>

theorem cpu_shares_weight:
  assumes "0 < s" and "s \<le> t"
  shows "1 \<le> ConvertCPUSharesToCgroupV2Value real_ops s
    \<and> ConvertCPUSharesToCgroupV2Value real_ops s \<le> ConvertCPUSharesToCgroupV2Value real_ops t
    \<and> ConvertCPUSharesToCgroupV2Value real_ops t \<le> 10000
    \<and> ConvertCPUSharesToCgroupV2Value real_ops 1024 = 100"
proof -
  let ?e = "\<lambda>s :: u64. exact_weight (max 2 (min 262144 (unat s)))"
  have t: "0 < t" using assms by (rule less_le_trans)
  have st: "unat s \<le> unat t" using assms(2) by (simp add: word_le_nat_alt)
  have mono: "?e s \<le> ?e t" using st by (intro exact_weight_mono) auto
  have un: "unat (of_int (?e x) :: u64) = nat (?e x)" for x
  proof -
    have "(of_int (?e x) :: u64) = of_nat (nat (?e x))" using exact_weight_range(1) [of "unat x"] by simp
    then show ?thesis using exact_weight_range [of "unat x"] by (simp add: unat_of_nat del: of_nat_nat)
  qed
  have "ConvertCPUSharesToCgroupV2Value real_ops 1024 = 100"
    using convert_eq_exact [of 1024] exact_weight_anchors by (simp add: max_def min_def)
  then show ?thesis
    using exact_weight_range [of "unat s"] exact_weight_range [of "unat t"] mono
    unfolding convert_eq_exact [OF assms(1)] convert_eq_exact [OF t] word_le_nat_alt un by (simp add: nat_le_iff le_nat_iff)
qed

theorem cpu_shares_weight_witness: "1 \<le> ConvertCPUSharesToCgroupV2Value real_ops 512"
  using cpu_shares_weight [of 512 1024] by simp

section \<open>Where the integer conversions wrap\<close>

text \<open>The value 0, which \<open>ConvertCPUSharesToCgroupV2Value\<close> returns for shares that are not set, is not left out
  by \<open>ToResources\<close>: it is written to cpu.weight.\<close>

theorem zero_shares_written:
  assumes "lx_CPU spec = Some cpu" and "lc_Shares cpu = Some 0"
  shows "\<lparr>filename = ''cpu.weight'', contents = VUint64 0\<rparr> \<in> set (Resources_Values (ToResources F ord spec))"
  using assms
  by (simp add: Resources_Values_def ToResources_def opt_list_def convert_CPU_def CPU_Values_def ConvertCPUSharesToCgroupV2Value_def)

text \<open>The BFQ weight is computed in 16 bits: whatever the v1 weight, 10 to 1000, the result is at most
  67, and the largest weight 1000, which stands for 10000, comes out as 4.\<close>

theorem bfq_weight_wraps:
  "bfq_weight w \<le> 67 \<and> bfq_weight 1000 = 4 \<and> bfq_weight 100 = 49"
proof -
  have "unat ((w - 10) * 9999) < 65536" using unsigned_less [of "(w - 10) * 9999", where ?'a = nat] by simp
  then have le: "unat ((w - 10) * 9999 div 990) \<le> 66" by (simp add: unat_div)
  then have "unat (1 + (w - 10) * 9999 div 990) = 1 + unat ((w - 10) * 9999 div 990)"
    by (simp add: unat_word_ariths)
  then have "unat (bfq_weight w) \<le> unat (67 :: u16)" using le by (simp add: bfq_weight_def)
  then have "bfq_weight w \<le> 67" by (simp only: word_le_nat_alt)
  moreover have "bfq_weight 1000 = 4" "bfq_weight 100 = 49" by (simp_all add: bfq_weight_def)
  ultimately show ?thesis by simp
qed

text \<open>The v2 swap limit is the v1 limit of memory and swap together less the memory limit, without
  overflow when both are set and ordered; but the v1 value -1 for no limit becomes the negative number
  -1 - limit.\<close>

theorem convert_memory_swap:
  assumes "lm_Swap m = Some s" and "lm_Limit m = Some l" and "0 \<le> sint l"
  shows "\<exists>x. mem_Swap (convert_Memory m) = Some x \<and> mem_Max (convert_Memory m) = Some l \<and>
    (sint l \<le> sint s \<longrightarrow> sint x = sint s - sint l) \<and> (s = - 1 \<longrightarrow> sint x = - 1 - sint l)"
proof -
  have b: "- (2 ^ 63) \<le> sint s" "sint s < 2 ^ 63" "sint l < 2 ^ 63"
    using sint_ge [of s] sint_lt [of s] sint_lt [of l] by simp_all
  have sub: "sint (s - l) = sint s - sint l" if "- (2 ^ 63) \<le> sint s - sint l"
  proof -
    have "s - l = of_int (sint s - sint l)" by simp
    then show ?thesis using that b assms(3) by (simp only: signed_of_int) (simp add: signed_take_bit_int_eq_self)
  qed
  have "sint l \<le> sint s \<longrightarrow> sint (s - l) = sint s - sint l" using sub by simp
  moreover have "sint (s - l) = - 1 - sint l" if "s = - 1"
  proof -
    have "sint s = - 1" using that by simp
    then show ?thesis using sub b by linarith
  qed
  ultimately show ?thesis using assms by (simp add: convert_Memory_def)
qed

theorem convert_memory_swap_witness:
  "\<exists>x. mem_Swap (convert_Memory \<lparr>lm_Limit = Some 4096, lm_Reservation = None, lm_Swap = Some (- 1), lm_Kernel = None,
     lm_KernelTCP = None, lm_Swappiness = None, lm_DisableOOMKiller = None\<rparr>) = Some x \<and> sint x = - 4097"
  using convert_memory_swap [of "\<lparr>lm_Limit = Some 4096, lm_Reservation = None, lm_Swap = Some (- 1), lm_Kernel = None,
     lm_KernelTCP = None, lm_Swappiness = None, lm_DisableOOMKiller = None\<rparr>" "- 1" 4096] by auto

text \<open>The io limits do not depend on the order in which Go visits the map of throttle types: every order
  gives the same limits, each as often as it occurs in the specification.\<close>

theorem throttle_order_independent:
  assumes "mset ord1 = mset ord2"
  shows "mset (io_Max (convert_BlockIO ord1 i)) = mset (io_Max (convert_BlockIO ord2 i))"
proof -
  have "mset (io_Max (convert_BlockIO ord i)) = \<Sum>\<^sub># (image_mset (\<lambda>t. mset (throttle_entries i t)) (mset ord))" for ord
    by (induction ord) (simp_all add: convert_BlockIO_def)
  then show ?thesis using assms by simp
qed

theorem throttle_order_independent_witness:
  "mset (io_Max (convert_BlockIO [ReadBPS, WriteBPS] \<lparr>bio_Weight = None, bio_LeafWeight = None, bio_WeightDevice = [],
      bio_ThrottleReadBpsDevice = [], bio_ThrottleWriteBpsDevice = [], bio_ThrottleReadIOPSDevice = [],
      bio_ThrottleWriteIOPSDevice = []\<rparr>))
    = mset (io_Max (convert_BlockIO [WriteBPS, ReadBPS] \<lparr>bio_Weight = None, bio_LeafWeight = None, bio_WeightDevice = [],
      bio_ThrottleReadBpsDevice = [], bio_ThrottleWriteBpsDevice = [], bio_ThrottleReadIOPSDevice = [],
      bio_ThrottleWriteIOPSDevice = []\<rparr>))"
  by (rule throttle_order_independent) simp

end
