(* ===== verification/V2Systemd.thy ===== *)
theory V2Systemd
  imports V2Manager
begin

text \<open>
  The systemd side of \<open>cgroup2/manager.go\<close>: \<open>NewSystemd\<close>, \<open>startUnit\<close>, \<open>systemdVersion\<close>,
  \<open>LoadSystemd\<close>, \<open>DeleteSystemd\<close> and \<open>isUnitExists\<close> of \<open>utils.go\<close>. The D-Bus connection (the packages
  \<open>go-systemd\<close> and \<open>godbus\<close>) is a parameter; the package variables \<open>canDelegate\<close>, \<open>version\<close> and
  \<open>versionOnce\<close> are a state beside that of the system. The locale \<open>unit_manager\<close> states what systemd
  promises for a transient unit, and a list of units interprets it. Log messages are left out.
\<close>

section \<open>The connection\<close>

datatype variant = VarBool bool | VarUint64 u64 | VarPids "u32 list"

datatype sd_property =
    SdDescription string
  | SdWants string
  | SdSlice string
  | SdProperty string variant

record 'w systemd =
  sd_connect :: "'w \<Rightarrow> gerror option \<times> 'w"
  sd_close :: "'w \<Rightarrow> 'w"
  sd_start :: "string \<Rightarrow> string \<Rightarrow> sd_property list \<Rightarrow> 'w \<Rightarrow> gerror option \<times> 'w"
    \<comment> \<open>\<open>StartTransientUnitContext\<close>\<close>
  sd_status :: "'w \<Rightarrow> string option \<times> 'w"
    \<comment> \<open>the message of the job that comes within 30 seconds, if one comes\<close>
  sd_reset :: "string \<Rightarrow> 'w \<Rightarrow> gerror option \<times> 'w"
    \<comment> \<open>\<open>ResetFailedUnitContext\<close>\<close>
  sd_stop :: "string \<Rightarrow> string \<Rightarrow> 'w \<Rightarrow> gerror option \<times> 'w"
    \<comment> \<open>\<open>StopUnitContext\<close>\<close>
  sd_stopped :: "'w \<Rightarrow> 'w option"
    \<comment> \<open>waiting for the end of the stop job, which may never come\<close>
  sd_version :: "'w \<Rightarrow> gerror + string"
    \<comment> \<open>\<open>GetManagerProperty("Version")\<close>\<close>
  sd_error_name :: "gerror \<Rightarrow> string option"
    \<comment> \<open>the name of an error that is a \<open>dbus.Error\<close>\<close>

definition newSystemdProperty :: "string \<Rightarrow> variant \<Rightarrow> sd_property" where
  "newSystemdProperty name units = SdProperty name units"

definition isUnitExists :: "'w systemd \<Rightarrow> gerror option \<Rightarrow> bool" where
  "isUnitExists sd err = (case err of
     None \<Rightarrow> False
   | Some e \<Rightarrow> (case sd_error_name sd e of
       Some name \<Rightarrow> contains name ''org.freedesktop.systemd1.UnitExists'' | None \<Rightarrow> False))"

text \<open>The package variables beside the system: \<open>canDelegate\<close>, and \<open>version\<close> once \<open>versionOnce\<close> has run.\<close>

record 'w pkg =
  pk_canDelegate :: bool
  pk_version :: "i64 option"
  pk_system :: 'w

definition on_system :: "('w \<Rightarrow> 'a \<times> 'w) \<Rightarrow> 'w pkg \<Rightarrow> 'a \<times> 'w pkg" where
  "on_system f p = (case f (pk_system p) of (r, w) \<Rightarrow> (r, p\<lparr>pk_system := w\<rparr>))"

text \<open>\<open>defer conn.Close()\<close>\<close>

definition closing :: "'w systemd \<Rightarrow> ('w pkg, 'a) go \<Rightarrow> ('w pkg, 'a) go" where
  "closing sd m p = (case m p of (r, p1) \<Rightarrow> (r, p1\<lparr>pk_system := sd_close sd (pk_system p1)\<rparr>))"

section \<open>Starting a unit\<close>

definition attemptFailedUnitReset :: "'w systemd \<Rightarrow> string \<Rightarrow> 'w \<Rightarrow> 'w" where
  "attemptFailedUnitReset sd grp w = ignoring (sd_reset sd grp) w"

text \<open>The loop of \<open>startUnit\<close>: whether the unit was started, or was found and may exist.\<close>

function start_loop :: "'w systemd \<Rightarrow> string \<Rightarrow> sd_property list \<Rightarrow> bool \<Rightarrow> bool \<Rightarrow> ('w, bool) go" where
  "start_loop sd grp properties ignoreExists retry w = (case sd_start sd grp ''replace'' properties w of
     (None, w1) \<Rightarrow> (Ok True, w1)
   | (Some e, w1) \<Rightarrow>
       if \<not> isUnitExists sd (Some e) then (Err e, w1)
       else if ignoreExists then (Ok False, w1)
       else if retry then start_loop sd grp properties ignoreExists False (attemptFailedUnitReset sd grp w1)
       else (Err e, w1))"
  by pat_completeness auto

termination
  by (relation "measure (\<lambda>(sd, grp, properties, ignoreExists, retry, w). if retry then 1 else 0)") auto

declare start_loop.simps [simp del]

definition startUnit :: "'w systemd \<Rightarrow> string \<Rightarrow> sd_property list \<Rightarrow> bool \<Rightarrow> ('w, unit) go" where
  "startUnit sd grp properties ignoreExists = bnd (start_loop sd grp properties ignoreExists True) (\<lambda>started.
     if \<not> started then ret ()
     else (\<lambda>w. case sd_status sd w of
         (Some s, w1) \<Rightarrow>
           if s \<noteq> ''done''
           then (Err (ErrMsg (''error creating systemd unit `'' @ grp @ ''`: got `'' @ s @ ''`'')), attemptFailedUnitReset sd grp w1)
           else (Ok (), w1)
       | (None, w1) \<Rightarrow>
           (Err (ErrMsg (''timed out while waiting for StartTransientUnit('' @ grp @ '') completion signal from dbus after 30s'')),
            attemptFailedUnitReset sd grp w1)))"

section \<open>The properties of a unit\<close>

definition cpuQuotaPeriodUSecSupportedVersion :: int where "cpuQuotaPeriodUSecSupportedVersion = 242"

text \<open>The version is asked for once; it is -1 when it cannot be read.\<close>

definition systemdVersion :: "'w systemd \<Rightarrow> 'w pkg \<Rightarrow> i64 \<times> 'w pkg" where
  "systemdVersion sd p = (case pk_version p of
     Some v \<Rightarrow> (v, p)
   | None \<Rightarrow> (let v = (case sd_version sd (pk_system p) of
         Inl e \<Rightarrow> - 1
       | Inr s \<Rightarrow> (case systemdVersionAtoi s of Ok v \<Rightarrow> v | _ \<Rightarrow> - 1))
     in (v, p\<lparr>pk_version := Some v\<rparr>)))"

text \<open>The quota per second in microseconds, rounded up to one percent of a CPU; an integer division by zero
  panics.\<close>

definition cpuQuotaPerSecUSec :: "i64 \<Rightarrow> u64 \<Rightarrow> u64 outcome" where
  "cpuQuotaPerSecUSec quota period =
     (if 0 < sint quota then
        (if period = 0 then Panic
         else (let q = (quota * 1000000) div period
           in Ok (if q mod 10000 \<noteq> 0 then (q div 10000 + 1) * 10000 else q)))
      else Ok (2 ^ 64 - 1))"

definition cpu_max_properties :: "'w systemd \<Rightarrow> CPUMax \<Rightarrow> ('w pkg, sd_property list) go" where
  "cpu_max_properties sd mx = bnd (lift_out (extractQuotaAndPeriod mx)) (\<lambda>(quota, period).
     bnd (if period \<noteq> 0
          then (\<lambda>p. case systemdVersion sd p of (sdVer, p1) \<Rightarrow>
            (Ok (if cpuQuotaPeriodUSecSupportedVersion \<le> sint sdVer
                 then [newSystemdProperty ''CPUQuotaPeriodUSec'' (VarUint64 period)] else []), p1))
          else ret [])
       (\<lambda>periods. bnd (lift_out (cpuQuotaPerSecUSec quota period)) (\<lambda>q.
         ret (periods @ [newSystemdProperty ''CPUQuotaPerSecUSec'' (VarUint64 q)]))))"

definition base_properties :: "string \<Rightarrow> i64 \<Rightarrow> sd_property list" where
  "base_properties grp pid =
     [SdDescription (''cgroup '' @ grp), newSystemdProperty ''DefaultDependencies'' (VarBool False),
      newSystemdProperty ''MemoryAccounting'' (VarBool True), newSystemdProperty ''CPUAccounting'' (VarBool True),
      newSystemdProperty ''IOAccounting'' (VarBool True)] @
     (if has_suffix grp ''.slice'' then [SdWants defaultSlice] else [SdSlice defaultSlice]) @
     (if pid \<noteq> - 1 then [newSystemdProperty ''PIDs'' (VarPids [ucast pid])] else [])"

definition nonzero_property :: "string \<Rightarrow> u64 option \<Rightarrow> sd_property list" where
  "nonzero_property name v = (case v of
     Some n \<Rightarrow> if n \<noteq> 0 then [newSystemdProperty name (VarUint64 n)] else [] | None \<Rightarrow> [])"

definition memory_properties :: "Resources \<Rightarrow> sd_property list" where
  "memory_properties r = (case res_Memory r of
     None \<Rightarrow> []
   | Some m \<Rightarrow> nonzero_property ''MemoryMin'' (mem_Min m) @ nonzero_property ''MemoryMax'' (mem_Max m))"

definition pids_properties :: "Resources \<Rightarrow> sd_property list" where
  "pids_properties r = (case res_Pids r of
     None \<Rightarrow> []
   | Some l \<Rightarrow> if 0 < sint (pids_Max l)
       then [newSystemdProperty ''TasksAccounting'' (VarBool True), newSystemdProperty ''TasksMax'' (VarUint64 (pids_Max l))]
       else [])"

definition unit_properties :: "'w systemd \<Rightarrow> string \<Rightarrow> i64 \<Rightarrow> Resources \<Rightarrow> ('w pkg, sd_property list) go" where
  "unit_properties sd grp pid r =
     bnd (case res_CPU r of
            None \<Rightarrow> ret []
          | Some cpu \<Rightarrow>
              bnd (if cpu_Max cpu \<noteq> [] then cpu_max_properties sd (cpu_Max cpu) else ret []) (\<lambda>maxs.
                ret (nonzero_property ''CPUWeight'' (cpu_Weight cpu) @ maxs)))
       (\<lambda>cpus p. (Ok (base_properties grp pid @ memory_properties r @ cpus @
          (if pk_canDelegate p then [newSystemdProperty ''Delegate'' (VarBool True)] else []) @ pids_properties r), p))"

section \<open>Creating, loading and deleting\<close>

definition NewSystemd :: "'w systemd \<Rightarrow> string \<Rightarrow> string \<Rightarrow> i64 \<Rightarrow> Resources option \<Rightarrow> ('w pkg, Manager) go" where
  "NewSystemd sd slc grp pid resources =
     (let slc1 = (if slc = [] then defaultSlice else slc); path = getSystemdFullPath slc1 grp
      in seqn (sys (on_system (sd_connect sd))) (closing sd
           (case resources of
              None \<Rightarrow> (\<lambda>p. (Panic, p))
            | Some r \<Rightarrow> bnd (unit_properties sd grp pid r) (\<lambda>properties.
                seqn (on_system (startUnit sd grp properties (pid = - 1)))
                  (ret \<lparr>unifiedMountpoint = [], mgr_path = path\<rparr>)))))"

definition LoadSystemd :: "string \<Rightarrow> string \<Rightarrow> Manager" where
  "LoadSystemd slc grp =
     (let slc1 = (if slc = [] then defaultSlice else slc)
      in \<lparr>unifiedMountpoint = [], mgr_path = getSystemdFullPath slc1 grp\<rparr>)"

text \<open>The wait for the stop job may last forever (\<open>None\<close>); its result is not looked at.\<close>

definition DeleteSystemd :: "'w systemd \<Rightarrow> Manager \<Rightarrow> 'w \<Rightarrow> (unit outcome \<times> 'w) option" where
  "DeleteSystemd sd c w = (case sd_connect sd w of
     (Some e, w1) \<Rightarrow> Some (Err e, w1)
   | (None, w1) \<Rightarrow> (case sd_stop sd (systemdUnitFromPath (mgr_path c)) ''replace'' w1 of
       (Some e, w2) \<Rightarrow> Some (Err e, sd_close sd w2)
     | (None, w2) \<Rightarrow> map_option (\<lambda>w3. (Ok (), sd_close sd w3)) (sd_stopped sd w2)))"

section \<open>What systemd promises for a transient unit\<close>

text \<open>A unit is loaded from its start until it is stopped, or until it has failed and its failure is reset.\<close>

locale unit_manager =
  fixes sd :: "'w systemd" and present :: "string \<Rightarrow> 'w \<Rightarrow> bool" and failed :: "string \<Rightarrow> 'w \<Rightarrow> bool"
  assumes start_loaded: "present u w \<Longrightarrow> \<exists>e. sd_start sd u ''replace'' ps w = (Some e, w) \<and> isUnitExists sd (Some e)"
    and start_new: "\<not> present u w \<Longrightarrow> \<exists>w1. sd_start sd u ''replace'' ps w = (None, w1) \<and> present u w1"
    and reset_failed: "present u w \<Longrightarrow> present u (snd (sd_reset sd u w)) \<longleftrightarrow> \<not> failed u w"
begin

lemma loop_new: "\<not> present u w \<Longrightarrow> \<exists>w1. start_loop sd u ps ign retry w = (Ok True, w1) \<and> present u w1"
  using start_new [of u w ps] by (auto simp: start_loop.simps)

lemma loop_ignored: "present u w \<Longrightarrow> start_loop sd u ps True retry w = (Ok False, w)"
  using start_loaded [of u w ps] by (auto simp: start_loop.simps)

lemma loop_given_up: "present u w \<Longrightarrow> \<exists>e. start_loop sd u ps False False w = (Err e, w) \<and> isUnitExists sd (Some e)"
  using start_loaded [of u w ps] by (auto simp: start_loop.simps)

lemma loop_retry:
  "present u w \<Longrightarrow> start_loop sd u ps False True w = start_loop sd u ps False False (snd (sd_reset sd u w))"
  using start_loaded [of u w ps]
  by (subst start_loop.simps) (auto simp: attemptFailedUnitReset_def ignoring_def)

text \<open>A unit that exists is accepted, replaced or reported.\<close>

lemma startUnit_existing:
  assumes "present u w"
  shows "startUnit sd u ps True w = (Ok (), w)"
    and "failed u w \<Longrightarrow> \<exists>w1. start_loop sd u ps False True w = (Ok True, w1) \<and> present u w1"
    and "\<not> failed u w \<Longrightarrow> \<exists>e. startUnit sd u ps False w = (Err e, snd (sd_reset sd u w)) \<and> isUnitExists sd (Some e)"
proof -
  show "startUnit sd u ps True w = (Ok (), w)"
    using loop_ignored [OF assms] by (simp add: startUnit_def bnd_def)
  show "\<exists>w1. start_loop sd u ps False True w = (Ok True, w1) \<and> present u w1" if "failed u w"
    unfolding loop_retry [OF assms] using reset_failed [OF assms] that loop_new by blast
  show "\<exists>e. startUnit sd u ps False w = (Err e, snd (sd_reset sd u w)) \<and> isUnitExists sd (Some e)" if "\<not> failed u w"
  proof -
    have "present u (snd (sd_reset sd u w))" using reset_failed [OF assms] that by simp
    then obtain e where "start_loop sd u ps False False (snd (sd_reset sd u w)) = (Err e, snd (sd_reset sd u w))"
        "isUnitExists sd (Some e)"
      using loop_given_up by blast
    then show ?thesis by (auto simp: startUnit_def bnd_def loop_retry [OF assms])
  qed
qed

end

text \<open>A list of units, each with the mark whether it has failed.\<close>

definition list_systemd :: "(string \<times> bool) list systemd" where
  "list_systemd = \<lparr>sd_connect = (\<lambda>w. (None, w)), sd_close = (\<lambda>w. w),
     sd_start = (\<lambda>u m ps w. if map_of w u = None then (None, (u, False) # w) else (Some (ErrMsg ''exists''), w)),
     sd_status = (\<lambda>w. (Some ''done'', w)),
     sd_reset = (\<lambda>u w. if map_of w u = Some True then (None, filter (\<lambda>x. fst x \<noteq> u) w) else (Some (ErrMsg ''not failed''), w)),
     sd_stop = (\<lambda>u m w. if map_of w u = None then (Some (ErrMsg ''not loaded''), w) else (None, filter (\<lambda>x. fst x \<noteq> u) w)),
     sd_stopped = Some,
     sd_version = (\<lambda>w. Inr ''v255''),
     sd_error_name = (\<lambda>e. if e = ErrMsg ''exists'' then Some ''org.freedesktop.systemd1.UnitExists'' else None)\<rparr>"

lemma map_of_filter_key: "map_of (filter (\<lambda>x. fst x \<noteq> k) xs) k = None"
  by (induction xs) auto

interpretation list_units: unit_manager list_systemd "\<lambda>u w. map_of w u \<noteq> None" "\<lambda>u w. map_of w u = Some True"
proof (unfold_locales, goal_cases)
  case (1 u w ps)
  have "contains ''org.freedesktop.systemd1.UnitExists'' ''org.freedesktop.systemd1.UnitExists''" by code_simp
  then show ?case using 1 by (auto simp: list_systemd_def isUnitExists_def)
next
  case (2 u w ps)
  then show ?case by (auto simp: list_systemd_def)
next
  case (3 u w)
  then show ?case by (simp add: list_systemd_def map_of_filter_key)
qed

section \<open>Properties\<close>



lemma round_up:
  assumes "n mod 10000 \<noteq> (0 :: nat)"
  shows "n \<le> (n div 10000 + 1) * 10000 \<and> (n div 10000 + 1) * 10000 < n + 10000"
proof -
  define q r where "q = n div 10000" and "r = n mod 10000"
  then have "q * 10000 + r = n" "r < 10000" "0 < r" using assms by simp_all
  then show ?thesis unfolding q_def [symmetric] by simp
qed



text \<open>The quota "max" is not passed on as unbounded: it is read as the largest 64-bit number, the product
  with a million wraps around, and systemd gets a finite quota of 184467440740000 microseconds per second.\<close>

theorem max_quota_wraps:
  "extractQuotaAndPeriod (NewCPUMax None None) = Ok (2 ^ 63 - 1, 100000)
    \<and> cpuQuotaPerSecUSec (2 ^ 63 - 1) 100000 = Ok 184467440740000"
proof
  have "ParseUint ''100000'' 64 = (100000, None)"
    by (subst ParseUint_digits) (simp_all add: is_digit_def digit_val_def dec_value_def bit_size_def)
  then show "extractQuotaAndPeriod (NewCPUMax None None) = Ok (2 ^ 63 - 1, 100000)"
    by (simp add: extractQuotaAndPeriod_def NewCPUMax_def defaultCPUMax_def defaultCPUMaxPeriodStr_def num_out_def to_lower_def lower_char_def)
  show "cpuQuotaPerSecUSec (2 ^ 63 - 1) 100000 = Ok 184467440740000"
    by (simp add: cpuQuotaPerSecUSec_def Let_def)
qed

text \<open>A positive quota with the period 0 makes NewSystemd panic: the period is checked before it is handed to
  systemd as such, but not before the division.\<close>

theorem new_systemd_zero_period_panics:
  assumes "sd_connect sd (pk_system p) = (None, wc)" and "res_CPU r = Some cpu" and "cpu_Max cpu \<noteq> []"
    and "extractQuotaAndPeriod (cpu_Max cpu) = Ok (quota, 0)" and "0 < sint quota"
  shows "NewSystemd sd slc grp pid (Some r) p = (Panic, p\<lparr>pk_system := sd_close sd wc\<rparr>)"
proof -
  have "unit_properties sd grp pid r (p\<lparr>pk_system := wc\<rparr>) = (Panic, p\<lparr>pk_system := wc\<rparr>)"
    using assms by (simp add: unit_properties_def bnd_def cpu_max_properties_def cpuQuotaPerSecUSec_def)
  then show ?thesis
    using assms(1) by (simp add: NewSystemd_def Let_def seqn_def bnd_def sys_def on_system_def closing_def)
qed

theorem new_systemd_zero_period_panics_witness:
  "NewSystemd list_systemd [] ''a.slice'' (- 1)
     (Some \<lparr>res_CPU = Some \<lparr>cpu_Weight = None, cpu_Max = NewCPUMax (Some 1000) (Some 0), cpu_Cpus = [], cpu_Mems = []\<rparr>, res_Memory = None,
        res_Pids = None, res_IO = None, res_RDMA = None, res_HugeTlb = None, res_Devices = []\<rparr>)
     \<lparr>pk_canDelegate = False, pk_version = None, pk_system = []\<rparr> =
   (Panic, \<lparr>pk_canDelegate = False, pk_version = None, pk_system = []\<rparr>)"
proof -
  have "extractQuotaAndPeriod ''1000 0'' = Ok (1000, 0)"
    by (simp add: extractQuotaAndPeriod_def to_lower_def lower_char_def num_out_def defaultCPUMax_def parse_eval)
  moreover have "NewCPUMax (Some 1000) (Some 0) = ''1000 0''"
    by (simp add: NewCPUMax_def print_eval)
  ultimately show ?thesis
    using new_systemd_zero_period_panics [where quota = 1000 and wc = "[]" and sd = list_systemd
        and p = "\<lparr>pk_canDelegate = False, pk_version = None, pk_system = []\<rparr>"
        and cpu = "\<lparr>cpu_Weight = None, cpu_Max = NewCPUMax (Some 1000) (Some 0), cpu_Cpus = [], cpu_Mems = []\<rparr>"]
    by (simp add: list_systemd_def)
qed

lemma NewSystemd_slice:
  "NewSystemd sd slc2 grp pid resources p = (case NewSystemd sd slc1 grp pid resources p of
     (Ok _, p1) \<Rightarrow> (Ok (LoadSystemd slc2 grp), p1) | (Err e, p1) \<Rightarrow> (Err e, p1) | (Panic, p1) \<Rightarrow> (Panic, p1))"
  by (simp add: NewSystemd_def LoadSystemd_def Let_def seqn_def bnd_def sys_def closing_def split: prod.split outcome.split option.split)

text \<open>The slice that NewSystemd is given decides the path of the returned group and nothing else: systemd gets
  the same request whatever it is, with the parent system.slice, so for another slice the unit is not where
  the path says.\<close>

theorem new_systemd_ignores_slice:
  assumes "NewSystemd sd slc1 grp pid resources p = (Ok m, p1)"
  shows "m = LoadSystemd slc1 grp \<and> NewSystemd sd slc2 grp pid resources p = (Ok (LoadSystemd slc2 grp), p1)"
  using NewSystemd_slice [of sd slc1 grp pid resources p slc1] NewSystemd_slice [of sd slc2 grp pid resources p slc1] assms by simp

definition no_limits :: Resources where
  "no_limits = \<lparr>res_CPU = None, res_Memory = None, res_Pids = None, res_IO = None, res_RDMA = None, res_HugeTlb = None, res_Devices = []\<rparr>"

theorem new_systemd_ignores_slice_witness:
  "\<exists>p1. NewSystemd list_systemd ''a.slice'' ''b'' 7 (Some no_limits) \<lparr>pk_canDelegate = False, pk_version = None, pk_system = []\<rparr> = (Ok (LoadSystemd ''a.slice'' ''b''), p1)
    \<and> NewSystemd list_systemd ''c.slice'' ''b'' 7 (Some no_limits) \<lparr>pk_canDelegate = False, pk_version = None, pk_system = []\<rparr> = (Ok (LoadSystemd ''c.slice'' ''b''), p1)"
proof -
  let ?p = "\<lparr>pk_canDelegate = False, pk_version = None, pk_system = []\<rparr>"
  obtain m p1 where "NewSystemd list_systemd ''a.slice'' ''b'' 7 (Some no_limits) ?p = (Ok m, p1)"
    by (simp add: NewSystemd_def Let_def seqn_def bnd_def sys_def on_system_def closing_def no_limits_def unit_properties_def
        startUnit_def start_loop.simps list_systemd_def)
  from this new_systemd_ignores_slice [OF this, of "''c.slice''"] show ?thesis by blast
qed

section \<open>Unit names and paths\<close>

lemma slice_unit_proper:
  assumes "CHR ''/'' \<notin> set s" and "s = join (take (Suc i) parts) ''-''" and "has_suffix s ''.slice'' \<Longrightarrow> proper s"
  shows "proper (slice_unit parts i)"
  using assms slice_not_dots [of s] by (auto simp: slice_unit_def Let_def proper_def)

lemma suffix_slice_proper: "has_suffix s ''.slice'' \<Longrightarrow> CHR ''/'' \<notin> set s \<Longrightarrow> proper s"
  by (auto simp: has_suffix_def proper_def)

lemma split_part_chars: "p \<in> set (split d s) \<Longrightarrow> set p \<subseteq> set s"
proof (induction s arbitrary: p)
  case (Cons c s)
  then show ?case by (cases "split d s") (fastforce split: if_splits)+
qed auto

text \<open>The path of a unit ends with its name.\<close>

lemma dashesToPath_last:
  assumes "proper g"
  shows "\<exists>cs. proper_path (cs @ [g]) \<and> dashesToPath g = join (cs @ [g]) ''/''"
proof (cases "has_suffix g ''.slice'' \<and> contains g ''-''")
  case True
  let ?ps = "split CHR ''-'' g"
  have slash: "CHR ''/'' \<notin> set (join (take (Suc i) ?ps) ''-'')" for i
  proof -
    have "CHR ''/'' \<notin> set p" if "p \<in> set ?ps" for p
      using split_part_chars [OF that] assms by (auto simp: proper_def)
    then show ?thesis using set_join [of "take (Suc i) ?ps" "''-''"] by (auto dest!: set_take_subset [THEN subsetD])
  qed
  then have all: "proper_path (map (slice_unit ?ps) [0..<length ?ps])"
    using slice_unit_proper [OF _ refl] suffix_slice_proper by (auto simp: list_all_iff)
  obtain n where n: "length ?ps = Suc n" by (cases "length ?ps") auto
  have "slice_unit ?ps n = g" using True n by (simp add: slice_unit_def)
  then have "map (slice_unit ?ps) [0..<length ?ps] = map (slice_unit ?ps) [0..<n] @ [g]" using n by simp
  then show ?thesis using True all fold_path_join [OF all] by (auto simp: dashesToPath_def Let_def)
next
  case False
  then have "dashesToPath g = g" using assms path_join_rel [of "[]" g] by (auto simp: dashesToPath_def)
  then show ?thesis using assms by (intro exI [of _ "[]"]) simp
qed

lemma join_append_ne: "xs \<noteq> [] \<Longrightarrow> ys \<noteq> [] \<Longrightarrow> join (xs @ ys) sep = join xs sep @ sep @ join ys sep"
  by (induction xs sep rule: join.induct) (auto simp: neq_Nil_conv)

lemma snoc_not_Nil: "xs @ [x] \<noteq> []"
  by simp

lemma path_join_pair: "p \<noteq> [] \<Longrightarrow> path_join [p, a, b] = path_join [p, a @ ''/'' @ b]"
  by (simp add: path_join_def)

text \<open>C35: The unit that DeleteSystemd stops is the one that the group was loaded for: its name is the last element
  of the path, also when a name with dashes stands for a chain of slices.\<close>

theorem systemd_unit_roundtrip:
  assumes "proper grp" and "slc = [] \<or> proper slc"
  shows "systemdUnitFromPath (mgr_path (LoadSystemd slc grp)) = grp"
proof -
  let ?s = "if slc = [] then defaultSlice else slc"
  have "proper ?s" using assms(2) by (auto simp: defaultSlice_def proper_def)
  then obtain as where s: "proper_path (as @ [?s])" "dashesToPath ?s = join (as @ [?s]) ''/''" using dashesToPath_last by blast
  obtain bs where g: "proper_path (bs @ [grp])" "dashesToPath grp = join (bs @ [grp]) ''/''" using dashesToPath_last assms(1) by blast
  have split: "split CHR ''/'' (join cs ''/'') = cs" if "proper_path cs" "cs \<noteq> []" for cs
    using that by (intro split_join) (auto simp: proper_def list_all_iff)
  let ?d = "[''sys'', ''fs'', ''cgroup'']"
  have d: "proper_path ?d" "defaultCgroup2Path = abs_path ?d" by (simp_all add: proper_def defaultCgroup2Path_def render_path_def)
  have "path_join [defaultCgroup2Path, join (as @ [?s]) ''/'', join (bs @ [grp]) ''/''] =
      path_join [abs_path ?d, join ((as @ [?s]) @ (bs @ [grp])) ''/'']"
    unfolding d(2) join_append_ne [OF snoc_not_Nil snoc_not_Nil] by (rule path_join_pair) simp
  also have "\<dots> = abs_path ((?d @ as @ [?s] @ bs) @ [grp])"
    using path_join_abs [OF d(1), of "join ((as @ [?s]) @ (bs @ [grp])) ''/''"] s(1) g(1) d(1) split [of "(as @ [?s]) @ (bs @ [grp])"]
    by (simp add: clean_comps_proper)
  finally have "getSystemdFullPath ?s grp = abs_path ((?d @ as @ [?s] @ bs) @ [grp])"
    by (simp add: getSystemdFullPath_def s(2) g(2))
  moreover have "snd (path_split (abs_path (cs @ [grp]))) = grp" for cs
    using assms(1) by (intro path_split_abs_path) (simp add: proper_def)
  ultimately show ?thesis by (simp only: LoadSystemd_def Let_def systemdUnitFromPath_def Manager.select_convs)
qed

theorem systemd_unit_roundtrip_witness:
  "systemdUnitFromPath (mgr_path (LoadSystemd ''a-b.slice'' ''my-group.slice'')) = ''my-group.slice''"
  by (rule systemd_unit_roundtrip) (simp_all add: proper_def)

end
