(* ===== verification/Descriptors.thy ===== *)
theory Descriptors
  imports GoOS
begin

text \<open>
  The directory tree in memory together with a list of the open file descriptors: the example system of the
  theories on memory events (V1Events, V2Events), which interpret their contracts on it.
\<close>

text \<open>The other operations are those of the tree; a new descriptor is larger than all that are open.\<close>

definition on_tree :: "(memfs \<Rightarrow> 'a \<times> memfs) \<Rightarrow> memfs \<times> nat list \<Rightarrow> 'a \<times> memfs \<times> nat list" where
  "on_tree f w = (case f (fst w) of (r, m) \<Rightarrow> (r, m, snd w))"

definition fd_os :: "(memfs \<times> nat list) os" where
  "fd_os = \<lparr>os_open = (\<lambda>p w. mem_open p (fst w)), os_write_file = (\<lambda>p d. on_tree (mem_write_file p d)),
     os_open_file = (\<lambda>c p. on_tree (mem_open_file c p)), os_fd_write = (\<lambda>p d. on_tree (mem_fd_write p d)),
     os_mkdir_all = (\<lambda>p. on_tree (mem_mkdir_all p)), os_remove = (\<lambda>p. on_tree (mem_remove p)),
     os_remove_all = (\<lambda>p. on_tree (mem_remove_all p)), os_tree = (\<lambda>p w. mem_tree p (fst w)), os_sleep = (\<lambda>_ w. w)\<rparr>"

definition new_fd :: "memfs \<times> nat list \<Rightarrow> nat" where
  "new_fd w = Suc (sum_list (snd w))"

lemma new_fd_fresh: "new_fd w \<notin> set (snd w)"
  using member_le_sum_list [of "new_fd w" "snd w"] by (auto simp: new_fd_def)

end
