(* ===== verification/V2Events.thy ===== *)
theory V2Events
  imports V2ManagerFacts Descriptors
begin

text \<open>
  Watching a group of \<open>cgroup2\<close> for memory events: \<open>MemoryEventFD\<close>, \<open>memoryEventNonBlockFD\<close> and \<open>EventChan\<close>
  with its goroutine, its descriptor and its two channels. The three inotify calls are a parameter; the locale
  \<open>inotify_fds\<close> states what they do to the set of open descriptors. The goroutine is an inductive step relation
  in which its consumer and the rest of the system take steps at any time. It refines the rounds of theory
  V2Manager, and the lemmas show what its two channels carry and what becomes of the descriptor.
\<close>

section \<open>The interface\<close>

record 'w inotify =
  in_init :: "u32 \<Rightarrow> 'w \<Rightarrow> (gerror + nat) \<times> 'w"
    \<comment> \<open>\<open>unix.InotifyInit1\<close>: a new descriptor\<close>
  in_watch :: "nat \<Rightarrow> string \<Rightarrow> u32 \<Rightarrow> 'w \<Rightarrow> (gerror + i64) \<times> 'w"
    \<comment> \<open>\<open>unix.InotifyAddWatch\<close>: the number of the watch\<close>
  in_close :: "nat \<Rightarrow> 'w \<Rightarrow> 'w"

text \<open>Constants of the inotify interface of Linux.\<close>

definition IN_CLOEXEC :: u32 where "IN_CLOEXEC = 0x80000"
definition IN_NONBLOCK :: u32 where "IN_NONBLOCK = 0x800"
definition IN_MODIFY :: u32 where "IN_MODIFY = 2"

definition watch_error :: "string \<Rightarrow> gerror \<Rightarrow> gerror" where
  "watch_error p = Wrap (''failed to add inotify watch for '' @ quoted p)"

definition init_error :: "gerror \<Rightarrow> gerror" where
  "init_error = Wrap ''failed to create inotify fd''"

text \<open>The descriptor and the number of the watch of memory.events; cgroup.events is watched too, for the end
  of the group.\<close>

definition MemoryEventFD :: "'w inotify \<Rightarrow> Manager \<Rightarrow> 'w \<Rightarrow> (gerror + nat \<times> u32) \<times> 'w" where
  "MemoryEventFD ino c w =
     (let fpath = path_join [mgr_path c, ''memory.events'']; evpath = path_join [mgr_path c, ''cgroup.events'']
      in case in_init ino IN_CLOEXEC w of
        (Inl e, w1) \<Rightarrow> (Inl (init_error e), w1)
      | (Inr fd, w1) \<Rightarrow> (case in_watch ino fd fpath IN_MODIFY w1 of
          (Inl e, w2) \<Rightarrow> (Inl (watch_error fpath e), in_close ino fd w2)
        | (Inr wd, w2) \<Rightarrow> (case in_watch ino fd evpath IN_MODIFY w2 of
            (Inl e, w3) \<Rightarrow> (Inl (watch_error evpath e), in_close ino fd w3)
          | (Inr _, w3) \<Rightarrow> (Inr (fd, ucast wd), w3))))"

text \<open>The deferred function of \<open>memoryEventNonBlockFD\<close> closes the file when an error is returned.\<close>

definition memoryEventNonBlockFD :: "'w inotify \<Rightarrow> Manager \<Rightarrow> 'w \<Rightarrow> (gerror + nat) \<times> 'w" where
  "memoryEventNonBlockFD ino c w =
     (let fpath = path_join [mgr_path c, ''memory.events'']; evpath = path_join [mgr_path c, ''cgroup.events'']
      in case in_init ino (IN_CLOEXEC OR IN_NONBLOCK) w of
        (Inl e, w1) \<Rightarrow> (Inl (init_error e), w1)
      | (Inr fd, w1) \<Rightarrow> (case (case in_watch ino fd fpath IN_MODIFY w1 of
            (Inl e, w2) \<Rightarrow> (Inl (watch_error fpath e), w2)
          | (Inr _, w2) \<Rightarrow> (case in_watch ino fd evpath IN_MODIFY w2 of
              (Inl e, w3) \<Rightarrow> (Inl (watch_error evpath e), w3)
            | (Inr _, w3) \<Rightarrow> (Inr fd, w3))) of
          (Inl retErr, w4) \<Rightarrow> (Inl retErr, in_close ino fd w4)
        | (Inr f, w4) \<Rightarrow> (Inr f, w4)))"

section \<open>The goroutine\<close>

text \<open>It reads the descriptor, or has an event to send (and ends after that), or has ended. The channel of
  events has room for one. The state also has what the consumer has taken from that channel, what was sent
  on the channel of errors, and whether that one is closed.\<close>

datatype goroutine = Reading | Sending Event bool | Ended

record 'w watch =
  wt_system :: 'w
  wt_fd :: nat
  wt_go :: goroutine
  wt_buffer :: "Event list"
  wt_taken :: "Event list"
  wt_errors :: "gerror list"
  wt_err_closed :: bool

text \<open>The deferred calls: the descriptor is closed, then the channel of errors.\<close>

definition finish :: "'w inotify \<Rightarrow> 'w watch \<Rightarrow> 'w watch" where
  "finish ino s = s\<lparr>wt_go := Ended, wt_system := in_close ino (wt_fd s) (wt_system s), wt_err_closed := True\<rparr>"

definition start_watch :: "'w inotify \<Rightarrow> Manager \<Rightarrow> 'w \<Rightarrow> 'w watch" where
  "start_watch ino c w = (case memoryEventNonBlockFD ino c w of
     (Inl e, w1) \<Rightarrow> \<lparr>wt_system = w1, wt_fd = 0, wt_go = Ended, wt_buffer = [], wt_taken = [], wt_errors = [e], wt_err_closed = False\<rparr>
   | (Inr fd, w1) \<Rightarrow> \<lparr>wt_system = w1, wt_fd = fd, wt_go = Reading, wt_buffer = [], wt_taken = [], wt_errors = [], wt_err_closed = False\<rparr>)"

text \<open>What a round of the loop comes to, before its event is sent.\<close>

definition after_round :: "'w inotify \<Rightarrow> Event option \<times> gerror option \<times> bool \<Rightarrow> 'w watch \<Rightarrow> 'w watch" where
  "after_round ino rnd s = (case rnd of
     (Some ev, er, stop) \<Rightarrow> s\<lparr>wt_go := Sending ev stop\<rparr>
   | (None, er, stop) \<Rightarrow>
       let s1 = s\<lparr>wt_errors := wt_errors s @ somes [er]\<rparr> in if stop then finish ino s1 else s1)"

text \<open>The steps: the system changes by itself, as \<open>env\<close> allows; the goroutine reads the descriptor, with any
  result; it sends its event, when there is room; the consumer takes an event.\<close>

inductive watch_step :: "'w os \<Rightarrow> 'w inotify \<Rightarrow> ('w \<Rightarrow> 'w \<Rightarrow> bool) \<Rightarrow> Manager \<Rightarrow> 'w watch \<Rightarrow> 'w watch \<Rightarrow> bool"
  for os ino env c where
  "env (wt_system s) w1 \<Longrightarrow> watch_step os ino env c s (s\<lparr>wt_system := w1\<rparr>)"
| "wt_go s = Reading \<Longrightarrow> watch_step os ino env c s (after_round ino (event_round os c rd (wt_system s)) s)"
| "wt_go s = Sending ev False \<Longrightarrow> wt_buffer s = [] \<Longrightarrow>
     watch_step os ino env c s (s\<lparr>wt_go := Reading, wt_buffer := [ev]\<rparr>)"
| "wt_go s = Sending ev True \<Longrightarrow> wt_buffer s = [] \<Longrightarrow>
     watch_step os ino env c s (finish ino (s\<lparr>wt_buffer := [ev]\<rparr>))"
| "wt_buffer s = ev # evs \<Longrightarrow>
     watch_step os ino env c s (s\<lparr>wt_buffer := evs, wt_taken := wt_taken s @ [ev]\<rparr>)"

inductive_cases watch_stepE: "watch_step os ino env c s t"

section \<open>The tree with descriptors\<close>

definition fd_inotify :: "(memfs \<times> nat list) inotify" where
  "fd_inotify = \<lparr>in_init = (\<lambda>_ w. (Inr (new_fd w), (fst w, new_fd w # snd w))),
     in_watch = (\<lambda>_ p _ w. (case mem_open p (fst w) of Inl e \<Rightarrow> (Inl e, w) | Inr _ \<Rightarrow> (Inr 1, w))),
     in_close = (\<lambda>fd w. (fst w, filter (\<lambda>x. x \<noteq> fd) (snd w)))\<rparr>"

text \<open>An example: a group with the two files, and one descriptor open before.\<close>

definition watched_fs :: "memfs \<times> nat list" where
  "watched_fs = (\<lparr>mem_files = [(''/m/a/memory.events'', ''low 1''), (''/m/a/cgroup.events'', ''populated 1'')],
     mem_dirs = [''/m/a''], mem_faults = []\<rparr>, [2])"

definition watched_group :: Manager where
  "watched_group = \<lparr>unifiedMountpoint = ''/m'', mgr_path = ''/m/a''\<rparr>"

lemma watched_opened: "memoryEventNonBlockFD fd_inotify watched_group watched_fs = (Inr 3, (fst watched_fs, [3, 2]))"
  by (simp add: memoryEventNonBlockFD_def Let_def fd_inotify_def watched_group_def watched_fs_def new_fd_def mem_open_def fault_def path_eval)

lemma watched_start:
  "start_watch fd_inotify watched_group watched_fs =
     \<lparr>wt_system = (fst watched_fs, [3, 2]), wt_fd = 3, wt_go = Reading, wt_buffer = [], wt_taken = [], wt_errors = [], wt_err_closed = False\<rparr>"
  by (simp add: start_watch_def watched_opened)

section \<open>It refines the rounds\<close>

text \<open>The rounds of theory V2Manager see all events that were sent, are in the channel or are about to be sent.\<close>

definition pending :: "goroutine \<Rightarrow> Event list" where
  "pending g = (case g of Sending ev stop \<Rightarrow> [ev] | _ \<Rightarrow> [])"

definition active :: "goroutine \<Rightarrow> bool" where
  "active g = (case g of Reading \<Rightarrow> True | Sending ev stop \<Rightarrow> \<not> stop | Ended \<Rightarrow> False)"

definition channels_of :: "'w watch \<Rightarrow> channels" where
  "channels_of s = \<lparr>ch_events = wt_taken s @ wt_buffer s @ pending (wt_go s), ch_errors = wt_errors s, ch_running = active (wt_go s)\<rparr>"

lemmas watch_defs = channels_of_def pending_def active_def finish_def after_round_def

lemma event_round_event: "event_round os c rd w = (Some ev, er, stop) \<Longrightarrow> er = None"
  by (auto simp: event_round_def Let_def split: sum.splits prod.splits option.splits if_splits)

lemma after_round_step:
  assumes "wt_go s = Reading"
  shows "event_step os c (channels_of s) (channels_of (after_round ino (event_round os c rd (wt_system s)) s))"
proof -
  obtain ev er stop where r: "event_round os c rd (wt_system s) = (ev, er, stop)" by (metis prod.exhaust)
  have "event_step os c (channels_of s) \<lparr>ch_events = ch_events (channels_of s) @ somes [ev],
      ch_errors = ch_errors (channels_of s) @ somes [er], ch_running = \<not> stop\<rparr>"
    using assms r by (intro event_step.intros) (simp_all add: channels_of_def active_def)
  moreover have "channels_of (after_round ino (ev, er, stop) s) = \<lparr>ch_events = ch_events (channels_of s) @ somes [ev],
      ch_errors = ch_errors (channels_of s) @ somes [er], ch_running = \<not> stop\<rparr>"
    using assms event_round_event [of os c rd "wt_system s"] r
    by (cases ev) (auto simp: watch_defs Let_def split: option.splits)
  ultimately show ?thesis by (simp add: r)
qed

lemma watch_refines:
  assumes "watch_step os ino env c s t"
  shows "channels_of t = channels_of s \<or> event_step os c (channels_of s) (channels_of t)"
  using assms
proof (cases rule: watch_step.cases)
  case (2 rd)
  then show ?thesis using after_round_step by blast
qed (auto simp: watch_defs)

lemma start_watch_channels:
  "channels_of (start_watch ino c w) = EventChan (case memoryEventNonBlockFD ino c w of (Inl e, _) \<Rightarrow> Some e | (Inr _, _) \<Rightarrow> None)"
  by (simp add: start_watch_def EventChan_def watch_defs split: prod.splits sum.splits)



text \<open>The channels: at most one event is waiting, the channel of errors is closed exactly when a goroutine
  that was started has ended, and an event that is sent after the last one has not been taken blocks.\<close>

lemma watch_channels:
  assumes "(watch_step os ino env c)\<^sup>*\<^sup>* (start_watch ino c w) s"
  shows "length (wt_buffer s) \<le> 1 \<and> (wt_err_closed s \<longrightarrow> wt_go s = Ended) \<and>
    (wt_go s = Ended \<and> \<not> wt_err_closed s \<longrightarrow> (\<exists>e w1. memoryEventNonBlockFD ino c w = (Inl e, w1) \<and> wt_errors s = [e]))"
  using assms
proof (induction rule: rtranclp_induct)
  case base
  then show ?case by (auto simp: start_watch_def split: prod.splits sum.splits)
next
  case (step y z)
  show ?case
    using step.hyps(2)
  proof (cases rule: watch_step.cases)
    case (2 rd)
    then show ?thesis using step.IH by (auto simp: watch_defs Let_def split: prod.splits option.splits)
  qed (use step.IH in \<open>auto simp: finish_def\<close>)
qed

text \<open>A consumer that no longer takes events stops the goroutine for good: with one event waiting and the next
  to be sent only the system changes, and the descriptor stays open.\<close>

lemma abandoned_watch_blocks:
  assumes "wt_go s = Sending ev stop" and "wt_buffer s = [ev0]" and "watch_step os ino env c s t" and "wt_taken t = wt_taken s"
  shows "wt_go t = Sending ev stop \<and> wt_buffer t = [ev0] \<and> wt_fd t = wt_fd s \<and> env (wt_system s) (wt_system t)"
  using assms(3)
proof (cases rule: watch_step.cases)
  case (5 ev1 evs)
  then show ?thesis using assms(4) by simp
qed (use assms(1,2) in auto)

section \<open>Descriptors\<close>

locale inotify_fds =
  fixes ino :: "'w inotify" and opened :: "'w \<Rightarrow> nat set"
  assumes init_ok: "in_init ino fl w = (Inr fd, w1) \<Longrightarrow> fd \<notin> opened w \<and> opened w1 = insert fd (opened w)"
    and init_err: "in_init ino fl w = (Inl e, w1) \<Longrightarrow> opened w1 = opened w"
    and watch_fds: "in_watch ino fd p m w = (r, w1) \<Longrightarrow> opened w1 = opened w"
    and close_fd: "opened (in_close ino fd w) = opened w - {fd}"
begin

text \<open>Both functions open one descriptor or, on an error, none.\<close>

lemma MemoryEventFD_opened:
  assumes "MemoryEventFD ino c w = (r, w1)"
  shows "case r of Inr (fd, wd) \<Rightarrow> fd \<notin> opened w \<and> opened w1 = insert fd (opened w) | Inl e \<Rightarrow> opened w1 = opened w"
  using assms
  by (auto simp: MemoryEventFD_def Let_def close_fd split: prod.splits sum.splits dest!: init_ok init_err watch_fds)

lemma memoryEventNonBlockFD_opened:
  assumes "memoryEventNonBlockFD ino c w = (r, w1)"
  shows "case r of Inr fd \<Rightarrow> fd \<notin> opened w \<and> opened w1 = insert fd (opened w) | Inl e \<Rightarrow> opened w1 = opened w"
  using assms
  by (auto simp: memoryEventNonBlockFD_def Let_def close_fd split: prod.splits sum.splits dest!: init_ok init_err watch_fds)

definition keeps_fd :: "'w \<Rightarrow> 'w watch \<Rightarrow> bool" where
  "keeps_fd w s = (if wt_go s = Ended then opened (wt_system s) = opened w
     else wt_fd s \<notin> opened w \<and> opened (wt_system s) = insert (wt_fd s) (opened w))"

lemma start_watch_fd: "keeps_fd w (start_watch ino c w)"
  using memoryEventNonBlockFD_opened [of c w] by (auto simp: keeps_fd_def start_watch_def split: prod.splits sum.splits)

lemma finish_fd: "keeps_fd w s \<Longrightarrow> wt_go s \<noteq> Ended \<Longrightarrow> keeps_fd w (finish ino s)"
  by (auto simp: keeps_fd_def finish_def close_fd)

lemma watch_step_fd:
  assumes "watch_step os ino env c s t" and "keeps_fd w s" and "\<And>v v1. env v v1 \<Longrightarrow> opened v1 = opened v"
  shows "keeps_fd w t"
  using assms(1)
proof (cases rule: watch_step.cases)
  case (2 rd)
  have "keeps_fd w (s\<lparr>wt_errors := es\<rparr>)" for es using assms(2) by (simp add: keeps_fd_def)
  then have "keeps_fd w (finish ino (s\<lparr>wt_errors := es\<rparr>))" "keeps_fd w (s\<lparr>wt_errors := es\<rparr>)" for es
    using finish_fd [of w "s\<lparr>wt_errors := es\<rparr>"] 2 by simp_all
  then show ?thesis using 2 assms(2) by (auto simp: after_round_def Let_def split: prod.splits option.splits) (simp_all add: keeps_fd_def)
next
  case (4 ev)
  have "keeps_fd w (s\<lparr>wt_buffer := [ev]\<rparr>)" using assms(2) by (simp add: keeps_fd_def)
  then show ?thesis using finish_fd [of w "s\<lparr>wt_buffer := [ev]\<rparr>"] 4 by simp
qed (use assms(2,3) in \<open>auto simp: keeps_fd_def\<close>)

end

interpretation tree_inotify: inotify_fds fd_inotify "\<lambda>w. set (snd w)"
proof (unfold_locales, goal_cases)
  case (1 fl w fd w1)
  then show ?case using new_fd_fresh [of w] by (auto simp: fd_inotify_def)
qed (auto simp: fd_inotify_def split: sum.splits)

text \<open>C18: A watch leaks no descriptor: as long as its goroutine has not ended, its own descriptor, a new one, is
  open in addition to those of before; once it has ended, in whatever way, or could not be started, the open
  descriptors are those of before.\<close>

theorem watch_no_leak:
  assumes "inotify_fds ino opened" and "\<forall>v v1. env v v1 \<longrightarrow> opened v1 = opened v"
    and "(watch_step os ino env c)\<^sup>*\<^sup>* (start_watch ino c w) s"
  shows "if wt_go s = Ended then opened (wt_system s) = opened w
    else wt_fd s \<notin> opened w \<and> opened (wt_system s) = insert (wt_fd s) (opened w)"
proof -
  have "inotify_fds.keeps_fd opened w s"
    using assms(3)
  proof (induction rule: rtranclp_induct)
    case base
    show ?case by (rule inotify_fds.start_watch_fd [OF assms(1)])
  next
    case (step y z)
    show ?case using inotify_fds.watch_step_fd [OF assms(1) step.hyps(2) step.IH] assms(2) by blast
  qed
  then show ?thesis by (simp add: inotify_fds.keeps_fd_def [OF assms(1)])
qed

theorem watch_no_leak_witness:
  "\<exists>s. (watch_step fd_os fd_inotify (=) watched_group)\<^sup>*\<^sup>* (start_watch fd_inotify watched_group watched_fs) s \<and>
     wt_go s = Ended \<and> wt_errors s = [ErrEOF] \<and> set (snd (wt_system s)) = {2}"
proof -
  let ?s = "start_watch fd_inotify watched_group watched_fs"
  let ?t = "after_round fd_inotify (event_round fd_os watched_group (Inl ErrEOF) (wt_system ?s)) ?s"
  have s: "wt_go ?s = Reading" "wt_errors ?s = []" by (simp_all add: watched_start)
  have step: "watch_step fd_os fd_inotify (=) watched_group ?s ?t" by (rule watch_step.intros(2)) (rule s(1))
  then have "(watch_step fd_os fd_inotify (=) watched_group)\<^sup>*\<^sup>* ?s ?t" by (rule r_into_rtranclp)
  moreover have "wt_go ?t = Ended" "wt_errors ?t = [ErrEOF]"
    using s by (simp_all add: after_round_def event_round_def finish_def)
  ultimately show ?thesis
    using watch_no_leak [OF tree_inotify.inotify_fds_axioms _ \<open>(watch_step fd_os fd_inotify (=) watched_group)\<^sup>*\<^sup>* ?s ?t\<close>]
    by (intro exI [of _ ?t]) (simp add: watched_fs_def)
qed

end
