(* ===== verification/V1Metrics.thy ===== *)
theory V1Metrics
  imports Prelude
begin

text \<open>
  The messages of \<open>cgroup1/stats\<close>, as far as the package fills them in: the structures of the generated
  code without the bookkeeping fields of the protobuf runtime. A repeated field is a list; an optional
  message is an option at the top level, where the code leaves it nil, and the message itself below,
  where the code always sets it. A name that the messages of \<open>cgroup2\<close> have too ends in 1.
\<close>

record HugetlbStat =
  h1_Usage :: u64
  h1_Max :: u64
  h1_Failcnt :: u64
  h1_Pagesize :: string

record PidsStat1 =
  p1_Current :: u64
  p1_Limit :: u64

record CPUUsage =
  cu_Total :: u64
  cu_Kernel :: u64
  cu_User :: u64
  cu_PerCPU :: "u64 list"

record Throttle =
  th_Periods :: u64
  th_ThrottledPeriods :: u64
  th_ThrottledTime :: u64

record CPUStat1 =
  c1_Usage :: CPUUsage
  c1_Throttling :: Throttle

record MemoryEntry =
  me_Limit :: u64
  me_Usage :: u64
  me_Max :: u64
  me_Failcnt :: u64

record MemoryStat1 =
  m1_Cache :: u64
  m1_RSS :: u64
  m1_RSSHuge :: u64
  m1_MappedFile :: u64
  m1_Dirty :: u64
  m1_Writeback :: u64
  m1_PgPgIn :: u64
  m1_PgPgOut :: u64
  m1_PgFault :: u64
  m1_PgMajFault :: u64
  m1_InactiveAnon :: u64
  m1_ActiveAnon :: u64
  m1_InactiveFile :: u64
  m1_ActiveFile :: u64
  m1_Unevictable :: u64
  m1_HierarchicalMemoryLimit :: u64
  m1_HierarchicalSwapLimit :: u64
  m1_TotalCache :: u64
  m1_TotalRSS :: u64
  m1_TotalRSSHuge :: u64
  m1_TotalMappedFile :: u64
  m1_TotalDirty :: u64
  m1_TotalWriteback :: u64
  m1_TotalPgPgIn :: u64
  m1_TotalPgPgOut :: u64
  m1_TotalPgFault :: u64
  m1_TotalPgMajFault :: u64
  m1_TotalInactiveAnon :: u64
  m1_TotalActiveAnon :: u64
  m1_TotalInactiveFile :: u64
  m1_TotalActiveFile :: u64
  m1_TotalUnevictable :: u64
  m1_Usage :: MemoryEntry
  m1_Swap :: MemoryEntry
  m1_Kernel :: MemoryEntry
  m1_KernelTCP :: MemoryEntry

record MemoryOomControl =
  oom_OomKillDisable :: u64
  oom_UnderOom :: u64
  oom_OomKill :: u64

record BlkIOEntry =
  be_Op :: string
  be_Device :: string
  be_Major :: u64
  be_Minor :: u64
  be_Value :: u64

record BlkIOStat =
  bs_IoServiceBytesRecursive :: "BlkIOEntry list"
  bs_IoServicedRecursive :: "BlkIOEntry list"
  bs_IoQueuedRecursive :: "BlkIOEntry list"
  bs_IoServiceTimeRecursive :: "BlkIOEntry list"
  bs_IoWaitTimeRecursive :: "BlkIOEntry list"
  bs_IoMergedRecursive :: "BlkIOEntry list"
  bs_IoTimeRecursive :: "BlkIOEntry list"
  bs_SectorsRecursive :: "BlkIOEntry list"

record RdmaEntry1 =
  r1_Device :: string
  r1_HcaHandles :: u32
  r1_HcaObjects :: u32

record RdmaStat1 =
  r1s_Current :: "RdmaEntry1 list"
  r1s_Limit :: "RdmaEntry1 list"

record NetworkStat =
  ns_Name :: string
  ns_RxBytes :: u64
  ns_RxPackets :: u64
  ns_RxErrors :: u64
  ns_RxDropped :: u64
  ns_TxBytes :: u64
  ns_TxPackets :: u64
  ns_TxErrors :: u64
  ns_TxDropped :: u64

record CgroupStats =
  gs_NrSleeping :: u64
  gs_NrRunning :: u64
  gs_NrStopped :: u64
  gs_NrUninterruptible :: u64
  gs_NrIoWait :: u64

record Metrics1 =
  mt1_Hugetlb :: "HugetlbStat list"
  mt1_Pids :: "PidsStat1 option"
  mt1_CPU :: "CPUStat1 option"
  mt1_Memory :: "MemoryStat1 option"
  mt1_Blkio :: "BlkIOStat option"
  mt1_Rdma :: "RdmaStat1 option"
  mt1_Network :: "NetworkStat list"
  mt1_CgroupStats :: "CgroupStats option"
  mt1_MemoryOomControl :: "MemoryOomControl option"

text \<open>Zero values.\<close>

definition hugetlb0 :: HugetlbStat where
  "hugetlb0 =
    \<lparr>h1_Usage = 0, h1_Max = 0, h1_Failcnt = 0, h1_Pagesize = []\<rparr>"

definition usage0 :: CPUUsage where
  "usage0 =
    \<lparr>cu_Total = 0, cu_Kernel = 0, cu_User = 0, cu_PerCPU = []\<rparr>"

definition throttle0 :: Throttle where
  "throttle0 =
    \<lparr>th_Periods = 0, th_ThrottledPeriods = 0, th_ThrottledTime = 0\<rparr>"

definition cpu0 :: CPUStat1 where
  "cpu0 =
    \<lparr>c1_Usage = usage0, c1_Throttling = throttle0\<rparr>"

definition entry0 :: MemoryEntry where
  "entry0 =
    \<lparr>me_Limit = 0, me_Usage = 0, me_Max = 0, me_Failcnt = 0\<rparr>"

definition memory0 :: MemoryStat1 where
  "memory0 =
    \<lparr>m1_Cache = 0, m1_RSS = 0, m1_RSSHuge = 0, m1_MappedFile = 0, m1_Dirty = 0, m1_Writeback = 0, m1_PgPgIn =
     0, m1_PgPgOut = 0, m1_PgFault = 0, m1_PgMajFault = 0, m1_InactiveAnon = 0, m1_ActiveAnon = 0,
     m1_InactiveFile = 0, m1_ActiveFile = 0, m1_Unevictable = 0, m1_HierarchicalMemoryLimit = 0,
     m1_HierarchicalSwapLimit = 0, m1_TotalCache = 0, m1_TotalRSS = 0, m1_TotalRSSHuge = 0,
     m1_TotalMappedFile = 0, m1_TotalDirty = 0, m1_TotalWriteback = 0, m1_TotalPgPgIn = 0, m1_TotalPgPgOut =
     0, m1_TotalPgFault = 0, m1_TotalPgMajFault = 0, m1_TotalInactiveAnon = 0, m1_TotalActiveAnon = 0,
     m1_TotalInactiveFile = 0, m1_TotalActiveFile = 0, m1_TotalUnevictable = 0, m1_Usage = entry0, m1_Swap =
     entry0, m1_Kernel = entry0, m1_KernelTCP = entry0\<rparr>"

definition oom0 :: MemoryOomControl where
  "oom0 =
    \<lparr>oom_OomKillDisable = 0, oom_UnderOom = 0, oom_OomKill = 0\<rparr>"

definition blkio0 :: BlkIOStat where
  "blkio0 =
    \<lparr>bs_IoServiceBytesRecursive = [], bs_IoServicedRecursive = [], bs_IoQueuedRecursive = [],
     bs_IoServiceTimeRecursive = [], bs_IoWaitTimeRecursive = [], bs_IoMergedRecursive = [],
     bs_IoTimeRecursive = [], bs_SectorsRecursive = []\<rparr>"

end
