(* ===== verification/V1Controllers.thy ===== *)
theory V1Controllers
  imports OCISpec Polling Counters
begin

text \<open>
  The controllers of \<open>cgroup1\<close>: how the resources of a group are written into the files of each
  hierarchy (\<open>cpu.go\<close>, \<open>memory.go\<close>, \<open>pids.go\<close>, \<open>blkio.go\<close>, \<open>hugetlb.go\<close>, \<open>rdma.go\<close>, \<open>devices.go\<close>, \<open>net_cls.go\<close>,
  \<open>net_prio.go\<close>), and the freezer. The cpuset controller and the statistics have theories of their own.
  A controller whose structure only has a root is that root.

  All controllers that write resources do it the same way: make the directory of the group, then write
  a list of files there. The locale \<open>settings\<close> states that, and what follows for the files.
\<close>

section \<open>Names\<close>

type_synonym Name = string

definition Devices :: Name where "Devices = ''devices''"
definition Hugetlb :: Name where "Hugetlb = ''hugetlb''"
definition Freezer :: Name where "Freezer = ''freezer''"
definition PidsName :: Name where "PidsName = ''pids''"
definition NetCLS :: Name where "NetCLS = ''net_cls''"
definition NetPrio :: Name where "NetPrio = ''net_prio''"
definition PerfEvent :: Name where "PerfEvent = ''perf_event''"
definition Cpuset :: Name where "Cpuset = ''cpuset''"
definition Cpu :: Name where "Cpu = ''cpu''"
definition Cpuacct :: Name where "Cpuacct = ''cpuacct''"
definition MemoryName :: Name where "MemoryName = ''memory''"
definition Blkio :: Name where "Blkio = ''blkio''"
definition Rdma :: Name where "Rdma = ''rdma''"

lemmas name_defs = Devices_def Hugetlb_def Freezer_def PidsName_def NetCLS_def NetPrio_def PerfEvent_def
  Cpuset_def Cpu_def Cpuacct_def MemoryName_def Blkio_def Rdma_def

section \<open>Writing settings\<close>

text \<open>The loops \<open>for ... { if err := os.WriteFile(...); err != nil { return err } }\<close>, for a list of file
  names and contents.\<close>

definition write_settings :: "'w os \<Rightarrow> string \<Rightarrow> (string \<times> string) list \<Rightarrow> ('w, unit) go" where
  "write_settings os dir kvs = for_each (\<lambda>kv. sys (os_write_file os (path_join [dir, fst kv]) (snd kv))) kvs"

text \<open>A method that makes the directory and then writes what the resources ask for; it dereferences the
  pointer to the resources only after the directory is made.\<close>

definition create_group :: "'w os \<Rightarrow> string \<Rightarrow> (LinuxResources \<Rightarrow> (string \<times> string) list) \<Rightarrow> LinuxResources option \<Rightarrow> ('w, unit) go" where
  "create_group os dir files r =
     seqn (sys (os_mkdir_all os dir))
       (case r of None \<Rightarrow> (\<lambda>w. (Panic, w)) | Some res \<Rightarrow> write_settings os dir (files res))"

section \<open>cpu\<close>

definition cpu_Path :: "string \<Rightarrow> string \<Rightarrow> string" where
  "cpu_Path root path = path_join [root, path]"

text \<open>The table of names with the signed or the unsigned value, in the order of the writes.\<close>

definition cpu_table :: "LinuxCPU \<Rightarrow> (string \<times> i64 option \<times> u64 option) list" where
  "cpu_table cpu =
     [(''rt_period_us'', None, lc_RealtimePeriod cpu),
      (''rt_runtime_us'', lc_RealtimeRuntime cpu, None),
      (''shares'', None, lc_Shares cpu),
      (''cfs_period_us'', None, lc_Period cpu),
      (''cfs_quota_us'', lc_Quota cpu, None)]"

definition cpu_value :: "i64 option \<Rightarrow> u64 option \<Rightarrow> string option" where
  "cpu_value ivalue uvalue = (case uvalue of
     Some u \<Rightarrow> Some (FormatUint u)
   | None \<Rightarrow> (case ivalue of Some i \<Rightarrow> Some (FormatInt i) | None \<Rightarrow> None))"

definition cpu_files :: "LinuxResources \<Rightarrow> (string \<times> string) list" where
  "cpu_files r = (case lx_CPU r of
     None \<Rightarrow> []
   | Some cpu \<Rightarrow> somes (map (\<lambda>(name, iv, uv). map_option (\<lambda>v. (''cpu.'' @ name, v)) (cpu_value iv uv)) (cpu_table cpu)))"

definition cpu_Create :: "'w os \<Rightarrow> string \<Rightarrow> string \<Rightarrow> LinuxResources option \<Rightarrow> ('w, unit) go" where
  "cpu_Create os root path r = create_group os (cpu_Path root path) cpu_files r"

section \<open>memory\<close>

text \<open>The controller also keeps the set of modules whose files it does not read.\<close>

record memoryController =
  mc_root :: string
  mc_ignored :: "string list"

definition memory_Path :: "memoryController \<Rightarrow> string \<Rightarrow> string" where
  "memory_Path m path = path_join [mc_root m, path]"

definition getOomControlValue :: "LinuxMemory \<Rightarrow> i64 option" where
  "getOomControlValue mem = (case lm_DisableOOMKiller mem of
     Some True \<Rightarrow> Some 1 | Some False \<Rightarrow> Some 0 | None \<Rightarrow> None)"

definition getMemorySettings :: "LinuxMemory \<Rightarrow> (string \<times> i64 option) list" where
  "getMemorySettings mem =
     [(''limit_in_bytes'', lm_Limit mem),
      (''soft_limit_in_bytes'', lm_Reservation mem),
      (''memsw.limit_in_bytes'', lm_Swap mem),
      (''kmem.limit_in_bytes'', lm_Kernel mem),
      (''kmem.tcp.limit_in_bytes'', lm_KernelTCP mem),
      (''oom_control'', getOomControlValue mem),
      (''swappiness'', lm_Swappiness mem)]"

definition memory_files :: "(string \<times> i64 option) list \<Rightarrow> (string \<times> string) list" where
  "memory_files settings =
     somes (map (\<lambda>(name, value). map_option (\<lambda>v. (''memory.'' @ name, FormatInt v)) value) settings)"

definition memory_set :: "'w os \<Rightarrow> memoryController \<Rightarrow> string \<Rightarrow> (string \<times> i64 option) list \<Rightarrow> ('w, unit) go" where
  "memory_set os m path settings = write_settings os (memory_Path m path) (memory_files settings)"

definition memory_Create :: "'w os \<Rightarrow> memoryController \<Rightarrow> string \<Rightarrow> LinuxResources option \<Rightarrow> ('w, unit) go" where
  "memory_Create os m path r =
     seqn (sys (os_mkdir_all os (memory_Path m path)))
       (case r of
          None \<Rightarrow> (\<lambda>w. (Panic, w))
        | Some res \<Rightarrow> (case lx_Memory res of
            None \<Rightarrow> ret ()
          | Some mem \<Rightarrow> memory_set os m path (getMemorySettings mem)))"

text \<open>\<open>readUint\<close> of \<open>utils.go\<close>: one read of a small file; \<open>max\<close> reads as 0.\<close>

definition readUint :: "'w os \<Rightarrow> string \<Rightarrow> 'w \<Rightarrow> u64 outcome" where
  "readUint os path w = (case os_open os path w of
     Inl e \<Rightarrow> Err e
   | Inr f \<Rightarrow> bind_out (read32 f) (\<lambda>b.
       (let s = trim_space b
        in if s = ''max'' then Ok 0
           else (case parseUint s 64 of (v, None) \<Rightarrow> Ok v | (v, Some e) \<Rightarrow> Err e))))"

definition positive :: "i64 option \<Rightarrow> bool" where
  "positive v = (case v of Some x \<Rightarrow> 0 < sint x | None \<Rightarrow> False)"

definition swap_first_two :: "'a list \<Rightarrow> 'a list" where
  "swap_first_two xs = (case xs of a # b # ys \<Rightarrow> b # a # ys | _ \<Rightarrow> xs)"

definition memory_Update :: "'w os \<Rightarrow> memoryController \<Rightarrow> string \<Rightarrow> LinuxResources option \<Rightarrow> ('w, unit) go" where
  "memory_Update os m path r = (case r of
     None \<Rightarrow> (\<lambda>w. (Panic, w))
   | Some res \<Rightarrow> (case lx_Memory res of
       None \<Rightarrow> ret ()
     | Some mem \<Rightarrow>
         (let settings = getMemorySettings mem
          in if positive (lm_Limit mem) \<and> positive (lm_Swap mem)
             then bnd (reads (readUint os (path_join [memory_Path m path, ''memory.limit_in_bytes''])))
                    (\<lambda>current. memory_set os m path
                       (if current < the (lm_Swap mem) then swap_first_two settings else settings))
             else memory_set os m path settings)))"

section \<open>pids, hugetlb, net_cls, net_prio, rdma\<close>

definition pids_Path :: "string \<Rightarrow> string \<Rightarrow> string" where
  "pids_Path root path = path_join [root, path]"

definition pids_files :: "LinuxResources \<Rightarrow> (string \<times> string) list" where
  "pids_files r = (case lx_Pids r of
     Some (Some limit) \<Rightarrow> if 0 < sint limit then [(''pids.max'', FormatInt limit)] else []
   | _ \<Rightarrow> [])"

definition pids_Create :: "'w os \<Rightarrow> string \<Rightarrow> string \<Rightarrow> LinuxResources option \<Rightarrow> ('w, unit) go" where
  "pids_Create os root path r = create_group os (pids_Path root path) pids_files r"

record hugetlbController =
  hc_root :: string
  hc_sizes :: "string list"

definition hugetlb_Path :: "hugetlbController \<Rightarrow> string \<Rightarrow> string" where
  "hugetlb_Path h path = path_join [hc_root h, path]"

definition hugetlb_files :: "LinuxResources \<Rightarrow> (string \<times> string) list" where
  "hugetlb_files r = (case lx_HugepageLimits r of
     None \<Rightarrow> []
   | Some limits \<Rightarrow> map (\<lambda>l. (join [''hugetlb'', hl_Pagesize l, ''limit_in_bytes''] ''.'', FormatUint (hl_Limit l))) limits)"

definition hugetlb_Create :: "'w os \<Rightarrow> hugetlbController \<Rightarrow> string \<Rightarrow> LinuxResources option \<Rightarrow> ('w, unit) go" where
  "hugetlb_Create os h path r = create_group os (hugetlb_Path h path) hugetlb_files r"

definition netcls_Path :: "string \<Rightarrow> string \<Rightarrow> string" where
  "netcls_Path root path = path_join [root, path]"

definition netcls_files :: "LinuxResources \<Rightarrow> (string \<times> string) list" where
  "netcls_files r = (case lx_Network r of
     None \<Rightarrow> []
   | Some n \<Rightarrow> (case ln_ClassID n of
       Some c \<Rightarrow> if 0 < c then [(''net_cls.classid'', FormatUint (ucast c))] else []
     | None \<Rightarrow> []))"

definition netcls_Create :: "'w os \<Rightarrow> string \<Rightarrow> string \<Rightarrow> LinuxResources option \<Rightarrow> ('w, unit) go" where
  "netcls_Create os root path r = create_group os (netcls_Path root path) netcls_files r"

definition netprio_Path :: "string \<Rightarrow> string \<Rightarrow> string" where
  "netprio_Path root path = path_join [root, path]"

definition formatPrio :: "string \<Rightarrow> u32 \<Rightarrow> string" where
  "formatPrio name prio = name @ '' '' @ FormatUint (ucast prio)"

definition netprio_files :: "LinuxResources \<Rightarrow> (string \<times> string) list" where
  "netprio_files r = (case lx_Network r of
     None \<Rightarrow> []
   | Some n \<Rightarrow> map (\<lambda>p. (''net_prio.ifpriomap'', formatPrio (ip_Name p) (ip_Priority p))) (ln_Priorities n))"

definition netprio_Create :: "'w os \<Rightarrow> string \<Rightarrow> string \<Rightarrow> LinuxResources option \<Rightarrow> ('w, unit) go" where
  "netprio_Create os root path r = create_group os (netprio_Path root path) netprio_files r"

definition rdma_Path :: "string \<Rightarrow> string \<Rightarrow> string" where
  "rdma_Path root path = path_join [root, path]"

definition createCmdString :: "string \<Rightarrow> LinuxRdma \<Rightarrow> string" where
  "createCmdString device limits =
     (let s1 = device;
          s2 = (case lr_HcaHandles limits of Some n \<Rightarrow> s1 @ '' '' @ ''hca_handle='' @ FormatUint (ucast n) | None \<Rightarrow> s1)
      in (case lr_HcaObjects limits of Some n \<Rightarrow> s2 @ '' '' @ ''hca_object='' @ FormatUint (ucast n) | None \<Rightarrow> s2))"

definition rdma_written :: "string \<times> LinuxRdma \<Rightarrow> bool" where
  "rdma_written dl = (fst dl \<noteq> [] \<and> (lr_HcaHandles (snd dl) \<noteq> None \<or> lr_HcaObjects (snd dl) \<noteq> None))"

text \<open>The loop over the devices returns from inside: only the first device with limits, in the order of
  the map, is written.\<close>

definition rdma_files :: "LinuxResources \<Rightarrow> (string \<times> string) list" where
  "rdma_files r = (case find rdma_written (case lx_Rdma r of None \<Rightarrow> [] | Some devs \<Rightarrow> devs) of
     None \<Rightarrow> []
   | Some (device, limit) \<Rightarrow> [(''rdma.max'', createCmdString device limit)])"

definition rdma_Create :: "'w os \<Rightarrow> string \<Rightarrow> string \<Rightarrow> LinuxResources option \<Rightarrow> ('w, unit) go" where
  "rdma_Create os root path r = create_group os (rdma_Path root path) rdma_files r"

section \<open>devices\<close>

definition allowDeviceFile :: string where "allowDeviceFile = ''devices.allow''"
definition denyDeviceFile :: string where "denyDeviceFile = ''devices.deny''"
definition wildcard :: i64 where "wildcard = - 1"

definition devices_Path :: "string \<Rightarrow> string \<Rightarrow> string" where
  "devices_Path root path = path_join [root, path]"

definition deviceNumber :: "i64 option \<Rightarrow> string" where
  "deviceNumber number = (case number of
     None \<Rightarrow> ''*'' | Some n \<Rightarrow> if n = wildcard then ''*'' else FormatInt n)"

definition deviceString :: "LinuxDeviceCgroup \<Rightarrow> string" where
  "deviceString device =
     dev_Type device @ '' '' @ deviceNumber (dev_Major device) @ '':'' @ deviceNumber (dev_Minor device) @ '' '' @ dev_Access device"

definition device_file :: "LinuxDeviceCgroup \<Rightarrow> string \<times> string" where
  "device_file device =
     (if dev_Allow device then allowDeviceFile else denyDeviceFile,
      deviceString (if dev_Type device = [] then device\<lparr>dev_Type := ''a''\<rparr> else device))"

definition devices_files :: "LinuxResources \<Rightarrow> (string \<times> string) list" where
  "devices_files r = map device_file (lx_Devices r)"

definition devices_Create :: "'w os \<Rightarrow> string \<Rightarrow> string \<Rightarrow> LinuxResources option \<Rightarrow> ('w, unit) go" where
  "devices_Create os root path r = create_group os (devices_Path root path) devices_files r"

section \<open>blkio\<close>

record blkioController =
  bc_root :: string
  bc_procRoot :: string

definition blkio_Path :: "blkioController \<Rightarrow> string \<Rightarrow> string" where
  "blkio_Path b path = path_join [bc_root b, path]"

text \<open>A setting is its name and the bytes that its formatting function gives.\<close>

definition uintf :: "u16 \<Rightarrow> string" where
  "uintf v = FormatUint (ucast v)"

definition weightdev :: "LinuxWeightDevice \<Rightarrow> u16 \<Rightarrow> string" where
  "weightdev wd weight = FormatInt (wd_Major wd) @ '':'' @ FormatInt (wd_Minor wd) @ '' '' @ FormatUint (ucast weight)"

definition throttleddev :: "LinuxThrottleDevice \<Rightarrow> string" where
  "throttleddev td = FormatInt (td_Major td) @ '':'' @ FormatInt (td_Minor td) @ '' '' @ FormatUint (td_Rate td)"

definition weight_settings :: "LinuxWeightDevice \<Rightarrow> (string \<times> string) list" where
  "weight_settings wd =
     (case wd_Weight wd of Some x \<Rightarrow> [(''weight_device'', weightdev wd x)] | None \<Rightarrow> []) @
     (case wd_LeafWeight wd of Some x \<Rightarrow> [(''leaf_weight_device'', weightdev wd x)] | None \<Rightarrow> [])"

definition createBlkioSettings :: "LinuxBlockIO \<Rightarrow> (string \<times> string) list" where
  "createBlkioSettings b =
     (case bio_Weight b of Some x \<Rightarrow> [(''weight'', uintf x)] | None \<Rightarrow> []) @
     (case bio_LeafWeight b of Some x \<Rightarrow> [(''leaf_weight'', uintf x)] | None \<Rightarrow> []) @
     concat (map weight_settings (bio_WeightDevice b)) @
     concat (map (\<lambda>(name, devs). map (\<lambda>td. (name, throttleddev td)) devs)
       [(''throttle.read_bps_device'', bio_ThrottleReadBpsDevice b),
        (''throttle.read_iops_device'', bio_ThrottleReadIOPSDevice b),
        (''throttle.write_bps_device'', bio_ThrottleWriteBpsDevice b),
        (''throttle.write_iops_device'', bio_ThrottleWriteIOPSDevice b)])"

definition blkio_files :: "LinuxResources \<Rightarrow> (string \<times> string) list" where
  "blkio_files r = (case lx_BlockIO r of
     None \<Rightarrow> [] | Some b \<Rightarrow> map (\<lambda>(name, value). (''blkio.'' @ name, value)) (createBlkioSettings b))"

definition blkio_Create :: "'w os \<Rightarrow> blkioController \<Rightarrow> string \<Rightarrow> LinuxResources option \<Rightarrow> ('w, unit) go" where
  "blkio_Create os b path r = create_group os (blkio_Path b path) blkio_files r"

section \<open>The freezer\<close>

definition Thawed1 :: string where "Thawed1 = ''thawed''"
definition Frozen1 :: string where "Frozen1 = ''frozen''"
definition Freezing1 :: string where "Freezing1 = ''freezing''"
definition Deleted1 :: string where "Deleted1 = ''deleted''"
definition Unknown1 :: string where "Unknown1 = []"

definition freezer_Path :: "string \<Rightarrow> string \<Rightarrow> string" where
  "freezer_Path root path = path_join [root, path]"

definition changeState :: "'w os \<Rightarrow> string \<Rightarrow> string \<Rightarrow> string \<Rightarrow> ('w, unit) go" where
  "changeState os root path state = sys (os_write_file os (path_join [root, path, ''freezer.state'']) (to_upper state))"

definition freezer_state :: "'w os \<Rightarrow> string \<Rightarrow> string \<Rightarrow> 'w \<Rightarrow> string outcome" where
  "freezer_state os root path w =
     bind_out (ReadFile os (path_join [root, path, ''freezer.state'']) w) (\<lambda>current. Ok (to_lower (trim_space current)))"

definition waitState :: "'w os \<Rightarrow> string \<Rightarrow> string \<Rightarrow> string \<Rightarrow> 'w \<Rightarrow> (unit outcome \<times> 'w) option" where
  "waitState os root path state w =
     poll_until (changeState os root path state) (freezer_state os root path) (os_sleep os 1) state w"

definition freezer_Freeze :: "'w os \<Rightarrow> string \<Rightarrow> string \<Rightarrow> 'w \<Rightarrow> (unit outcome \<times> 'w) option" where
  "freezer_Freeze os root path w = waitState os root path Frozen1 w"

definition freezer_Thaw :: "'w os \<Rightarrow> string \<Rightarrow> string \<Rightarrow> 'w \<Rightarrow> (unit outcome \<times> 'w) option" where
  "freezer_Thaw os root path w = waitState os root path Thawed1 w"

lemma for_each_map: "for_each f (map g xs) w = for_each (\<lambda>x. f (g x)) xs w"
  by (induction xs arbitrary: w) (auto split: prod.splits outcome.splits)

section \<open>The contract of a controller that writes settings\<close>

text \<open>The interface: creating makes the directory of the group and then writes the files that the
  resources stand for.\<close>

locale settings =
  fixes create :: "'w os \<Rightarrow> 'c \<Rightarrow> string \<Rightarrow> LinuxResources option \<Rightarrow> ('w, unit) go"
    and dir :: "'c \<Rightarrow> string \<Rightarrow> string"
    and files :: "LinuxResources \<Rightarrow> (string \<times> string) list"
  assumes create_eq: "create os c path r = create_group os (dir c path) files r"
begin

lemma create_nil: "os_mkdir_all os (dir c path) w = (None, w1) \<Longrightarrow> create os c path None w = (Panic, w1)"
  by (simp add: create_eq create_group_def seqn_def bnd_def)

lemma create_no_dir: "os_mkdir_all os (dir c path) w = (Some e, w1) \<Longrightarrow> create os c path r w = (Err e, w1)"
  by (simp add: create_eq create_group_def seqn_def bnd_def)

text \<open>On a disk where these files can be written the call succeeds, and every file holds the last value
  written to it.\<close>

lemma create_read_back:
  assumes "disk os good writable" and "os_mkdir_all os (dir c path) w = (None, w1)" and "good w1"
    and "\<And>kv. kv \<in> set (files r) \<Longrightarrow> writable (path_join [dir c path, fst kv]) w1"
  shows "\<exists>w2. create os c path (Some r) w = (Ok (), w2) \<and> good w2 \<and>
    (\<forall>p d. assign_all (map (\<lambda>kv. (path_join [dir c path, fst kv], snd kv)) (files r)) p = Some d \<longrightarrow> ReadFile os p w2 = Ok d)"
proof -
  let ?fs = "map (\<lambda>kv. (path_join [dir c path, fst kv], snd kv)) (files r)"
  have wr: "pd \<in> set ?fs \<Longrightarrow> writable (fst pd) w1" for pd using assms(4) by auto
  obtain w2 where w2: "for_each (\<lambda>pd. sys (os_write_file os (fst pd) (snd pd))) ?fs w1 = (Ok (), w2)" "good w2"
    using disk.write_all_ok [OF assms(1,3) wr] by blast
  have "write_settings os (dir c path) (files r) w1 = for_each (\<lambda>pd. sys (os_write_file os (fst pd) (snd pd))) ?fs w1"
    by (simp add: write_settings_def for_each_map)
  then have "create os c path (Some r) w = (Ok (), w2)"
    using w2(1) assms(2) by (simp add: create_eq create_group_def seqn_def bnd_def)
  moreover have "ReadFile os p w2 = Ok d" if "assign_all ?fs p = Some d" for p d
    using disk.read_back [OF assms(1,3) wr w2(1) that] by simp
  ultimately show ?thesis using w2(2) by blast
qed

end

lemma write_settings_Nil [simp]: "write_settings os dir [] = ret ()"
  by (rule ext) (simp add: write_settings_def)

definition memory_create_files :: "LinuxResources \<Rightarrow> (string \<times> string) list" where
  "memory_create_files r = (case lx_Memory r of None \<Rightarrow> [] | Some mem \<Rightarrow> memory_files (getMemorySettings mem))"

interpretation cpu_settings: settings cpu_Create cpu_Path cpu_files
  by unfold_locales (simp add: cpu_Create_def)

interpretation memory_settings: settings memory_Create memory_Path memory_create_files
  by unfold_locales
    (auto simp: memory_Create_def create_group_def memory_create_files_def memory_set_def fun_eq_iff seqn_def split: option.splits)

interpretation pids_settings: settings pids_Create pids_Path pids_files
  by unfold_locales (simp add: pids_Create_def)

interpretation hugetlb_settings: settings hugetlb_Create hugetlb_Path hugetlb_files
  by unfold_locales (simp add: hugetlb_Create_def)

interpretation netcls_settings: settings netcls_Create netcls_Path netcls_files
  by unfold_locales (simp add: netcls_Create_def)

interpretation netprio_settings: settings netprio_Create netprio_Path netprio_files
  by unfold_locales (simp add: netprio_Create_def)

interpretation rdma_settings: settings rdma_Create rdma_Path rdma_files
  by unfold_locales (simp add: rdma_Create_def)

interpretation devices_settings: settings devices_Create devices_Path devices_files
  by unfold_locales (simp add: devices_Create_def)

interpretation blkio_settings: settings blkio_Create blkio_Path blkio_files
  by unfold_locales (simp add: blkio_Create_def)

section \<open>Properties\<close>

text \<open>The v1 RDMA controller writes the limits of one device only, whatever their number: its loop
  over the devices returns after the first that has limits, and in which order Go visits the map is
  open.\<close>

theorem rdma_one_device:
  "length (rdma_files r) \<le> 1 \<and>
   (\<forall>d l. lx_Rdma r = Some ((d, l) # ds) \<and> d \<noteq> [] \<and> lr_HcaHandles l \<noteq> None \<longrightarrow>
      rdma_files r = [(''rdma.max'', createCmdString d l)])"
  by (auto simp: rdma_files_def rdma_written_def split: option.split)

theorem rdma_one_device_witness:
  "rdma_files \<lparr>lx_Devices = [], lx_Memory = None, lx_CPU = None, lx_Pids = None, lx_BlockIO = None, lx_HugepageLimits = None,
     lx_Network = None, lx_Rdma = Some [(''mlx0'', \<lparr>lr_HcaHandles = Some 2, lr_HcaObjects = None\<rparr>),
       (''mlx1'', \<lparr>lr_HcaHandles = Some 3, lr_HcaObjects = None\<rparr>)]\<rparr> = [(''rdma.max'', ''mlx0 hca_handle=2'')]"
  (is "rdma_files ?r = _")
proof -
  have "rdma_files ?r = [(''rdma.max'', createCmdString ''mlx0'' \<lparr>lr_HcaHandles = Some 2, lr_HcaObjects = None\<rparr>)]"
    using rdma_one_device [of ?r "[(''mlx1'', \<lparr>lr_HcaHandles = Some 3, lr_HcaObjects = None\<rparr>)]"] by simp
  then show ?thesis by (simp add: createCmdString_def print_eval)
qed

text \<open>The order in which an update writes the memory limits: the limit of memory and swap is always
  written after the memory limit, even when it is raised above the current memory limit (what is swapped
  then is the memory limit and the soft limit); so if the kernel refuses the memory limit because it
  exceeds the old limit of memory and swap, the update fails without having tried the latter.\<close>

theorem memory_update_limit_before_swap:
  assumes "lx_Memory res = Some mem" and "lm_Limit mem = Some l" and "lm_Swap mem = Some s"
    and "0 < sint l" and "0 < sint s"
    and "readUint os (path_join [memory_Path m path, ''memory.limit_in_bytes'']) w = Ok current"
  shows "\<exists>as bs cs. memory_Update os m path (Some res) w = write_settings os (memory_Path m path)
      (as @ (''memory.limit_in_bytes'', FormatInt l) # bs @ (''memory.memsw.limit_in_bytes'', FormatInt s) # cs) w
    \<and> set (map fst as) \<subseteq> {''memory.soft_limit_in_bytes''}"
proof -
  let ?soft = "somes [map_option (\<lambda>v. (''memory.soft_limit_in_bytes'', FormatInt v)) (lm_Reservation mem)]"
  let ?rest = "somes [map_option (\<lambda>v. (''memory.kmem.limit_in_bytes'', FormatInt v)) (lm_Kernel mem),
    map_option (\<lambda>v. (''memory.kmem.tcp.limit_in_bytes'', FormatInt v)) (lm_KernelTCP mem),
    map_option (\<lambda>v. (''memory.oom_control'', FormatInt v)) (getOomControlValue mem),
    map_option (\<lambda>v. (''memory.swappiness'', FormatInt v)) (lm_Swappiness mem)]"
  let ?l = "(''memory.limit_in_bytes'', FormatInt l)" and ?s = "(''memory.memsw.limit_in_bytes'', FormatInt s)"
  have cons: "somes (x # xs) = somes [x] @ somes xs" for x :: "(string \<times> string) option" and xs
    by (cases x) simp_all
  have plain: "memory_files (getMemorySettings mem) = [] @ ?l # ?soft @ ?s # ?rest"
    unfolding memory_files_def getMemorySettings_def assms(2,3) list.map prod.case option.map
    by (simp only: somes.simps append_Nil cons [of "map_option _ (lm_Reservation mem)" "Some _ # _"]) simp
  have swapped: "memory_files (swap_first_two (getMemorySettings mem)) = ?soft @ ?l # [] @ ?s # ?rest"
    unfolding memory_files_def getMemorySettings_def swap_first_two_def list.case assms(2,3) list.map prod.case option.map
    by (simp only: somes.simps append_Nil cons [of "map_option _ (lm_Reservation mem)" "Some _ # _"]) simp
  have soft: "set (map fst ?soft) \<subseteq> {''memory.soft_limit_in_bytes''}" by (cases "lm_Reservation mem") simp_all
  have run: "memory_Update os m path (Some res) w = write_settings os (memory_Path m path)
      (memory_files (if current < s then swap_first_two (getMemorySettings mem) else getMemorySettings mem)) w"
    using assms by (simp add: memory_Update_def positive_def bnd_def memory_set_def Let_def)
  show ?thesis
  proof (cases "current < s")
    case True
    then show ?thesis unfolding run if_P [OF True] swapped using soft by blast
  next
    case False
    have "set (map fst ([] :: (string \<times> string) list)) \<subseteq> {''memory.soft_limit_in_bytes''}" by simp
    then show ?thesis unfolding run if_not_P [OF False] plain by blast
  qed
qed

theorem memory_update_limit_before_swap_witness:
  "\<exists>as bs cs. memory_Update mem_os \<lparr>mc_root = ''/m'', mc_ignored = []\<rparr> ''/a''
      (Some \<lparr>lx_Devices = [], lx_Memory = Some \<lparr>lm_Limit = Some 300, lm_Reservation = None, lm_Swap = Some 400, lm_Kernel = None,
         lm_KernelTCP = None, lm_Swappiness = None, lm_DisableOOMKiller = None\<rparr>, lx_CPU = None, lx_Pids = None, lx_BlockIO = None,
        lx_HugepageLimits = None, lx_Network = None, lx_Rdma = None\<rparr>)
      \<lparr>mem_files = [(''/m/a/memory.limit_in_bytes'', ''100'')], mem_dirs = [''/m/a''], mem_faults = []\<rparr> =
    write_settings mem_os ''/m/a''
      (as @ (''memory.limit_in_bytes'', ''300'') # bs @ (''memory.memsw.limit_in_bytes'', ''400'') # cs)
      \<lparr>mem_files = [(''/m/a/memory.limit_in_bytes'', ''100'')], mem_dirs = [''/m/a''], mem_faults = []\<rparr>"
proof -
  let ?mem = "\<lparr>lm_Limit = Some 300, lm_Reservation = None, lm_Swap = Some 400, lm_Kernel = None,
         lm_KernelTCP = None, lm_Swappiness = None, lm_DisableOOMKiller = None\<rparr> :: LinuxMemory"
  let ?w = "\<lparr>mem_files = [(''/m/a/memory.limit_in_bytes'', ''100'')], mem_dirs = [''/m/a''], mem_faults = []\<rparr>"
  let ?m = "\<lparr>mc_root = ''/m'', mc_ignored = []\<rparr>"
  have path: "memory_Path ?m ''/a'' = ''/m/a''" "path_join [''/m/a'', ''memory.limit_in_bytes''] = ''/m/a/memory.limit_in_bytes''"
    by (simp_all add: memory_Path_def path_eval)
  have word: "plain_word ''100''" by (simp add: plain_word_def plain_char_def ascii_space_def)
  have "readUint mem_os ''/m/a/memory.limit_in_bytes'' ?w = Ok 100"
    by (simp add: readUint_def mem_open_def fault_def read32_def trim_space_word [OF word] parseUint_def parse_eval)
  then have rd: "readUint mem_os (path_join [memory_Path ?m ''/a'', ''memory.limit_in_bytes'']) ?w = Ok 100"
    unfolding path .
  have num: "FormatInt 300 = ''300''" "FormatInt 400 = ''400''" by (simp_all add: print_eval)
  let ?res = "\<lparr>lx_Devices = [], lx_Memory = Some ?mem, lx_CPU = None, lx_Pids = None, lx_BlockIO = None,
        lx_HugepageLimits = None, lx_Network = None, lx_Rdma = None\<rparr>"
  from memory_update_limit_before_swap [where res = ?res and mem = ?mem and l = 300 and s = 400, OF _ _ _ _ _ rd, unfolded path num]
  obtain as bs cs where "memory_Update mem_os ?m ''/a'' (Some ?res) ?w = write_settings mem_os ''/m/a''
      (as @ (''memory.limit_in_bytes'', ''300'') # bs @ (''memory.memsw.limit_in_bytes'', ''400'') # cs) ?w"
    by auto
  then show ?thesis by blast
qed

end
