(* ===== verification/V1Stats.thy ===== *)
theory V1Stats
  imports V1Metrics V1Controllers
begin

text \<open>
  The statistics of \<open>cgroup1\<close>: the \<open>Stat\<close> methods of the controllers with their parsers. A method fills
  its part of the message \<open>Metrics\<close>, also partly before an error, so it is a function on the message that
  returns an outcome; the system is read in one state \<open>w\<close>. Each method only touches its own part of the
  message, and its outcome does not depend on the rest: the predicate \<open>owns\<close>.
\<close>

type_synonym stat = "(Metrics1, unit) go"

section \<open>Key-value files\<close>

fun kv_loop1 :: "(nat \<Rightarrow> gerror \<Rightarrow> gerror) \<Rightarrow> nat \<Rightarrow> string list \<Rightarrow> counters \<Rightarrow> counters outcome" where
  "kv_loop1 bad line [] raw = Ok raw"
| "kv_loop1 bad line (l # ls) raw = (case parseKV1 l of
     Ok (key, v) \<Rightarrow> kv_loop1 bad (Suc line) ls (AList.update key v raw)
   | Err e \<Rightarrow> Err (bad line e)
   | Panic \<Rightarrow> Panic)"

definition parse_counters :: "(nat \<Rightarrow> gerror \<Rightarrow> gerror) \<Rightarrow> string \<times> gerror option \<Rightarrow> counters outcome" where
  "parse_counters bad f = (case f of (d, rd) \<Rightarrow> (case scan_lines d rd of (ls, serr) \<Rightarrow>
     bind_out (kv_loop1 bad 0 ls []) (\<lambda>raw. case serr of Some e \<Rightarrow> Err e | None \<Rightarrow> Ok raw)))"

definition numbered :: "nat \<Rightarrow> gerror \<Rightarrow> gerror" where
  "numbered line e = ErrMsg (show_nat line @ '': '' @ error_text e)"

section \<open>cpu and cpuacct\<close>

definition set_throttling :: "string \<Rightarrow> u64 \<Rightarrow> Throttle \<Rightarrow> Throttle" where
  "set_throttling key v t =
     (if key = ''nr_periods'' then t\<lparr>th_Periods := v\<rparr>
      else if key = ''nr_throttled'' then t\<lparr>th_ThrottledPeriods := v\<rparr>
      else if key = ''throttled_time'' then t\<lparr>th_ThrottledTime := v\<rparr>
      else t)"

text \<open>The message has a CPU part when the methods run; without it they dereference a nil pointer.\<close>

fun cpu_lines :: "string list \<Rightarrow> stat" where
  "cpu_lines [] s = (Ok (), s)"
| "cpu_lines (l # ls) s = (case parseKV1 l of
     Ok (key, v) \<Rightarrow>
       if key \<in> {''nr_periods'', ''nr_throttled'', ''throttled_time''} \<and> mt1_CPU s = None then (Panic, s)
       else cpu_lines ls (s\<lparr>mt1_CPU := map_option (c1_Throttling_update (set_throttling key v)) (mt1_CPU s)\<rparr>)
   | Err e \<Rightarrow> (Err e, s)
   | Panic \<Rightarrow> (Panic, s))"

definition cpu_Stat :: "'w os \<Rightarrow> string \<Rightarrow> string \<Rightarrow> 'w \<Rightarrow> stat" where
  "cpu_Stat os root path w s = (case os_open os (path_join [cpu_Path root path, ''cpu.stat'']) w of
     Inl e \<Rightarrow> (Err e, s)
   | Inr (d, rd) \<Rightarrow> (case scan_lines d rd of (ls, serr) \<Rightarrow>
       seqn (cpu_lines ls) (case serr of Some e \<Rightarrow> fail e | None \<Rightarrow> ret ()) s))"

definition nanosecondsInSecond :: u64 where "nanosecondsInSecond = 1000000000"
definition getClockTicks :: u64 where "getClockTicks = 100"

definition cpuacct_Path :: "string \<Rightarrow> string \<Rightarrow> string" where
  "cpuacct_Path root path = path_join [root, path]"

definition missing_field :: "string \<Rightarrow> string \<Rightarrow> gerror" where
  "missing_field name statPath = ErrMsg (''expected field '' @ quoted name @ '' but not found in '' @ quoted statPath)"

definition getUsage :: "'w os \<Rightarrow> string \<Rightarrow> string \<Rightarrow> 'w \<Rightarrow> (u64 \<times> u64) outcome" where
  "getUsage os root path w =
     (let statPath = path_join [cpuacct_Path root path, ''cpuacct.stat'']
      in case os_open os statPath w of
           Inl e \<Rightarrow> Err e
         | Inr f \<Rightarrow> bind_out (parse_counters (\<lambda>_ e. e) f) (\<lambda>raw.
             (case map_of raw ''user'' of
                None \<Rightarrow> Err (missing_field ''user'' statPath)
              | Some user \<Rightarrow> (case map_of raw ''system'' of
                  None \<Rightarrow> Err (missing_field ''system'' statPath)
                | Some krn \<Rightarrow> Ok (user * nanosecondsInSecond div getClockTicks,
                                   krn * nanosecondsInSecond div getClockTicks)))))"

fun parse_uints :: "string list \<Rightarrow> u64 list outcome" where
  "parse_uints [] = Ok []"
| "parse_uints (v # vs) = (case ParseUint v 64 of
     (u, Some e) \<Rightarrow> Err (NumError ''ParseUint'' v e)
   | (u, None) \<Rightarrow> bind_out (parse_uints vs) (\<lambda>us. Ok (u # us)))"

definition percpuUsage :: "'w os \<Rightarrow> string \<Rightarrow> string \<Rightarrow> 'w \<Rightarrow> u64 list outcome" where
  "percpuUsage os root path w =
     bind_out (ReadFile os (path_join [cpuacct_Path root path, ''cpuacct.usage_percpu'']) w) (\<lambda>d. parse_uints (Fields d))"

definition cpuacct_Stat :: "'w os \<Rightarrow> string \<Rightarrow> string \<Rightarrow> 'w \<Rightarrow> stat" where
  "cpuacct_Stat os root path w =
     bnd (lift_out (getUsage os root path w)) (\<lambda>(user, krn).
     bnd (lift_out (readUint os (path_join [cpuacct_Path root path, ''cpuacct.usage'']) w)) (\<lambda>total.
     bnd (lift_out (percpuUsage os root path w)) (\<lambda>percpu s.
       (if mt1_CPU s = None then (Panic, s)
        else (Ok (), s\<lparr>mt1_CPU := map_option (c1_Usage_update (\<lambda>_.
          \<lparr>cu_Total = total, cu_Kernel = krn, cu_User = user, cu_PerCPU = percpu\<rparr>)) (mt1_CPU s)\<rparr>)))))"

section \<open>pids, hugetlb, rdma\<close>

definition pids_Stat :: "'w os \<Rightarrow> string \<Rightarrow> string \<Rightarrow> 'w \<Rightarrow> stat" where
  "pids_Stat os root path w =
     bnd (lift_out (readUint os (path_join [pids_Path root path, ''pids.current'']) w)) (\<lambda>current.
     bnd (lift_out (readUint os (path_join [pids_Path root path, ''pids.max'']) w)) (\<lambda>pidsMax s.
       (Ok (), s\<lparr>mt1_Pids := Some \<lparr>p1_Current = current, p1_Limit = pidsMax\<rparr>\<rparr>)))"

definition readSizeStat :: "'w os \<Rightarrow> hugetlbController \<Rightarrow> string \<Rightarrow> string \<Rightarrow> 'w \<Rightarrow> HugetlbStat outcome" where
  "readSizeStat os h path pagesize w =
     (let file = (\<lambda>name. path_join [hugetlb_Path h path, join [''hugetlb'', pagesize, name] ''.''])
      in bind_out (readUint os (file ''usage_in_bytes'') w) (\<lambda>usage.
         bind_out (readUint os (file ''max_usage_in_bytes'') w) (\<lambda>mx.
         bind_out (readUint os (file ''failcnt'') w) (\<lambda>failcnt.
           Ok \<lparr>h1_Usage = usage, h1_Max = mx, h1_Failcnt = failcnt, h1_Pagesize = pagesize\<rparr>))))"

definition hugetlb_Stat :: "'w os \<Rightarrow> hugetlbController \<Rightarrow> string \<Rightarrow> 'w \<Rightarrow> stat" where
  "hugetlb_Stat os h path w =
     for_each (\<lambda>pagesize. bnd (lift_out (readSizeStat os h path pagesize w)) (\<lambda>st s.
       (Ok (), s\<lparr>mt1_Hugetlb := mt1_Hugetlb s @ [st]\<rparr>))) (hc_sizes h)"

definition parseRdmaKV1 :: "string \<Rightarrow> RdmaEntry1 \<Rightarrow> RdmaEntry1" where
  "parseRdmaKV1 raw entry = (case cut raw CHR ''='' of
     None \<Rightarrow> entry
   | Some (k, v) \<Rightarrow>
       (case (if v = ''max'' then (2 ^ 32 - 1, None) else parseUint v 32) of
          (value, Some _) \<Rightarrow> entry
        | (value, None) \<Rightarrow>
            if k = ''hca_handle'' then entry\<lparr>r1_HcaHandles := ucast value\<rparr>
            else if k = ''hca_object'' then entry\<lparr>r1_HcaObjects := ucast value\<rparr>
            else entry))"

fun toRdmaEntry1 :: "string list \<Rightarrow> RdmaEntry1 list" where
  "toRdmaEntry1 [] = []"
| "toRdmaEntry1 (s # ss) = (case Fields s of
     [dev, a, b] \<Rightarrow>
       parseRdmaKV1 b (parseRdmaKV1 a \<lparr>r1_Device = dev, r1_HcaHandles = 0, r1_HcaObjects = 0\<rparr>) # toRdmaEntry1 ss
   | _ \<Rightarrow> toRdmaEntry1 ss)"

definition rdma_Stat :: "'w os \<Rightarrow> string \<Rightarrow> string \<Rightarrow> 'w \<Rightarrow> stat" where
  "rdma_Stat os root path w =
     bnd (lift_out (ReadFile os (path_join [rdma_Path root path, ''rdma.current'']) w)) (\<lambda>currentData.
     bnd (lift_out (ReadFile os (path_join [rdma_Path root path, ''rdma.max'']) w)) (\<lambda>maxData s.
       (let currentPerDevices = split CHR 0x0A currentData; maxPerDevices = split CHR 0x0A maxData
        in if length currentPerDevices \<noteq> length maxPerDevices then (Ok (), s)
           else (Ok (), s\<lparr>mt1_Rdma := Some
             \<lparr>r1s_Current = toRdmaEntry1 currentPerDevices, r1s_Limit = toRdmaEntry1 maxPerDevices\<rparr>\<rparr>))))"

section \<open>memory\<close>

definition memory_stat1_of :: "counters \<Rightarrow> MemoryStat1" where
  "memory_stat1_of raw =
     \<lparr>m1_Cache = mget raw ''cache'', m1_RSS = mget raw ''rss'', m1_RSSHuge = mget raw ''rss_huge'', m1_MappedFile
      = mget raw ''mapped_file'', m1_Dirty = mget raw ''dirty'', m1_Writeback = mget raw ''writeback'', m1_PgPgIn
      = mget raw ''pgpgin'', m1_PgPgOut = mget raw ''pgpgout'', m1_PgFault = mget raw ''pgfault'', m1_PgMajFault =
      mget raw ''pgmajfault'', m1_InactiveAnon = mget raw ''inactive_anon'', m1_ActiveAnon = mget raw
      ''active_anon'', m1_InactiveFile = mget raw ''inactive_file'', m1_ActiveFile = mget raw ''active_file'',
      m1_Unevictable = mget raw ''unevictable'', m1_HierarchicalMemoryLimit = mget raw
      ''hierarchical_memory_limit'', m1_HierarchicalSwapLimit = mget raw ''hierarchical_memsw_limit'',
      m1_TotalCache = mget raw ''total_cache'', m1_TotalRSS = mget raw ''total_rss'', m1_TotalRSSHuge = mget raw
      ''total_rss_huge'', m1_TotalMappedFile = mget raw ''total_mapped_file'', m1_TotalDirty = mget raw
      ''total_dirty'', m1_TotalWriteback = mget raw ''total_writeback'', m1_TotalPgPgIn = mget raw
      ''total_pgpgin'', m1_TotalPgPgOut = mget raw ''total_pgpgout'', m1_TotalPgFault = mget raw
      ''total_pgfault'', m1_TotalPgMajFault = mget raw ''total_pgmajfault'', m1_TotalInactiveAnon = mget raw
      ''total_inactive_anon'', m1_TotalActiveAnon = mget raw ''total_active_anon'', m1_TotalInactiveFile = mget
      raw ''total_inactive_file'', m1_TotalActiveFile = mget raw ''total_active_file'', m1_TotalUnevictable = mget
      raw ''total_unevictable'', m1_Usage = entry0, m1_Swap = entry0, m1_Kernel = entry0, m1_KernelTCP = entry0\<rparr>"

definition parseStats :: "string \<times> gerror option \<Rightarrow> MemoryStat1 outcome" where
  "parseStats f = bind_out (parse_counters numbered f) (\<lambda>raw. Ok (memory_stat1_of raw))"

definition parseOomControlStats :: "string \<times> gerror option \<Rightarrow> MemoryOomControl outcome" where
  "parseOomControlStats f = bind_out (parse_counters numbered f) (\<lambda>raw.
     Ok \<lparr>oom_OomKillDisable = mget raw ''oom_kill_disable'', oom_UnderOom = mget raw ''under_oom'', oom_OomKill = mget raw ''oom_kill''\<rparr>)"

text \<open>The table of modules with the entry that each fills, and of the files of a module.\<close>

definition memory_modules :: "(string \<times> ((MemoryEntry \<Rightarrow> MemoryEntry) \<Rightarrow> MemoryStat1 \<Rightarrow> MemoryStat1)) list" where
  "memory_modules = [([], m1_Usage_update), (''memsw'', m1_Swap_update), (''kmem'', m1_Kernel_update), (''kmem.tcp'', m1_KernelTCP_update)]"

definition entry_files :: "(string \<times> (u64 \<Rightarrow> MemoryEntry \<Rightarrow> MemoryEntry)) list" where
  "entry_files = [(''usage_in_bytes'', \<lambda>v e. e\<lparr>me_Usage := v\<rparr>), (''max_usage_in_bytes'', \<lambda>v e. e\<lparr>me_Max := v\<rparr>),
     (''failcnt'', \<lambda>v e. e\<lparr>me_Failcnt := v\<rparr>), (''limit_in_bytes'', \<lambda>v e. e\<lparr>me_Limit := v\<rparr>)]"

definition memory_module :: "'w os \<Rightarrow> memoryController \<Rightarrow> string \<Rightarrow> 'w \<Rightarrow>
    string \<times> ((MemoryEntry \<Rightarrow> MemoryEntry) \<Rightarrow> MemoryStat1 \<Rightarrow> MemoryStat1) \<Rightarrow> stat" where
  "memory_module os m path w t = (case t of (module, entry) \<Rightarrow>
     if module \<in> set (mc_ignored m) then ret ()
     else for_each (\<lambda>(name, value).
       bnd (lift_out (readUint os (path_join [memory_Path m path,
              join ([''memory''] @ (if module \<noteq> [] then [module] else []) @ [name]) ''.'']) w)) (\<lambda>v s.
         (Ok (), s\<lparr>mt1_Memory := map_option (entry (value v)) (mt1_Memory s)\<rparr>))) entry_files)"

definition memory_Stat :: "'w os \<Rightarrow> memoryController \<Rightarrow> string \<Rightarrow> 'w \<Rightarrow> stat" where
  "memory_Stat os m path w s = (case os_open os (path_join [memory_Path m path, ''memory.stat'']) w of
     Inl e \<Rightarrow> (Err e, s)
   | Inr f \<Rightarrow> (case parseStats f of
       Err e \<Rightarrow> (Err e, s\<lparr>mt1_Memory := Some memory0\<rparr>)
     | Panic \<Rightarrow> (Panic, s\<lparr>mt1_Memory := Some memory0\<rparr>)
     | Ok stat \<Rightarrow> (let s1 = s\<lparr>mt1_Memory := Some stat\<rparr>
         in case os_open os (path_join [memory_Path m path, ''memory.oom_control'']) w of
              Inl e \<Rightarrow> (Err e, s1)
            | Inr g \<Rightarrow> (case parseOomControlStats g of
                Err e \<Rightarrow> (Err e, s1\<lparr>mt1_MemoryOomControl := Some oom0\<rparr>)
              | Panic \<Rightarrow> (Panic, s1\<lparr>mt1_MemoryOomControl := Some oom0\<rparr>)
              | Ok oom \<Rightarrow> for_each (memory_module os m path w) memory_modules (s1\<lparr>mt1_MemoryOomControl := Some oom\<rparr>)))))"

section \<open>blkio\<close>

type_synonym devices = "((u64 \<times> u64) \<times> string) list"

fun device_lines :: "nat \<Rightarrow> string list \<Rightarrow> devices \<Rightarrow> devices outcome" where
  "device_lines i [] devs = Ok devs"
| "device_lines i (l # ls) devs =
     (if i < 2 then device_lines (Suc i) ls devs
      else let fs = Fields l
      in if length fs < 1 then Panic
         else (case Atoi (fs ! 0) of
             (_, Some e) \<Rightarrow> Err (NumError ''Atoi'' (fs ! 0) e)
           | (major, None) \<Rightarrow>
               if length fs < 2 then Panic
               else (case Atoi (fs ! 1) of
                   (_, Some e) \<Rightarrow> Err (NumError ''Atoi'' (fs ! 1) e)
                 | (minor, None) \<Rightarrow>
                     if map_of devs (major, minor) \<noteq> None then device_lines (Suc i) ls devs
                     else if length fs < 4 then Panic
                     else device_lines (Suc i) ls (devs @ [((major, minor), path_join [''/dev'', fs ! 3])]))))"

definition getDevices :: "string \<times> gerror option \<Rightarrow> devices outcome" where
  "getDevices f = (case f of (d, rd) \<Rightarrow> (case scan_lines d rd of (ls, serr) \<Rightarrow>
     bind_out (device_lines 0 ls []) (\<lambda>devs. case serr of Some e \<Rightarrow> Err e | None \<Rightarrow> Ok devs)))"

definition splitBlkIOStatLine :: "char \<Rightarrow> bool" where
  "splitBlkIOStatLine r = (r = CHR '' '' \<or> r = CHR '':'')"

text \<open>The loop over the lines of a file: the entries up to the first error, and that error.\<close>

fun blkio_lines :: "devices \<Rightarrow> string \<Rightarrow> string list \<Rightarrow> BlkIOEntry list \<times> gerror option" where
  "blkio_lines devs path [] = ([], None)"
| "blkio_lines devs path (l # ls) =
     (let fs = fields_func splitBlkIOStatLine l
      in if length fs < 3 then
           (if length fs = 2 \<and> fs ! 0 = ''Total'' then blkio_lines devs path ls
            else ([], Some (ErrMsg (''invalid line found while parsing '' @ path @ '': '' @ l))))
         else (case ParseUint (fs ! 0) 64 of
             (_, Some e) \<Rightarrow> ([], Some (NumError ''ParseUint'' (fs ! 0) e))
           | (major, None) \<Rightarrow> (case ParseUint (fs ! 1) 64 of
               (_, Some e) \<Rightarrow> ([], Some (NumError ''ParseUint'' (fs ! 1) e))
             | (minor, None) \<Rightarrow>
                 (let opn = (if length fs = 4 then fs ! 2 else []); valueField = (if length fs = 4 then 3 else 2)
                  in case ParseUint (fs ! valueField) 64 of
                       (_, Some e) \<Rightarrow> ([], Some (NumError ''ParseUint'' (fs ! valueField) e))
                     | (v, None) \<Rightarrow> (case blkio_lines devs path ls of (es, err) \<Rightarrow>
                         (\<lparr>be_Op = opn, be_Device = (case map_of devs (major, minor) of Some d \<Rightarrow> d | None \<Rightarrow> []),
                           be_Major = major, be_Minor = minor, be_Value = v\<rparr> # es, err))))))"

definition readEntry :: "'w os \<Rightarrow> blkioController \<Rightarrow> devices \<Rightarrow> string \<Rightarrow> string \<Rightarrow> 'w \<Rightarrow> BlkIOEntry list \<times> gerror option" where
  "readEntry os b devs path name w = (case os_open os (path_join [blkio_Path b path, ''blkio.'' @ name]) w of
     Inl e \<Rightarrow> ([], Some e)
   | Inr (d, rd) \<Rightarrow> (case scan_lines d rd of (ls, serr) \<Rightarrow>
       (case blkio_lines devs path ls of (es, None) \<Rightarrow> (es, serr) | (es, Some e) \<Rightarrow> (es, Some e))))"

type_synonym blkioStatSettings = "string \<times> ((BlkIOEntry list \<Rightarrow> BlkIOEntry list) \<Rightarrow> BlkIOStat \<Rightarrow> BlkIOStat)"

definition cfq_settings :: "blkioStatSettings list" where
  "cfq_settings = [(''sectors_recursive'', bs_SectorsRecursive_update),
     (''io_service_bytes_recursive'', bs_IoServiceBytesRecursive_update), (''io_serviced_recursive'', bs_IoServicedRecursive_update),
     (''io_queued_recursive'', bs_IoQueuedRecursive_update), (''io_service_time_recursive'', bs_IoServiceTimeRecursive_update),
     (''io_wait_time_recursive'', bs_IoWaitTimeRecursive_update), (''io_merged_recursive'', bs_IoMergedRecursive_update),
     (''time_recursive'', bs_IoTimeRecursive_update)]"

definition throttle_settings :: "blkioStatSettings list" where
  "throttle_settings = [(''throttle.io_serviced'', bs_IoServicedRecursive_update),
     (''throttle.io_service_bytes'', bs_IoServiceBytesRecursive_update)]"

text \<open>The loop over a table: the number of entries read, and the error that ended it.\<close>

fun read_entries :: "'w os \<Rightarrow> blkioController \<Rightarrow> devices \<Rightarrow> string \<Rightarrow> 'w \<Rightarrow> blkioStatSettings list \<Rightarrow> BlkIOStat \<Rightarrow>
    (nat \<times> gerror option) \<times> BlkIOStat" where
  "read_entries os b devs path w [] st = ((0, None), st)"
| "read_entries os b devs path w (t # ts) st = (case readEntry os b devs path (fst t) w of
     (es, Some e) \<Rightarrow> ((0, Some e), snd t (\<lambda>old. old @ es) st)
   | (es, None) \<Rightarrow> (case read_entries os b devs path w ts (snd t (\<lambda>old. old @ es) st) of
       ((n, err), st1) \<Rightarrow> ((length es + n, err), st1)))"

definition blkio_read :: "'w os \<Rightarrow> blkioController \<Rightarrow> string \<Rightarrow> 'w \<Rightarrow> unit outcome \<times> BlkIOStat" where
  "blkio_read os b path w =
     (let settings = (if Lstat os (path_join [blkio_Path b path, ''blkio.io_serviced_recursive'']) w = None then cfq_settings else [])
      in case os_open os (path_join [bc_procRoot b, ''partitions'']) w of
           Inl e \<Rightarrow> (Err e, blkio0)
         | Inr f \<Rightarrow> (case getDevices f of
             Err e \<Rightarrow> (Err e, blkio0)
           | Panic \<Rightarrow> (Panic, blkio0)
           | Ok devs \<Rightarrow> (case read_entries os b devs path w settings blkio0 of
               ((n, Some e), st) \<Rightarrow> (Err e, st)
             | ((n, None), st) \<Rightarrow>
                 if 0 < n then (Ok (), st)
                 else (case read_entries os b devs path w throttle_settings st of
                     ((_, Some e), st1) \<Rightarrow> (Err e, st1) | ((_, None), st1) \<Rightarrow> (Ok (), st1)))))"

definition blkio_Stat :: "'w os \<Rightarrow> blkioController \<Rightarrow> string \<Rightarrow> 'w \<Rightarrow> stat" where
  "blkio_Stat os b path w s = (case blkio_read os b path w of (r, st) \<Rightarrow> (r, s\<lparr>mt1_Blkio := Some st\<rparr>))"

section \<open>The part of the message that a method fills\<close>

text \<open>\<open>owns U st\<close>: on a message with a CPU part, \<open>st\<close> has one outcome and one effect, whatever the message, and
  the effect is one of \<open>U\<close>.\<close>

definition owns :: "(Metrics1 \<Rightarrow> Metrics1) set \<Rightarrow> stat \<Rightarrow> bool" where
  "owns U st = (\<exists>r F. F \<in> U \<and> (\<forall>s. mt1_CPU s \<noteq> None \<longrightarrow> st s = (r, F s)))"

text \<open>A slot: a set of effects that can be run one after the other and that keep the CPU part.\<close>

locale slot =
  fixes U :: "(Metrics1 \<Rightarrow> Metrics1) set"
  assumes id_in: "id \<in> U"
    and comp_in: "F \<in> U \<Longrightarrow> G \<in> U \<Longrightarrow> G \<circ> F \<in> U"
    and keeps: "F \<in> U \<Longrightarrow> mt1_CPU s \<noteq> None \<Longrightarrow> mt1_CPU (F s) \<noteq> None"
begin

lemma owns_const: "owns U (\<lambda>s. (r, s))"
  unfolding owns_def using id_in by (intro exI [of _ r] exI [of _ id]) simp

lemma owns_bnd: "(\<And>x. owns U (k x)) \<Longrightarrow> owns U (bnd (lift_out r) k)"
proof (cases r)
  case (Ok x)
  assume "\<And>x. owns U (k x)"
  moreover have "bnd (lift_out r) k = k x" by (rule ext) (simp add: bnd_def Ok)
  ultimately show ?thesis by simp
qed (use owns_const [of "Err _"] owns_const [of Panic] in \<open>simp_all add: bnd_def [abs_def]\<close>)

lemma owns_effect: "F \<in> U \<Longrightarrow> owns U (\<lambda>s. (r, F s))"
  unfolding owns_def by blast

lemma owns_then:
  assumes "owns U a" and "owns U b"
  shows "owns U (\<lambda>s. case a s of (Ok u, s1) \<Rightarrow> b s1 | (Err e, s1) \<Rightarrow> (Err e, s1) | (Panic, s1) \<Rightarrow> (Panic, s1))"
proof -
  obtain r F where a: "F \<in> U" "\<And>s. mt1_CPU s \<noteq> None \<Longrightarrow> a s = (r, F s)" using assms(1) unfolding owns_def by blast
  obtain q G where b: "G \<in> U" "\<And>s. mt1_CPU s \<noteq> None \<Longrightarrow> b s = (q, G s)" using assms(2) unfolding owns_def by blast
  show ?thesis
  proof (cases r)
    case (Ok u)
    show ?thesis
      unfolding owns_def
      by (rule exI [of _ q], rule exI [of _ "G \<circ> F"]) (use a b comp_in keeps Ok in auto)
  next
    case (Err e)
    then show ?thesis
      unfolding owns_def by (intro exI [of _ "Err e"] exI [of _ F]) (use a in auto)
  next
    case Panic
    then show ?thesis
      unfolding owns_def by (intro exI [of _ Panic] exI [of _ F]) (use a in auto)
  qed
qed

lemma owns_for_each: "(\<And>x. owns U (f x)) \<Longrightarrow> owns U (for_each f xs)"
proof (induction xs)
  case Nil
  then show ?case using owns_const [of "Ok ()"] by (simp add: fun_eq_iff)
next
  case (Cons x xs)
  have "owns U (\<lambda>s. case f x s of (Ok u, s1) \<Rightarrow> for_each f xs s1 | (Err e, s1) \<Rightarrow> (Err e, s1) | (Panic, s1) \<Rightarrow> (Panic, s1))"
    using Cons by (intro owns_then) auto
  then show ?case by simp
qed

end

text \<open>The effects of one updater of a record field form a slot.\<close>

lemma slot_range:
  assumes "\<And>s. h id s = s" and "\<And>f g s. h g (h f s) = h (g \<circ> f) s" and "\<And>f s. mt1_CPU s \<noteq> None \<Longrightarrow> mt1_CPU (h f s) \<noteq> None"
  shows "slot (range h)"
proof
  show "id \<in> range h" using assms(1) by (intro range_eqI [of _ _ id]) (simp add: fun_eq_iff)
  show "G \<circ> F \<in> range h" if FG: "F \<in> range h" "G \<in> range h" for F G
  proof -
    obtain f g where "F = h f" "G = h g" using FG by auto
    then have "G \<circ> F = h (g \<circ> f)" using assms(2) by (simp add: fun_eq_iff)
    then show ?thesis by simp
  qed
  show "mt1_CPU (F s) \<noteq> None" if "F \<in> range h" "mt1_CPU s \<noteq> None" for F s using that assms(3) by auto
qed

definition throttling_update :: "(Throttle \<Rightarrow> Throttle) \<Rightarrow> Metrics1 \<Rightarrow> Metrics1" where
  "throttling_update f = mt1_CPU_update (map_option (c1_Throttling_update f))"

definition usage_update :: "(CPUUsage \<Rightarrow> CPUUsage) \<Rightarrow> Metrics1 \<Rightarrow> Metrics1" where
  "usage_update f = mt1_CPU_update (map_option (c1_Usage_update f))"

definition memory_update :: "(MemoryStat1 option \<times> MemoryOomControl option \<Rightarrow> MemoryStat1 option \<times> MemoryOomControl option) \<Rightarrow>
    Metrics1 \<Rightarrow> Metrics1" where
  "memory_update f s = (case f (mt1_Memory s, mt1_MemoryOomControl s) of (m, oom) \<Rightarrow> s\<lparr>mt1_Memory := m, mt1_MemoryOomControl := oom\<rparr>)"

lemma option_update_id: "(\<And>x. h id x = x) \<Longrightarrow> mt1_CPU_update (map_option (h id)) s = s"
  by (rule Metrics1.equality) (simp_all add: option.map_ident_strong)

interpretation throttling: slot "range throttling_update"
proof (rule slot_range)
  show "throttling_update id s = s" for s
    unfolding throttling_update_def by (rule option_update_id) (simp add: CPUStat1.equality)
qed (auto simp: throttling_update_def option.map_comp comp_def)

interpretation usage: slot "range usage_update"
proof (rule slot_range)
  show "usage_update id s = s" for s
    unfolding usage_update_def by (rule option_update_id) (simp add: CPUStat1.equality)
qed (auto simp: usage_update_def option.map_comp comp_def)

interpretation memory: slot "range memory_update"
  by (rule slot_range) (auto simp: memory_update_def split: prod.splits)

interpretation pids: slot "range mt1_Pids_update" by (rule slot_range) (simp_all add: comp_def)
interpretation hugetlb: slot "range mt1_Hugetlb_update" by (rule slot_range) (simp_all add: comp_def)
interpretation rdma: slot "range mt1_Rdma_update" by (rule slot_range) (simp_all add: comp_def)
interpretation blkio: slot "range mt1_Blkio_update" by (rule slot_range) (simp_all add: comp_def)


section \<open>Every method owns its slot\<close>

lemma cpu_lines_owns: "owns (range throttling_update) (cpu_lines ls)"
proof (induction ls)
  case Nil
  then show ?case using throttling.owns_const [of "Ok ()"] by (simp add: fun_eq_iff)
next
  case (Cons l ls)
  show ?case
  proof (cases "parseKV1 l")
    case (Ok kv)
    obtain key v where kv: "kv = (key, v)" by (cases kv)
    have "owns (range throttling_update) (\<lambda>s. (Ok (), throttling_update (set_throttling key v) s))"
      by (rule throttling.owns_effect) simp
    from throttling.owns_then [OF this Cons.IH]
    have o: "owns (range throttling_update) (\<lambda>s. cpu_lines ls (throttling_update (set_throttling key v) s))" by simp
    have "cpu_lines (l # ls) s = cpu_lines ls (throttling_update (set_throttling key v) s)" if cpu: "mt1_CPU s \<noteq> None" for s
    proof -
      have "throttling_update (set_throttling key v) s =
          s\<lparr>mt1_CPU := map_option (c1_Throttling_update (set_throttling key v)) (mt1_CPU s)\<rparr>"
        by (simp add: throttling_update_def)
      moreover obtain c where "mt1_CPU s = Some c" using cpu by blast
      ultimately show ?thesis by (simp add: Ok kv)
    qed
    then show ?thesis using o unfolding owns_def by metis
  next
    case (Err e)
    then show ?thesis using throttling.owns_const [of "Err e"] by simp
  next
    case Panic
    then show ?thesis using throttling.owns_const [of Panic] by simp
  qed
qed

lemma cpu_Stat_owns: "owns (range throttling_update) (cpu_Stat os root path w)"
proof (cases "os_open os (path_join [cpu_Path root path, ''cpu.stat'']) w")
  case (Inl e)
  then show ?thesis using throttling.owns_const [of "Err e"] by (simp add: cpu_Stat_def [abs_def])
next
  case (Inr f)
  obtain ls serr where ls: "scan_lines (fst f) (snd f) = (ls, serr)" by fastforce
  have fin: "owns (range throttling_update) (case serr of Some e \<Rightarrow> fail e | None \<Rightarrow> ret ())"
    using throttling.owns_const [of "Err _"] throttling.owns_const [of "Ok ()"]
    by (auto simp: fail_def [abs_def] ret_def [abs_def] split: option.split)
  have "cpu_Stat os root path w = seqn (cpu_lines ls) (case serr of Some e \<Rightarrow> fail e | None \<Rightarrow> ret ())"
    using ls by (cases f) (auto simp: cpu_Stat_def Inr fun_eq_iff)
  then show ?thesis
    using throttling.owns_then [OF cpu_lines_owns fin] by (simp add: seqn_def bnd_def [abs_def])
qed

lemma cpuacct_Stat_owns: "owns (range usage_update) (cpuacct_Stat os root path w)"
proof -
  have eff: "owns (range usage_update) (\<lambda>s. (if mt1_CPU s = None then (Panic, s)
      else (Ok (), s\<lparr>mt1_CPU := map_option (c1_Usage_update (\<lambda>_. u)) (mt1_CPU s)\<rparr>)))" for u
    unfolding owns_def
    by (intro exI [of _ "Ok ()"] exI [of _ "usage_update (\<lambda>_. u)"]) (simp add: usage_update_def)
  show ?thesis
    unfolding cpuacct_Stat_def by (intro usage.owns_bnd) (simp only: split_beta, intro usage.owns_bnd eff)
qed

lemma pids_Stat_owns: "owns (range mt1_Pids_update) (pids_Stat os root path w)"
proof -
  have eff: "owns (range mt1_Pids_update) (\<lambda>s. (Ok (), s\<lparr>mt1_Pids := p\<rparr>))" for p
    by (rule pids.owns_effect) simp
  show ?thesis unfolding pids_Stat_def by (intro pids.owns_bnd eff)
qed

lemma hugetlb_Stat_owns: "owns (range mt1_Hugetlb_update) (hugetlb_Stat os h path w)"
proof -
  have eff: "owns (range mt1_Hugetlb_update) (\<lambda>s. (Ok (), s\<lparr>mt1_Hugetlb := mt1_Hugetlb s @ [st]\<rparr>))" for st
  proof -
    have eq: "s\<lparr>mt1_Hugetlb := mt1_Hugetlb s @ [st]\<rparr> = mt1_Hugetlb_update (\<lambda>h. h @ [st]) s" for s
      by (rule Metrics1.equality) simp_all
    then have "(\<lambda>s. (Ok (), s\<lparr>mt1_Hugetlb := mt1_Hugetlb s @ [st]\<rparr>)) = (\<lambda>s. (Ok (), mt1_Hugetlb_update (\<lambda>h. h @ [st]) s))"
      by (intro ext arg_cong [where f = "Pair (Ok ())"] eq)
    then show ?thesis
      by (rule ssubst [where P = "owns (range mt1_Hugetlb_update)"]) (rule hugetlb.owns_effect, simp)
  qed
  show ?thesis unfolding hugetlb_Stat_def by (intro hugetlb.owns_for_each hugetlb.owns_bnd eff)
qed

lemma rdma_Stat_owns: "owns (range mt1_Rdma_update) (rdma_Stat os root path w)"
proof -
  have eff: "owns (range mt1_Rdma_update) (\<lambda>s. if b then (Ok (), s) else (Ok (), s\<lparr>mt1_Rdma := x\<rparr>))" for b x
    using rdma.owns_effect [of "mt1_Rdma_update (\<lambda>_. x)"] rdma.owns_const [of "Ok ()"] by (cases b) simp_all
  show ?thesis unfolding rdma_Stat_def Let_def by (intro rdma.owns_bnd eff)
qed

lemma blkio_Stat_owns: "owns (range mt1_Blkio_update) (blkio_Stat os b path w)"
proof -
  obtain r st where "blkio_read os b path w = (r, st)" by fastforce
  then show ?thesis
    using blkio.owns_effect [of "mt1_Blkio_update (\<lambda>_. Some st)" r] by (simp add: blkio_Stat_def [abs_def])
qed

lemma memory_module_owns: "owns (range memory_update) (memory_module os m path w t)"
proof -
  have eff: "owns (range memory_update) (\<lambda>s. (Ok (), s\<lparr>mt1_Memory := map_option g (mt1_Memory s)\<rparr>))" for g
  proof -
    have "(\<lambda>s. (Ok (), s\<lparr>mt1_Memory := map_option g (mt1_Memory s)\<rparr>)) =
        (\<lambda>s. (Ok (), memory_update (\<lambda>(m, oom). (map_option g m, oom)) s))"
      by (simp add: memory_update_def fun_eq_iff)
    then show ?thesis using memory.owns_effect [of "memory_update _"] by simp
  qed
  have const: "owns (range memory_update) (ret ())"
    using memory.owns_const [of "Ok ()"] by (simp add: ret_def [abs_def])
  show ?thesis
    unfolding memory_module_def split_beta using const by (auto intro!: memory.owns_for_each memory.owns_bnd eff)
qed

lemma memory_Stat_owns: "owns (range memory_update) (memory_Stat os m path w)"
proof -
  have eff: "owns (range memory_update) (\<lambda>s. (r, s\<lparr>mt1_Memory := x\<rparr>))"
    "owns (range memory_update) (\<lambda>s. (r, s\<lparr>mt1_Memory := x, mt1_MemoryOomControl := y\<rparr>))" for r x y
    using memory.owns_effect [of "memory_update (\<lambda>(m, oom). (x, oom))" r] memory.owns_effect [of "memory_update (\<lambda>_. (x, y))" r]
    by (simp_all add: memory_update_def)
  have all: "owns (range memory_update) (\<lambda>s. for_each (memory_module os m path w) memory_modules (s\<lparr>mt1_Memory := x, mt1_MemoryOomControl := y\<rparr>))" for x y
    using memory.owns_then [OF eff(2) [of "Ok ()"] memory.owns_for_each [OF memory_module_owns]] by simp
  show ?thesis
  proof (cases "os_open os (path_join [memory_Path m path, ''memory.stat'']) w")
    case (Inl e)
    then show ?thesis using memory.owns_const [of "Err e"] by (simp add: memory_Stat_def [abs_def])
  next
    case (Inr f)
    note open1 = this
    show ?thesis
    proof (cases "parseStats f")
      case (Ok st)
      note parse1 = this
      show ?thesis
      proof (cases "os_open os (path_join [memory_Path m path, ''memory.oom_control'']) w")
        case (Inl e)
        then show ?thesis using eff(1) by (simp add: memory_Stat_def [abs_def] open1 parse1 Let_def)
      next
        case (Inr g)
        then show ?thesis
          using eff(2) all by (cases "parseOomControlStats g") (simp_all add: memory_Stat_def [abs_def] open1 parse1 Let_def)
      qed
    qed (use eff(1) in \<open>simp_all add: memory_Stat_def [abs_def] open1\<close>)
  qed
qed

section \<open>Round trips through the files\<close>

lemma ReadFile_open: "ReadFile os p w = Ok d \<Longrightarrow> os_open os p w = Inr (d, None)"
  by (auto simp: ReadFile_def split: sum.splits prod.splits option.splits)

lemma FormatUint_not_max: "FormatUint v \<noteq> ''max''"
proof
  assume "FormatUint v = ''max''"
  then have "CHR ''m'' \<in> set (show_nat (unat v))" by (simp add: FormatUint_def)
  then have "is_digit CHR ''m''" by (rule show_nat_set)
  then show False by (simp add: is_digit_def)
qed

lemma readUint_FormatUint:
  assumes "ReadFile os p w = Ok (FormatUint v)"
  shows "readUint os p w = Ok v"
proof -
  have "FormatUint v \<noteq> []" by (rule uint_codec.print_not_Nil)
  moreover have "take 32 (FormatUint v) = FormatUint v" using length_FormatUint [of v] by simp
  moreover have "trim_space (FormatUint v) = FormatUint v" by (rule trim_space_word [OF uint_codec.print_plain])
  ultimately show ?thesis
    using FormatUint_not_max by (simp add: readUint_def ReadFile_open [OF assms] read32_def Let_def)
qed

lemma readUint_FormatUint_nl:
  assumes "ReadFile os p w = Ok (FormatUint v @ [CHR 0x0A])"
  shows "readUint os p w = Ok v"
proof -
  have "take 32 (FormatUint v @ [CHR 0x0A]) = FormatUint v @ [CHR 0x0A]" using length_FormatUint [of v] by simp
  then show ?thesis
    using FormatUint_not_max
    by (simp add: readUint_def ReadFile_open [OF assms] read32_def Let_def uint_codec.trim_print_nl)
qed

lemma FormatInt_pos: "0 \<le> sint l \<Longrightarrow> FormatInt l = FormatUint l"
  by (simp add: FormatInt_def FormatUint_def show_int_def uint_sint_pos [symmetric])

text \<open>A positive limit on the number of processes that is written when the group is made is the limit
  that the statistics report afterwards.\<close>

theorem pids_limit_roundtrip:
  assumes "disk os good writable" and "proper_path rs" and "proper_path gs"
    and "os_mkdir_all os (abs_path (rs @ gs)) w = (None, w1)" and "good w1"
    and "writable (abs_path (rs @ gs @ [''pids.max''])) w1"
    and "ReadFile os (abs_path (rs @ gs @ [''pids.current''])) w1 = Ok (FormatUint n @ [CHR 0x0A])"
    and "lx_Pids r = Some (Some limit)" and "0 < sint limit"
  shows "\<exists>w2. pids_Create os (abs_path rs) (abs_path gs) (Some r) w = (Ok (), w2) \<and>
    pids_Stat os (abs_path rs) (abs_path gs) w2 s = (Ok (), s\<lparr>mt1_Pids := Some \<lparr>p1_Current = n, p1_Limit = limit\<rparr>\<rparr>)"
proof -
  have dir: "pids_Path (abs_path rs) (abs_path gs) = abs_path (rs @ gs)" using assms(2,3) by (simp add: pids_Path_def)
  have proper: "proper ''pids.max''" "proper ''pids.current''" by (simp_all add: proper_def)
  have fl: "path_join [abs_path (rs @ gs), ''pids.max''] = abs_path (rs @ gs @ [''pids.max''])"
    "path_join [abs_path (rs @ gs), ''pids.current''] = abs_path (rs @ gs @ [''pids.current''])"
    using path_join_proper [of "rs @ gs", OF _ proper(1)] path_join_proper [of "rs @ gs", OF _ proper(2)] assms(2,3) by simp_all
  have ne: "abs_path (rs @ gs @ [''pids.max'']) \<noteq> abs_path (rs @ gs @ [''pids.current''])"
    using assms(2,3) proper by (simp add: abs_path_inj)
  obtain w2 where w2: "sys (os_write_file os (abs_path (rs @ gs @ [''pids.max''])) (FormatInt limit)) w1 = (Ok (), w2)"
      "\<forall>q. ReadFile os q w2 = (if q = abs_path (rs @ gs @ [''pids.max'']) then Ok (FormatInt limit) else ReadFile os q w1)"
    using disk.write_one [OF assms(1), OF assms(5,6), of "FormatInt limit"] by (elim exE conjE) (rule that)
  have create: "pids_Create os (abs_path rs) (abs_path gs) (Some r) w = (Ok (), w2)"
    using assms(4,8,9) w2(1)
    by (simp add: pids_Create_def create_group_def dir seqn_def bnd_def pids_files_def write_settings_def fl)
  have "readUint os (abs_path (rs @ gs @ [''pids.max''])) w2 = Ok limit"
    using w2(2) FormatInt_pos [of limit] assms(9) by (intro readUint_FormatUint) auto
  moreover have "readUint os (abs_path (rs @ gs @ [''pids.current''])) w2 = Ok n"
    by (rule readUint_FormatUint_nl) (simp only: w2(2) ne [symmetric] if_False assms(7))
  ultimately have "pids_Stat os (abs_path rs) (abs_path gs) w2 s = (Ok (), s\<lparr>mt1_Pids := Some \<lparr>p1_Current = n, p1_Limit = limit\<rparr>\<rparr>)"
    by (simp add: pids_Stat_def dir fl bnd_def)
  then show ?thesis using create by blast
qed

theorem pids_limit_roundtrip_witness:
  "\<exists>w2 s. pids_Create mem_os ''/m'' ''/a''
      (Some \<lparr>lx_Devices = [], lx_Memory = None, lx_CPU = None, lx_Pids = Some (Some 7), lx_BlockIO = None,
        lx_HugepageLimits = None, lx_Network = None, lx_Rdma = None\<rparr>)
      \<lparr>mem_files = [(''/m/a/pids.max'', []), (''/m/a/pids.current'', ''3'' @ [CHR 0x0A])], mem_dirs = [''/'', ''/m'', ''/m/a''], mem_faults = []\<rparr> = (Ok (), w2)
    \<and> mt1_Pids (snd (pids_Stat mem_os ''/m'' ''/a'' w2 s)) = Some \<lparr>p1_Current = 3, p1_Limit = 7\<rparr>"
proof -
  let ?w = "\<lparr>mem_files = [(''/m/a/pids.max'', []), (''/m/a/pids.current'', ''3'' @ [CHR 0x0A])], mem_dirs = [''/'', ''/m'', ''/m/a''], mem_faults = []\<rparr>"
  let ?r = "\<lparr>lx_Devices = [], lx_Memory = None, lx_CPU = None, lx_Pids = Some (Some 7), lx_BlockIO = None,
        lx_HugepageLimits = None, lx_Network = None, lx_Rdma = None\<rparr>"
  have p: "proper_path [''m'']" "proper_path [''a'']" by (simp_all add: proper_def)
  have mk: "os_mkdir_all mem_os (abs_path ([''m''] @ [''a''])) ?w = (None, ?w)"
    by (simp add: render_path_def mem_mkdir_all_def fault_def ancestors_def abs_comps_def)
  have wr: "mem_writable (abs_path ([''m''] @ [''a''] @ [''pids.max''])) ?w"
    by (simp add: mem_writable_def fault_def render_path_def)
  have cur: "ReadFile mem_os (abs_path ([''m''] @ [''a''] @ [''pids.current''])) ?w = Ok (FormatUint 3 @ [CHR 0x0A])"
    by (simp add: ReadFile_def mem_open_def fault_def render_path_def print_eval)
  obtain w2 where "pids_Create mem_os (abs_path [''m'']) (abs_path [''a'']) (Some ?r) ?w = (Ok (), w2)"
      "pids_Stat mem_os (abs_path [''m'']) (abs_path [''a'']) w2 undefined = (Ok (), undefined\<lparr>mt1_Pids := Some \<lparr>p1_Current = 3, p1_Limit = 7\<rparr>\<rparr>)"
    using pids_limit_roundtrip [where r = ?r and limit = 7 and s = undefined, OF mem_disk.disk_axioms p mk _ wr cur] by auto
  then show ?thesis by (intro exI [of _ w2] exI [of _ undefined]) (simp add: render_path_def)
qed

lemma ticks_exact:
  assumes "unat t * 1000000000 < 2 ^ 64"
  shows "unat (t * nanosecondsInSecond div getClockTicks) = unat t * 10000000"
proof -
  have "unat (t * nanosecondsInSecond) = unat t * 1000000000"
    using assms by (simp add: nanosecondsInSecond_def unat_word_ariths)
  then show ?thesis by (simp add: getClockTicks_def unat_div)
qed

text \<open>CPU times: the counts of clock ticks of cpuacct.stat come out in nanoseconds, as long as the product
  with one billion fits into 64 bits; beyond that the product wraps around.\<close>

theorem cpuacct_nanoseconds:
  assumes "os_open os (path_join [cpuacct_Path root path, ''cpuacct.stat'']) w = Inr (kv_file [(''user'', u), (''system'', k)], None)"
    and "unat u * 1000000000 < 2 ^ 64" and "unat k * 1000000000 < 2 ^ 64"
  shows "\<exists>user krn. getUsage os root path w = Ok (user, krn) \<and> unat user = unat u * 10000000 \<and> unat krn = unat k * 10000000"
proof -
  have keys: "kv_key ''user''" "kv_key ''system''"
    by (simp_all add: kv_key_def plain_word_def plain_char_def ascii_space_def)
  have scan: "scan_lines (kv_file [(''user'', u), (''system'', k)]) None = (map kv_line [(''user'', u), (''system'', k)], None)"
    by (rule scan_kv_file) (use keys in auto)
  have "parse_counters (\<lambda>_ e. e) (kv_file [(''user'', u), (''system'', k)], None) = Ok [(''user'', u), (''system'', k)]"
    using keys by (simp add: parse_counters_def scan parseKV1_kv_line kv_key_def)
  then show ?thesis
    using ticks_exact [OF assms(2)] ticks_exact [OF assms(3)] by (simp add: getUsage_def assms(1) Let_def)
qed

theorem cpuacct_nanoseconds_witness:
  "\<exists>user krn. getUsage mem_os ''/m'' ''/a'' \<lparr>mem_files = [(''/m/a/cpuacct.stat'', kv_file [(''user'', 100), (''system'', 3)])],
      mem_dirs = [], mem_faults = []\<rparr> = Ok (user, krn) \<and> unat user = 1000000000 \<and> unat krn = 30000000"
proof -
  let ?w = "\<lparr>mem_files = [(''/m/a/cpuacct.stat'', kv_file [(''user'', 100), (''system'', 3)])], mem_dirs = [], mem_faults = []\<rparr>"
  have "os_open mem_os (path_join [cpuacct_Path ''/m'' ''/a'', ''cpuacct.stat'']) ?w = Inr (kv_file [(''user'', 100), (''system'', 3)], None)"
    by (simp add: mem_open_def fault_def cpuacct_Path_def path_eval)
  from cpuacct_nanoseconds [OF this] show ?thesis by simp
qed

section \<open>The lines of the blkio files\<close>

lemma fields_func_nil [simp]: "fields_func p [] = []"
  by (simp add: fields_func_def)

lemma fields_func_word:
  assumes "list_all (\<lambda>c. \<not> p c) w" and "w \<noteq> []"
  shows "fields_func p w = [w]" and "p d \<Longrightarrow> fields_func p (w @ d # s) = w # fields_func p s"
proof -
  let ?g = "\<lambda>c ps. if p c then [] # ps else (case ps of [] \<Rightarrow> [[c]] | x # xs \<Rightarrow> (c # x) # xs)"
  have pre: "foldr ?g w (x # xs) = (w @ x) # xs" for x xs
    using assms(1) by (induction w) auto
  show "fields_func p w = [w]" using pre [of "[]" "[]"] assms(2) by (simp add: fields_func_def)
  show "fields_func p (w @ d # s) = w # fields_func p s" if "p d"
    using pre [of "[]"] assms(2) that by (simp add: fields_func_def)
qed

text \<open>A line as the kernel prints it: device numbers, operation, value.\<close>

definition blkio_line :: "BlkIOEntry \<Rightarrow> string" where
  "blkio_line e = FormatUint (be_Major e) @ '':'' @ FormatUint (be_Minor e) @ '' '' @
     (if be_Op e = [] then [] else be_Op e @ '' '') @ FormatUint (be_Value e)"

definition blkio_total :: "u64 \<Rightarrow> string" where
  "blkio_total v = ''Total '' @ FormatUint v"

definition op_word :: "string \<Rightarrow> bool" where
  "op_word w = (plain_word w \<and> CHR '':'' \<notin> set w \<and> length w < 1000)"

lemma no_blkio_sep: "list_all (\<lambda>c. \<not> splitBlkIOStatLine c) (FormatUint v)"
  by (auto simp: FormatUint_def list_all_iff splitBlkIOStatLine_def dest: show_nat_set)

lemma op_no_sep: "op_word w \<Longrightarrow> list_all (\<lambda>c. \<not> splitBlkIOStatLine c) w \<and> w \<noteq> []"
  by (auto simp: op_word_def plain_word_def list_all_iff splitBlkIOStatLine_def plain_char_def ascii_space_def)

lemma sep_chars [simp]: "splitBlkIOStatLine CHR '' ''" "splitBlkIOStatLine CHR '':''"
  by (simp_all add: splitBlkIOStatLine_def)

lemma fields_blkio_line:
  assumes "be_Op e = [] \<or> op_word (be_Op e)"
  shows "fields_func splitBlkIOStatLine (blkio_line e) =
    [FormatUint (be_Major e), FormatUint (be_Minor e)] @ (if be_Op e = [] then [] else [be_Op e]) @ [FormatUint (be_Value e)]"
proof -
  note num = fields_func_word [OF no_blkio_sep uint_codec.print_not_Nil]
  have "fields_func splitBlkIOStatLine (blkio_line e) = FormatUint (be_Major e) # FormatUint (be_Minor e) #
      fields_func splitBlkIOStatLine ((if be_Op e = [] then [] else be_Op e @ '' '') @ FormatUint (be_Value e))"
    by (simp add: blkio_line_def num(2))
  also have "fields_func splitBlkIOStatLine ((if be_Op e = [] then [] else be_Op e @ '' '') @ FormatUint (be_Value e)) =
      (if be_Op e = [] then [] else [be_Op e]) @ [FormatUint (be_Value e)]"
  proof (cases "be_Op e = []")
    case False
    then have "op_word (be_Op e)" using assms by blast
    then show ?thesis using fields_func_word(2) [of splitBlkIOStatLine "be_Op e" "CHR '' ''"] op_no_sep num(1) by simp
  qed (simp add: num(1))
  finally show ?thesis by simp
qed

definition with_device :: "devices \<Rightarrow> BlkIOEntry \<Rightarrow> BlkIOEntry" where
  "with_device devs e = e\<lparr>be_Device := (case map_of devs (be_Major e, be_Minor e) of Some d \<Rightarrow> d | None \<Rightarrow> [])\<rparr>"

lemma blkio_lines_file:
  assumes "\<And>e. e \<in> set es \<Longrightarrow> be_Op e = [] \<or> op_word (be_Op e)"
  shows "blkio_lines devs path (map blkio_line es @ [blkio_total t]) = (map (with_device devs) es, None)"
  using assms
proof (induction es)
  case Nil
  have total: "list_all (\<lambda>c. \<not> splitBlkIOStatLine c) ''Total''" by (simp add: splitBlkIOStatLine_def)
  have "fields_func splitBlkIOStatLine (blkio_total t) = [''Total'', FormatUint t]"
    using fields_func_word(2) [OF total, of "CHR '' ''" "FormatUint t"] fields_func_word(1) [OF no_blkio_sep uint_codec.print_not_Nil]
    by (simp add: blkio_total_def)
  then show ?case by (simp add: Let_def)
next
  case (Cons e es)
  have IH: "blkio_lines devs path (map blkio_line es @ [blkio_total t]) = (map (with_device devs) es, None)"
    using Cons by simp
  have "be_Op e = [] \<or> op_word (be_Op e)" using Cons.prems by simp
  from fields_blkio_line [OF this] IH show ?case
    by (cases "be_Op e = []")
      (simp_all add: Let_def ParseUint_FormatUint with_device_def BlkIOEntry.equality)
qed

lemma FormatUint_plain_chars: "CHR 0x0A \<notin> set (FormatUint v)" "CHR 0x0D \<notin> set (FormatUint v)"
  using plain_no_special [OF uint_codec.print_plain] by blast+

lemma blkio_line_scans:
  assumes "be_Op e = [] \<or> op_word (be_Op e)" shows "plain_line (blkio_line e)"
proof -
  have n: "CHR 0x0A \<notin> set (be_Op e) \<and> CHR 0x0D \<notin> set (be_Op e) \<and> length (be_Op e) < 1000"
    using assms plain_no_special [of "be_Op e"] by (auto simp: op_word_def)
  then show ?thesis
    using length_FormatUint [of "be_Major e"] length_FormatUint [of "be_Minor e"] length_FormatUint [of "be_Value e"]
    by (simp add: plain_line_def blkio_line_def FormatUint_plain_chars max_token_def)
qed

text \<open>C30: A blkio file that the kernel prints, with its final line of the total, is read back as the list of
  entries, each with the name of its device.\<close>

theorem blkio_entries_roundtrip:
  assumes "os_open os (path_join [blkio_Path b path, ''blkio.'' @ name]) w = Inr (text_lines (map blkio_line es @ [blkio_total t]), None)"
    and "\<And>e. e \<in> set es \<Longrightarrow> be_Op e = [] \<or> op_word (be_Op e)"
  shows "readEntry os b devs path name w = (map (with_device devs) es, None)"
proof -
  have "plain_line (blkio_total t)"
    using length_FormatUint [of t] by (simp add: plain_line_def blkio_total_def FormatUint_plain_chars max_token_def)
  then have "list_all plain_line (map blkio_line es @ [blkio_total t])"
    using assms(2) blkio_line_scans by (auto simp: list_all_iff)
  from scan_text_lines [OF this] show ?thesis
    using blkio_lines_file [of es devs path t] assms by (simp add: readEntry_def)
qed

theorem blkio_entries_roundtrip_witness:
  "readEntry mem_os \<lparr>bc_root = ''/m'', bc_procRoot = ''/proc''\<rparr> [((8, 0), ''/dev/sda'')] ''/a'' ''io_serviced_recursive''
      \<lparr>mem_files = [(''/m/a/blkio.io_serviced_recursive'',
          text_lines (map blkio_line [\<lparr>be_Op = ''Read'', be_Device = [], be_Major = 8, be_Minor = 0, be_Value = 5\<rparr>] @ [blkio_total 5]))],
        mem_dirs = [], mem_faults = []\<rparr>
    = ([\<lparr>be_Op = ''Read'', be_Device = ''/dev/sda'', be_Major = 8, be_Minor = 0, be_Value = 5\<rparr>], None)"
proof -
  let ?e = "\<lparr>be_Op = ''Read'', be_Device = [], be_Major = 8, be_Minor = 0, be_Value = 5\<rparr>"
  let ?b = "\<lparr>bc_root = ''/m'', bc_procRoot = ''/proc''\<rparr>"
  let ?w = "\<lparr>mem_files = [(''/m/a/blkio.io_serviced_recursive'', text_lines (map blkio_line [?e] @ [blkio_total 5]))],
        mem_dirs = [], mem_faults = []\<rparr>"
  have "os_open mem_os (path_join [blkio_Path ?b ''/a'', ''blkio.'' @ ''io_serviced_recursive'']) ?w =
      Inr (text_lines (map blkio_line [?e] @ [blkio_total 5]), None)"
    by (simp add: mem_open_def fault_def blkio_Path_def path_eval)
  moreover have "op_word ''Read''" by (simp add: op_word_def plain_word_def plain_char_def ascii_space_def)
  ultimately have "readEntry mem_os ?b [((8, 0), ''/dev/sda'')] ''/a'' ''io_serviced_recursive'' ?w = (map (with_device [((8, 0), ''/dev/sda'')]) [?e], None)"
    by (intro blkio_entries_roundtrip [where es = "[?e]" and t = 5]) simp_all
  then show ?thesis by (simp add: with_device_def)
qed

text \<open>Reading the table of partitions: a blank line after the two header lines makes the reader of the
  blkio statistics panic.\<close>

lemma partitions_blank_line_panics:
  assumes "plain_line h1" and "plain_line h2"
  shows "getDevices (text_lines [h1, h2, []], r) = Panic"
proof -
  have "list_all plain_line [h1, h2, []]" using assms by (simp add: plain_line_def max_token_def)
  from scan_text_lines [OF this] show ?thesis by (simp add: getDevices_def Let_def)
qed

end
