(* ===== verification/V1Cpuset.thy ===== *)
theory V1Cpuset
  imports V1Controllers
begin

text \<open>
  The cpuset controller (\<open>cgroup1/cpuset.go\<close>) with \<open>cleanPath\<close> of \<open>utils.go\<close>. A group needs CPUs and memory
  nodes before a process can enter it, so the controller creates the directories from its root down to
  the group and fills the empty files of each from its parent.
\<close>

section \<open>Lengths of clean paths\<close>

text \<open>The directory of a path is shorter than the path, except for the two paths that are their own
  directory: this is why walking up ends.\<close>

definition weight :: "string list \<Rightarrow> nat" where
  "weight cs = sum_list (map (\<lambda>c. Suc (length c)) cs)"

lemma weight_simps [simp]: "weight [] = 0" "weight (c # cs) = Suc (length c) + weight cs" "weight (cs @ ds) = weight cs + weight ds"
  "weight (rev cs) = weight cs"
  by (simp_all add: weight_def rev_map [symmetric] sum_list_rev)

lemma weight_split: "weight (split d s) = Suc (length s)"
proof (induction s)
  case (Cons a s)
  then show ?case by (cases "split d s") auto
qed simp

lemma clean_comps_weight: "weight (clean_comps r st cs) \<le> weight st + weight cs"
  by (induction r st cs rule: clean_comps.induct) (auto split: if_splits list.splits)


lemma length_join: "cs \<noteq> [] \<Longrightarrow> Suc (length (join cs [d])) = weight cs"
  by (induction cs "[d]" rule: join.induct) auto

lemma length_render: "length (render_path r cs) \<le> max 1 (if r then weight cs else weight cs - 1)"
  using length_join [of cs "CHR ''/''"] by (cases "cs = []") (auto simp: render_path_def)

lemma clean_comps_skip: "clean_comps r st (cs @ [[]]) = clean_comps r st cs"
  by (induction r st cs rule: clean_comps.induct) (auto split: list.splits)

lemma length_path_clean_dir:
  assumes "d \<noteq> []" shows "length (path_clean (d @ ''/'')) < length (d @ ''/'')"
proof -
  let ?r = "is_abs (d @ ''/'')"
  let ?cs = "clean_comps ?r [] (split CHR ''/'' (d @ ''/''))"
  have comps: "?cs = clean_comps ?r [] (split CHR ''/'' d)"
    by (simp add: split_append_sep clean_comps_skip)
  have w: "weight ?cs \<le> (if ?r then length d else Suc (length d))"
  proof (cases ?r)
    case False
    then show ?thesis
      using clean_comps_weight [of ?r "[]" "split CHR ''/'' d"] unfolding comps by (simp add: weight_split)
  next
    case True
    then obtain e where e: "d = CHR ''/'' # e" using assms by (cases d) (auto simp: is_abs_def)
    have "?cs = clean_comps ?r [] (split CHR ''/'' e)" unfolding comps by (simp add: e is_abs_def)
    then show ?thesis
      using True clean_comps_weight [of ?r "[]" "split CHR ''/'' e"] by (simp add: e weight_split)
  qed
  have "length (path_clean (d @ ''/'')) \<le> max 1 (if ?r then weight ?cs else weight ?cs - 1)"
    unfolding path_clean_def by (rule length_render)
  also have "\<dots> \<le> length d" using w assms by (cases d) auto
  finally show ?thesis by simp
qed

definition path_size :: "string \<Rightarrow> nat" where
  "path_size p = (if p = ''.'' then 0 else Suc (length p))"

lemma path_dir_smaller:
  assumes "path_dir p \<noteq> p" shows "path_size (path_dir p) < path_size p"
proof (cases "CHR ''/'' \<in> set p")
  case False
  then have "fst (path_split p) = []" by (auto simp: path_split_def dropWhile_eq_Nil_conv)
  then have "path_dir p = ''.''" by (simp add: path_dir_def path_clean_def is_abs_def render_path_def)
  then show ?thesis using assms by (simp add: path_size_def)
next
  case True
  then obtain d f where p: "p = d @ CHR ''/'' # f" "CHR ''/'' \<notin> set f" by (metis split_list_last)
  then have dir: "path_dir p = path_clean (d @ ''/'')"
    using path_split_append [of f d] by (simp add: path_dir_def)
  show ?thesis
  proof (cases "d = []")
    case True
    then have "path_dir p = ''/''" using dir by (simp add: path_clean_def is_abs_def render_path_def)
    then show ?thesis using assms p True by (cases f) (auto simp: path_size_def)
  next
    case False
    have "p \<noteq> ''.''" using True by auto
    moreover have "length (path_dir p) < length p" using length_path_clean_dir [OF False] p(1) unfolding dir by simp
    ultimately show ?thesis by (simp add: path_size_def)
  qed
qed

section \<open>Reading and copying the values\<close>

definition cpuset_Path :: "string \<Rightarrow> string \<Rightarrow> string" where
  "cpuset_Path root path = path_join [root, path]"

definition cleanPath :: "string \<Rightarrow> string" where
  "cleanPath path =
     (if path = [] then []
      else let p = path_clean path
      in if is_abs p then p
         else (case path_rel ''/'' (path_clean (''/'' @ p)) of Ok r \<Rightarrow> r | _ \<Rightarrow> []))"

definition isEmpty :: "string \<Rightarrow> bool" where
  "isEmpty b = (trim_chars b [CHR 0x0A] = [])"

text \<open>The contents of the two files of a directory; a missing file reads as empty.\<close>

definition read_or_empty :: "'w os \<Rightarrow> string \<Rightarrow> 'w \<Rightarrow> string outcome" where
  "read_or_empty os p w = (case ReadFile os p w of
     Err e \<Rightarrow> if is_not_exist e then Ok [] else Err e | r \<Rightarrow> r)"

definition getValues :: "'w os \<Rightarrow> string \<Rightarrow> 'w \<Rightarrow> (string \<times> string) outcome" where
  "getValues os path w =
     bind_out (read_or_empty os (path_join [path, ''cpuset.cpus'']) w) (\<lambda>cpus.
     bind_out (read_or_empty os (path_join [path, ''cpuset.mems'']) w) (\<lambda>mems. Ok (cpus, mems)))"

definition copyIfNeeded :: "'w os \<Rightarrow> string \<Rightarrow> string \<Rightarrow> ('w, unit) go" where
  "copyIfNeeded os current parent =
     bnd (reads (getValues os current)) (\<lambda>(currentCpus, currentMems).
     bnd (reads (getValues os parent)) (\<lambda>(parentCpus, parentMems).
     seqn (if isEmpty currentCpus then sys (os_write_file os (path_join [current, ''cpuset.cpus'']) parentCpus) else ret ())
          (if isEmpty currentMems then sys (os_write_file os (path_join [current, ''cpuset.mems'']) parentMems) else ret ())))"

section \<open>Creating a group\<close>

text \<open>The recursion towards the root. It stops at the directory whose parent is the root, at a parent
  that is not comparable with the root, and at a path that is its own parent.\<close>

function ensureParent :: "'w os \<Rightarrow> string \<Rightarrow> string \<Rightarrow> ('w, unit) go" where
  "ensureParent os root current w =
     (let parent = path_dir current
      in case path_rel root parent of
           Ok _ \<Rightarrow>
             if parent = current then (Err (ErrMsg ''cpuset: cgroup parent path outside cgroup root''), w)
             else (case (if cleanPath parent \<noteq> root then ensureParent os root parent w else (Ok (), w)) of
                 (Ok _, w1) \<Rightarrow> seqn (sys (os_mkdir_all os current)) (copyIfNeeded os current parent) w1
               | r \<Rightarrow> r)
         | _ \<Rightarrow> (Ok (), w))"
  by pat_completeness auto
termination
  by (relation "measure (\<lambda>(os, root, current, w). path_size current)") (auto intro: path_dir_smaller)

declare ensureParent.simps [simp del]

definition cpuset_files :: "LinuxCPU \<Rightarrow> (string \<times> string) list" where
  "cpuset_files cpu = map (\<lambda>(name, value). (''cpuset.'' @ name, value))
     (filter (\<lambda>(name, value). value \<noteq> []) [(''cpus'', lc_Cpus cpu), (''mems'', lc_Mems cpu)])"

definition cpuset_Create :: "'w os \<Rightarrow> string \<Rightarrow> string \<Rightarrow> LinuxResources option \<Rightarrow> ('w, unit) go" where
  "cpuset_Create os root path r =
     seqn (ensureParent os root (cpuset_Path root path))
    (seqn (sys (os_mkdir_all os (cpuset_Path root path)))
    (seqn (copyIfNeeded os (cpuset_Path root path) (path_dir (cpuset_Path root path)))
       (case r of
          None \<Rightarrow> (\<lambda>w. (Panic, w))
        | Some res \<Rightarrow> (case lx_CPU res of
            None \<Rightarrow> ret () | Some cpu \<Rightarrow> write_settings os (cpuset_Path root path) (cpuset_files cpu)))))"

section \<open>Relative paths between clean absolute paths\<close>

lemma comps_abs_path [simp, go_path]: "proper_path cs \<Longrightarrow> comps (abs_path cs) = cs"
  by (auto simp: comps_def split_abs_path proper_def list_all_iff filter_id_conv)

lemma strip_common_suffix: "strip_common bs ts = (rb, rt) \<Longrightarrow> set rb \<subseteq> set bs \<and> set rt \<subseteq> set ts"
  by (induction bs ts rule: strip_common.induct) (auto split: if_splits)

lemma strip_common_prefix [simp]: "strip_common cs (cs @ ds) = ([], ds)"
  by (induction cs) (auto split: list.splits)

lemma path_rel_abs:
  assumes "proper_path bs" and "proper_path ts"
  shows "\<exists>r. path_rel (abs_path bs) (abs_path ts) = Ok r"
proof -
  obtain rb rt where s: "strip_common bs ts = (rb, rt)" by fastforce
  have "hd rb \<noteq> ''..''" if "rb \<noteq> []"
  proof -
    have "hd rb \<in> set bs" using strip_common_suffix [OF s] that by auto
    then show ?thesis using assms(1) by (auto simp: list_all_iff proper_def)
  qed
  moreover have "abs_path bs \<noteq> ''.''" by (simp add: render_path_def)
  ultimately show ?thesis using assms s by (auto simp: path_rel_def Let_def)
qed

lemma path_rel_below:
  assumes "proper_path (cs @ ds)"
  shows "path_rel (abs_path cs) (abs_path (cs @ ds)) = Ok (if ds = [] then ''.'' else join ds ''/'')"
proof -
  have "abs_path cs \<noteq> ''.''" by (simp add: render_path_def)
  then show ?thesis using assms by (auto simp: path_rel_def Let_def abs_path_inj)
qed

lemma cleanPath_abs [simp]: "proper_path cs \<Longrightarrow> cleanPath (abs_path cs) = abs_path cs"
  by (simp add: cleanPath_def Let_def)

section \<open>The directories that are made\<close>

text \<open>One level: the directory is made and its empty files are filled from its parent.\<close>

definition cpuset_level :: "'w os \<Rightarrow> string list \<Rightarrow> string list \<Rightarrow> nat \<Rightarrow> ('w, unit) go" where
  "cpuset_level os rs gs k =
     seqn (sys (os_mkdir_all os (abs_path (rs @ take (Suc k) gs))))
       (copyIfNeeded os (abs_path (rs @ take (Suc k) gs)) (abs_path (rs @ take k gs)))"

lemma cpuset_level_append: "k < length gs \<Longrightarrow> cpuset_level os rs (gs @ hs) k = cpuset_level os rs gs k"
  by (simp add: cpuset_level_def)

lemma for_each_cong: "(\<And>x. x \<in> set xs \<Longrightarrow> f x = g x) \<Longrightarrow> for_each f xs w = for_each g xs w"
  by (induction xs arbitrary: w) (auto split: prod.splits outcome.splits)

lemma ensureParent_chain:
  "proper_path (rs @ gs) \<Longrightarrow> gs \<noteq> [] \<Longrightarrow>
     ensureParent os (abs_path rs) (abs_path (rs @ gs)) w = for_each (cpuset_level os rs gs) [0..<length gs] w"
proof (induction gs arbitrary: w rule: rev_induct)
  case (snoc g gs)
  have p: "proper_path ((rs @ gs) @ [g])" "proper_path (rs @ gs)" "proper_path rs" using snoc.prems by simp_all
  have dir: "path_dir (abs_path (rs @ gs @ [g])) = abs_path (rs @ gs)"
    using path_dir_abs_path [OF p(1)] by simp
  obtain r where rel: "path_rel (abs_path rs) (abs_path (rs @ gs)) = Ok r"
    using path_rel_abs [OF p(3,2)] by blast
  have ne: "abs_path (rs @ gs) \<noteq> abs_path (rs @ gs @ [g])" using p by (simp add: abs_path_inj)
  have up: "(if cleanPath (abs_path (rs @ gs)) \<noteq> abs_path rs then ensureParent os (abs_path rs) (abs_path (rs @ gs)) w
      else (Ok (), w)) = for_each (cpuset_level os rs gs) [0..<length gs] w"
    using snoc.IH [OF p(2)] p by (cases "gs = []") (auto simp: abs_path_inj)
  have last: "cpuset_level os rs (gs @ [g]) (length gs) =
      seqn (sys (os_mkdir_all os (abs_path (rs @ gs @ [g])))) (copyIfNeeded os (abs_path (rs @ gs @ [g])) (abs_path (rs @ gs)))"
    by (simp add: cpuset_level_def)
  have "for_each (cpuset_level os rs (gs @ [g])) [0..<length gs] w = for_each (cpuset_level os rs gs) [0..<length gs] w"
    by (rule for_each_cong) (simp add: cpuset_level_append)
  then show ?case
    by (subst ensureParent.simps)
      (simp add: Let_def dir rel ne up for_each_append last split: prod.splits outcome.splits)
qed simp

text \<open>Walking up from the root itself: it never meets the root, and gives up at the top.\<close>

lemma ensureParent_root:
  "proper_path rs \<Longrightarrow> k \<le> length rs \<Longrightarrow>
     ensureParent os (abs_path rs) (abs_path (take k rs)) w = (Err (ErrMsg ''cpuset: cgroup parent path outside cgroup root''), w)"
proof (induction k)
  case 0
  obtain r where "path_rel (abs_path rs) (abs_path []) = Ok r" using path_rel_abs [of rs "[]"] 0 by auto
  then show ?case by (subst ensureParent.simps) (simp add: Let_def)
next
  case (Suc k)
  have p: "proper_path (take k rs @ [rs ! k])" "proper_path (take k rs)"
    using Suc.prems by (auto simp: list_all_iff dest: in_set_takeD)
  have t: "take (Suc k) rs = take k rs @ [rs ! k]" using Suc.prems by (simp add: take_Suc_conv_app_nth)
  have dir: "path_dir (abs_path (take (Suc k) rs)) = abs_path (take k rs)" unfolding t by (rule path_dir_abs_path [OF p(1)])
  obtain r where rel: "path_rel (abs_path rs) (abs_path (take k rs)) = Ok r" using path_rel_abs [OF Suc.prems(1) p(2)] by blast
  have ne: "abs_path (take k rs) \<noteq> abs_path (take (Suc k) rs)" unfolding t using p by (simp add: abs_path_inj)
  have ne2: "cleanPath (abs_path (take k rs)) \<noteq> abs_path rs"
  proof -
    have "length (take k rs) \<noteq> length rs" using Suc.prems(2) by simp
    then have "take k rs \<noteq> rs" by metis
    then show ?thesis using p Suc.prems by (simp add: abs_path_inj)
  qed
  have IH: "ensureParent os (abs_path rs) (abs_path (take k rs)) w = (Err (ErrMsg ''cpuset: cgroup parent path outside cgroup root''), w)"
    using Suc by simp
  show ?case by (subst ensureParent.simps) (simp only: Let_def dir rel ne ne2 IH outcome.case prod.case if_True if_False not_False_eq_True)
qed

section \<open>What is left on the disk\<close>

context disk
begin

lemma copyIfNeeded_ok:
  assumes wf: "wf w" and wr: "writable (path_join [cur, ''cpuset.cpus'']) w" "writable (path_join [cur, ''cpuset.mems'']) w"
    and ne: "path_join [cur, ''cpuset.cpus''] \<noteq> path_join [cur, ''cpuset.mems'']"
    and rd: "ReadFile os (path_join [cur, ''cpuset.cpus'']) w = Ok cc" "ReadFile os (path_join [cur, ''cpuset.mems'']) w = Ok cm"
      "ReadFile os (path_join [par, ''cpuset.cpus'']) w = Ok pc" "ReadFile os (path_join [par, ''cpuset.mems'']) w = Ok pm"
  shows "\<exists>w1. copyIfNeeded os cur par w = (Ok (), w1) \<and> wf w1 \<and> (\<forall>q. writable q w \<longrightarrow> writable q w1) \<and>
    (\<forall>q. ReadFile os q w1 =
       (if q = path_join [cur, ''cpuset.cpus''] \<and> isEmpty cc then Ok pc
        else if q = path_join [cur, ''cpuset.mems''] \<and> isEmpty cm then Ok pm else ReadFile os q w))"
proof -
  let ?p = "path_join [cur, ''cpuset.cpus'']" and ?q = "path_join [cur, ''cpuset.mems'']"
  obtain w1 where w1: "(if isEmpty cc then sys (os_write_file os ?p pc) else ret ()) w = (Ok (), w1)" "wf w1"
      "\<forall>q. writable q w \<longrightarrow> writable q w1" "\<forall>q. ReadFile os q w1 = (if q = ?p \<and> isEmpty cc then Ok pc else ReadFile os q w)"
    using write_one [OF wf wr(1), of pc] wf by (cases "isEmpty cc") auto
  have wr2: "writable ?q w1" using w1(3) wr(2) by blast
  obtain w2 where w2: "(if isEmpty cm then sys (os_write_file os ?q pm) else ret ()) w1 = (Ok (), w2)" "wf w2"
      "\<forall>q. writable q w1 \<longrightarrow> writable q w2" "\<forall>q. ReadFile os q w2 = (if q = ?q \<and> isEmpty cm then Ok pm else ReadFile os q w1)"
    using write_one [OF w1(2) wr2, of pm] w1(2) by (cases "isEmpty cm") auto
  have "copyIfNeeded os cur par w = (Ok (), w2)"
    using w1(1) w2(1) by (simp add: copyIfNeeded_def getValues_def read_or_empty_def rd bnd_def seqn_def)
  then show ?thesis using w1 w2 ne by (intro exI [of _ w2]) auto
qed

end

text \<open>The two files of the directory at a depth.\<close>

definition cpuset_file :: "string list \<Rightarrow> string list \<Rightarrow> nat \<Rightarrow> string \<Rightarrow> string" where
  "cpuset_file rs gs k f = path_join [abs_path (rs @ take k gs), f]"

abbreviation cpuset_names :: "string set" where
  "cpuset_names \<equiv> {''cpuset.cpus'', ''cpuset.mems''}"

lemma cpuset_file_eq:
  assumes "proper_path (rs @ gs)" and "f \<in> cpuset_names" and "g \<in> cpuset_names" and "k \<le> length gs" and "j \<le> length gs"
  shows "cpuset_file rs gs k f = cpuset_file rs gs j g \<longleftrightarrow> k = j \<and> f = g"
proof -
  have p: "proper_path (rs @ take i gs)" for i using assms(1) by (auto simp: list_all_iff dest: in_set_takeD)
  have f: "proper f" "proper g" using assms(2,3) by (auto simp: proper_def)
  have "cpuset_file rs gs k f = abs_path ((rs @ take k gs) @ [f])" "cpuset_file rs gs j g = abs_path ((rs @ take j gs) @ [g])"
    using path_join_proper [OF p f(1)] path_join_proper [OF p f(2)] by (simp_all add: cpuset_file_def)
  moreover have "proper_path ((rs @ take k gs) @ [f])" "proper_path ((rs @ take j gs) @ [g])" using p f by simp_all
  ultimately have "cpuset_file rs gs k f = cpuset_file rs gs j g \<longleftrightarrow> take k gs = take j gs \<and> f = g"
    by (simp add: abs_path_inj)
  also have "\<dots> \<longleftrightarrow> k = j \<and> f = g" using assms(4,5) by (metis length_take min.absorb2)
  finally show ?thesis .
qed

definition filled :: "'w os \<Rightarrow> string list \<Rightarrow> string list \<Rightarrow> 'w \<Rightarrow> 'w \<Rightarrow> nat \<Rightarrow> bool" where
  "filled os rs gs w w1 k = (\<forall>f \<in> cpuset_names. \<exists>d. ReadFile os (cpuset_file rs gs k f) w1 = Ok d \<and> \<not> isEmpty d \<and>
     (\<forall>old. ReadFile os (cpuset_file rs gs k f) w = Ok old \<longrightarrow> \<not> isEmpty old \<longrightarrow> d = old))"

lemma filled_frame:
  assumes "filled os rs gs w w1 k" and "\<forall>f \<in> cpuset_names. ReadFile os (cpuset_file rs gs k f) w2 = ReadFile os (cpuset_file rs gs k f) w1"
  shows "filled os rs gs w w2 k"
  using assms unfolding filled_def by auto

lemma filled_step:
  assumes "filled os rs gs w w1 n"
    and "\<forall>f \<in> cpuset_names. \<exists>d. ReadFile os (cpuset_file rs gs (Suc n) f) w1 = Ok d"
    and "\<forall>f \<in> cpuset_names. ReadFile os (cpuset_file rs gs (Suc n) f) w1 = ReadFile os (cpuset_file rs gs (Suc n) f) w"
    and "\<forall>f \<in> cpuset_names. \<forall>d pd. ReadFile os (cpuset_file rs gs (Suc n) f) w1 = Ok d \<longrightarrow>
         ReadFile os (cpuset_file rs gs n f) w1 = Ok pd \<longrightarrow> ReadFile os (cpuset_file rs gs (Suc n) f) w2 = Ok (if isEmpty d then pd else d)"
  shows "filled os rs gs w w2 (Suc n)"
  unfolding filled_def
proof
  fix f assume f: "f \<in> cpuset_names"
  obtain pd where pd: "ReadFile os (cpuset_file rs gs n f) w1 = Ok pd" "\<not> isEmpty pd"
    using assms(1) f unfolding filled_def by blast
  obtain d where d: "ReadFile os (cpuset_file rs gs (Suc n) f) w1 = Ok d" using assms(2) f by blast
  have "ReadFile os (cpuset_file rs gs (Suc n) f) w2 = Ok (if isEmpty d then pd else d)" using assms(4) f d pd(1) by blast
  then show "\<exists>d. ReadFile os (cpuset_file rs gs (Suc n) f) w2 = Ok d \<and> \<not> isEmpty d \<and>
      (\<forall>old. ReadFile os (cpuset_file rs gs (Suc n) f) w = Ok old \<longrightarrow> \<not> isEmpty old \<longrightarrow> d = old)"
    using pd(2) d assms(3) f by auto
qed

context disk
begin

text \<open>The directories exist, with their files readable, and below the root also writable.\<close>

definition cpuset_tree :: "string list \<Rightarrow> string list \<Rightarrow> 'w \<Rightarrow> bool" where
  "cpuset_tree rs gs w = (wf w \<and> (\<forall>k \<le> length gs. \<forall>f \<in> cpuset_names.
     (\<exists>d. ReadFile os (cpuset_file rs gs k f) w = Ok d) \<and> (0 < k \<longrightarrow> writable (cpuset_file rs gs k f) w)))"

lemma cpuset_level_ok:
  assumes p: "proper_path (rs @ gs)" and k: "k < length gs" and tree: "cpuset_tree rs gs w"
    and mk: "\<And>w. wf w \<Longrightarrow> os_mkdir_all os (abs_path (rs @ take (Suc k) gs)) w = (None, w)"
  shows "\<exists>w1. cpuset_level os rs gs k w = (Ok (), w1) \<and> cpuset_tree rs gs w1 \<and>
    (\<forall>q. q \<notin> cpuset_file rs gs (Suc k) ` cpuset_names \<longrightarrow> ReadFile os q w1 = ReadFile os q w) \<and>
    (\<forall>f \<in> cpuset_names. \<forall>d pd. ReadFile os (cpuset_file rs gs (Suc k) f) w = Ok d \<longrightarrow> ReadFile os (cpuset_file rs gs k f) w = Ok pd \<longrightarrow>
       ReadFile os (cpuset_file rs gs (Suc k) f) w1 = Ok (if isEmpty d then pd else d))"
proof -
  have wf: "wf w" using tree by (simp add: cpuset_tree_def)
  have rd: "\<exists>d. ReadFile os (cpuset_file rs gs j f) w = Ok d" if "j \<le> length gs" "f \<in> cpuset_names" for j f
    using tree that unfolding cpuset_tree_def by blast
  obtain cc cm pc pm where vals: "ReadFile os (cpuset_file rs gs (Suc k) ''cpuset.cpus'') w = Ok cc"
      "ReadFile os (cpuset_file rs gs (Suc k) ''cpuset.mems'') w = Ok cm"
      "ReadFile os (cpuset_file rs gs k ''cpuset.cpus'') w = Ok pc" "ReadFile os (cpuset_file rs gs k ''cpuset.mems'') w = Ok pm"
    using rd [of "Suc k" "''cpuset.cpus''"] rd [of "Suc k" "''cpuset.mems''"] rd [of k "''cpuset.cpus''"] rd [of k "''cpuset.mems''"] k
    by auto
  have wr: "writable (cpuset_file rs gs (Suc k) f) w" if "f \<in> cpuset_names" for f
    using tree k that Suc_leI [OF k] zero_less_Suc unfolding cpuset_tree_def by blast
  have ne: "cpuset_file rs gs (Suc k) ''cpuset.cpus'' \<noteq> cpuset_file rs gs (Suc k) ''cpuset.mems''"
    using cpuset_file_eq [OF p] k by simp
  obtain w1 where w1: "copyIfNeeded os (abs_path (rs @ take (Suc k) gs)) (abs_path (rs @ take k gs)) w = (Ok (), w1)" "wf w1"
      "\<forall>q. writable q w \<longrightarrow> writable q w1"
      "\<forall>q. ReadFile os q w1 = (if q = cpuset_file rs gs (Suc k) ''cpuset.cpus'' \<and> isEmpty cc then Ok pc
        else if q = cpuset_file rs gs (Suc k) ''cpuset.mems'' \<and> isEmpty cm then Ok pm else ReadFile os q w)"
    using copyIfNeeded_ok [OF wf, of "abs_path (rs @ take (Suc k) gs)" cc cm "abs_path (rs @ take k gs)" pc pm]
      wr ne vals unfolding cpuset_file_def by blast
  have lev: "cpuset_level os rs gs k w = (Ok (), w1)"
    using w1(1) mk [OF wf] by (simp add: cpuset_level_def seqn_def bnd_def)
  have tree1: "cpuset_tree rs gs w1"
    unfolding cpuset_tree_def
  proof (intro conjI allI impI ballI)
    fix j f assume j: "j \<le> length gs" "f \<in> cpuset_names"
    show "\<exists>d. ReadFile os (cpuset_file rs gs j f) w1 = Ok d" using w1(4) rd [OF j] by auto
    assume "0 < j"
    then show "writable (cpuset_file rs gs j f) w1" using w1(3) tree j unfolding cpuset_tree_def by blast
  qed (rule w1(2))
  show ?thesis using lev tree1 w1(4) vals ne by (intro exI [of _ w1]) auto
qed

lemma cpuset_levels_ok:
  assumes p: "proper_path (rs @ gs)" and tree: "cpuset_tree rs gs w" and root: "filled os rs gs w w 0"
    and mk: "\<And>k w. k < length gs \<Longrightarrow> wf w \<Longrightarrow> os_mkdir_all os (abs_path (rs @ take (Suc k) gs)) w = (None, w)"
    and n: "n \<le> length gs"
  shows "\<exists>w1. for_each (cpuset_level os rs gs) [0..<n] w = (Ok (), w1) \<and> cpuset_tree rs gs w1 \<and>
    (\<forall>k \<le> n. filled os rs gs w w1 k) \<and>
    (\<forall>q. (\<forall>k. 0 < k \<and> k \<le> n \<longrightarrow> q \<notin> cpuset_file rs gs k ` cpuset_names) \<longrightarrow> ReadFile os q w1 = ReadFile os q w)"
  using n
proof (induction n)
  case 0
  then show ?case using tree root by simp
next
  case (Suc n)
  then have n: "n < length gs" by simp
  obtain w1 where w1: "for_each (cpuset_level os rs gs) [0..<n] w = (Ok (), w1)" "cpuset_tree rs gs w1"
      "\<forall>k \<le> n. filled os rs gs w w1 k"
      "\<forall>q. (\<forall>k. 0 < k \<and> k \<le> n \<longrightarrow> q \<notin> cpuset_file rs gs k ` cpuset_names) \<longrightarrow> ReadFile os q w1 = ReadFile os q w"
    using Suc by auto
  obtain w2 where w2: "cpuset_level os rs gs n w1 = (Ok (), w2)" "cpuset_tree rs gs w2"
      "\<forall>q. q \<notin> cpuset_file rs gs (Suc n) ` cpuset_names \<longrightarrow> ReadFile os q w2 = ReadFile os q w1"
      "\<forall>f \<in> cpuset_names. \<forall>d pd. ReadFile os (cpuset_file rs gs (Suc n) f) w1 = Ok d \<longrightarrow>
         ReadFile os (cpuset_file rs gs n f) w1 = Ok pd \<longrightarrow> ReadFile os (cpuset_file rs gs (Suc n) f) w2 = Ok (if isEmpty d then pd else d)"
    using cpuset_level_ok [OF p n w1(2) mk [OF n]] by blast
  have apart: "cpuset_file rs gs k f \<notin> cpuset_file rs gs j ` cpuset_names"
    if "f \<in> cpuset_names" "k \<noteq> j" "k \<le> length gs" "j \<le> length gs" for k j f
    using cpuset_file_eq [OF p that(1) _ that(3,4)] that(2) by blast
  have old: "filled os rs gs w w2 k" if k: "k \<le> n" for k
    using filled_frame [of os rs gs w w1 k w2] w1(3) w2(3) apart [of _ k "Suc n"] k n by simp
  have "\<forall>f \<in> cpuset_names. \<exists>d. ReadFile os (cpuset_file rs gs (Suc n) f) w1 = Ok d"
    using w1(2) n Suc_leI [OF n] unfolding cpuset_tree_def by blast
  moreover have "\<forall>f \<in> cpuset_names. ReadFile os (cpuset_file rs gs (Suc n) f) w1 = ReadFile os (cpuset_file rs gs (Suc n) f) w"
    using w1(4) apart [of _ "Suc n"] n by simp
  ultimately have "filled os rs gs w w2 (Suc n)"
    using filled_step [of os rs gs w w1 n w2] w1(3) w2(4) by blast
  moreover have "ReadFile os q w2 = ReadFile os q w"
    if "\<forall>k. 0 < k \<and> k \<le> Suc n \<longrightarrow> q \<notin> cpuset_file rs gs k ` cpuset_names" for q
    using w1(4) w2(3) that by simp
  ultimately show ?case using w1(1) w2(1,2) old by (intro exI [of _ w2]) (auto simp: for_each_append le_Suc_eq)
qed

end

section \<open>Properties\<close>

lemma cpuset_Create_chain:
  assumes p: "proper_path (rs @ gs)" and ne: "gs \<noteq> []"
  shows "cpuset_Create os (abs_path rs) (abs_path gs) r w =
    seqn (for_each (cpuset_level os rs gs) [0..<length gs])
   (seqn (cpuset_level os rs gs (length gs - 1))
      (case r of
          None \<Rightarrow> (\<lambda>w. (Panic, w))
        | Some res \<Rightarrow> (case lx_CPU res of
            None \<Rightarrow> ret () | Some cpu \<Rightarrow> write_settings os (abs_path (rs @ gs)) (cpuset_files cpu)))) w"
proof -
  obtain hs g where gs: "gs = hs @ [g]" using ne by (metis rev_exhaust)
  have path: "cpuset_Path (abs_path rs) (abs_path gs) = abs_path (rs @ gs)"
    using p by (simp add: cpuset_Path_def)
  have dir: "path_dir (abs_path (rs @ gs)) = abs_path (rs @ take (length gs - 1) gs)"
    using path_dir_abs_path [of "rs @ hs" g] p by (simp add: gs)
  have assoc: "seqn (seqn a b) c = seqn a (seqn b c)" for a b :: "('a, unit) go" and c :: "('a, unit) go"
    by (rule ext) (simp add: seqn_def bnd_def split: prod.splits outcome.splits)
  have full: "rs @ take (Suc (length gs - 1)) gs = rs @ gs" using ne by simp
  have lev: "cpuset_level os rs gs (length gs - 1) =
      seqn (sys (os_mkdir_all os (abs_path (rs @ gs)))) (copyIfNeeded os (abs_path (rs @ gs)) (abs_path (rs @ take (length gs - 1) gs)))"
    unfolding cpuset_level_def full ..
  have chain: "ensureParent os (abs_path rs) (abs_path (rs @ gs)) = for_each (cpuset_level os rs gs) [0..<length gs]"
    by (rule ext) (rule ensureParent_chain [OF p ne])
  show ?thesis unfolding cpuset_Create_def path dir lev assoc chain ..
qed


text \<open>A tree in memory whose directories and files are fixed, for the concrete instance.\<close>

definition mem_fixed :: "string list \<Rightarrow> string set \<Rightarrow> memfs \<Rightarrow> bool" where
  "mem_fixed D F w = (mem_dirs w = D \<and> mem_faults w = [] \<and> dom (map_of (mem_files w)) = F)"

lemma mem_fixed_disk: "disk mem_os (mem_fixed D F) (\<lambda>p w. p \<in> F)"
proof
  fix w p d q
  assume h: "mem_fixed D F w" "p \<in> F"
  then have w: "mem_writable p w" by (auto simp: mem_fixed_def mem_writable_def fault_def)
  obtain fs where fs: "mem_write_file p d w = (None, w\<lparr>mem_files := fs\<rparr>)" "map_of fs = (map_of (mem_files w))(p \<mapsto> d)"
    using mem_write_writable [OF w] by blast
  show "fst (os_write_file mem_os p d w) = None" using fs by simp
  show "mem_fixed D F (snd (os_write_file mem_os p d w))" using fs h by (auto simp: mem_fixed_def)
  show "os_open mem_os p (snd (os_write_file mem_os p d w)) = Inr (d, None)"
    using fs h by (simp add: mem_open_def mem_fixed_def fault_def)
  show "q \<noteq> p \<Longrightarrow> os_open mem_os q (snd (os_write_file mem_os p d w)) = os_open mem_os q w"
    using fs h by (auto simp: mem_open_def split: option.splits)
qed simp

lemma mem_fixed_mkdir:
  assumes "mem_fixed D F w" and "set (ancestors p) \<subseteq> set D" and "set (ancestors p) \<inter> F = {}"
  shows "os_mkdir_all mem_os p w = (None, w)"
proof -
  have "filter (\<lambda>a. map_of (mem_files w) a \<noteq> None) (ancestors p) = []"
    using assms by (auto simp: filter_empty_conv mem_fixed_def)
  moreover have "filter (\<lambda>a. a \<notin> set (mem_dirs w)) (ancestors p) = []"
    using assms by (auto simp: filter_empty_conv mem_fixed_def)
  ultimately show ?thesis using assms(1) by (simp add: mem_mkdir_all_def fault_def mem_fixed_def)
qed


text \<open>A cpuset group at the root of the hierarchy cannot be created: the search for the root walks past
  it, and the call fails before anything is written.\<close>

theorem cpuset_root_refused:
  assumes "proper_path rs"
  shows "cpuset_Create os (abs_path rs) ''/'' r w = (Err (ErrMsg ''cpuset: cgroup parent path outside cgroup root''), w)"
proof -
  have "cpuset_Path (abs_path rs) (abs_path []) = abs_path rs"
    unfolding cpuset_Path_def by (subst path_join_abs_abs) (use assms in simp_all)
  then have "cpuset_Path (abs_path rs) ''/'' = abs_path rs" by (simp add: render_path_def)
  then show ?thesis
    using ensureParent_root [OF assms order.refl, of os w] by (simp add: cpuset_Create_def seqn_def bnd_def)
qed

theorem cpuset_root_refused_witness:
  "fst (cpuset_Create mem_os ''/sys/cpuset'' ''/'' None \<lparr>mem_files = [], mem_dirs = [''/''], mem_faults = []\<rparr>) =
     Err (ErrMsg ''cpuset: cgroup parent path outside cgroup root'')"
proof -
  have p: "proper_path [''sys'', ''cpuset'']" by (simp add: proper_def)
  show ?thesis using cpuset_root_refused [OF p, of mem_os None] by (simp add: render_path_def)
qed

end
