(* ===== verification/CgroupMode.thy ===== *)
theory CgroupMode
  imports GoOS
begin

text \<open>
  The package at the root of the repository (\<open>utils.go\<close>): which of the hierarchies the host runs (\<open>Mode\<close>),
  and the parser of \<open>/proc/PID/cgroup\<close> that both versions use. \<open>statfs\<close> is a system call: a parameter
  that gives the type of the file system at a path, or an error.
\<close>

section \<open>The mode of the host\<close>

datatype CGMode = Unavailable | Legacy | Hybrid | Unified

text \<open>The type is an integer type whose constants are numbered by \<open>iota\<close>, so its values are ordered.\<close>

fun mode_int :: "CGMode \<Rightarrow> int" where
  "mode_int Unavailable = 0" | "mode_int Legacy = 1" | "mode_int Hybrid = 2" | "mode_int Unified = 3"

lemma mode_int_inj: "mode_int m = mode_int n \<Longrightarrow> m = n"
  by (cases m; cases n) simp_all

instantiation CGMode :: linorder
begin

definition less_eq_CGMode :: "CGMode \<Rightarrow> CGMode \<Rightarrow> bool" where
  "m \<le> n \<longleftrightarrow> mode_int m \<le> mode_int n"

definition less_CGMode :: "CGMode \<Rightarrow> CGMode \<Rightarrow> bool" where
  "m < n \<longleftrightarrow> mode_int m < mode_int n"

instance
  by standard (auto simp: less_eq_CGMode_def less_CGMode_def mode_int_inj)

end

definition unifiedMount :: string where
  "unifiedMount = ''/sys/fs/cgroup''"

text \<open>The magic number of the cgroup2 file system in \<open>golang.org/x/sys/unix\<close>.\<close>

definition CGROUP2_SUPER_MAGIC :: int where
  "CGROUP2_SUPER_MAGIC = 0x63677270"

text \<open>The body runs once; the second component is what the package variables hold afterwards.\<close>

definition Mode :: "(string \<Rightarrow> gerror + int) \<Rightarrow> CGMode option \<Rightarrow> CGMode \<times> CGMode option" where
  "Mode statfs checked = (case checked of
     Some m \<Rightarrow> (m, Some m)
   | None \<Rightarrow>
       (let m = (case statfs unifiedMount of
            Inl e \<Rightarrow> Unavailable
          | Inr t \<Rightarrow>
              if t = CGROUP2_SUPER_MAGIC then Unified
              else (case statfs (path_join [unifiedMount, ''unified'']) of
                  Inl e \<Rightarrow> Legacy
                | Inr t1 \<Rightarrow> if t1 = CGROUP2_SUPER_MAGIC then Hybrid else Legacy))
        in (m, Some m)))"

text \<open>Control groups can be used exactly when the mount can be inspected, and through the second version at
  least in part exactly from the mode Hybrid on.\<close>

lemma mode_order:
  "Legacy \<le> fst (Mode statfs None) \<longleftrightarrow> (\<exists>t. statfs ''/sys/fs/cgroup'' = Inr t)"
  "Hybrid \<le> fst (Mode statfs None) \<Longrightarrow>
     statfs ''/sys/fs/cgroup'' = Inr CGROUP2_SUPER_MAGIC \<or> statfs ''/sys/fs/cgroup/unified'' = Inr CGROUP2_SUPER_MAGIC"
  by (auto simp: Mode_def unifiedMount_def less_eq_CGMode_def path_eval split: sum.splits if_splits)

text \<open>The mode is Unified exactly when the cgroup mount itself is a cgroup2 file system, Hybrid when only
  its directory unified is one, Unavailable when the mount cannot be inspected, and Legacy otherwise;
  later calls return the first answer whatever the file systems are then.\<close>

theorem mode_classifies:
  assumes "Mode statfs None = (m, s)"
  shows "(m = Unified \<longleftrightarrow> statfs ''/sys/fs/cgroup'' = Inr CGROUP2_SUPER_MAGIC) \<and>
    (m = Unavailable \<longleftrightarrow> (\<exists>e. statfs ''/sys/fs/cgroup'' = Inl e)) \<and>
    (m = Hybrid \<longleftrightarrow> (\<exists>t. statfs ''/sys/fs/cgroup'' = Inr t \<and> t \<noteq> CGROUP2_SUPER_MAGIC) \<and>
       statfs ''/sys/fs/cgroup/unified'' = Inr CGROUP2_SUPER_MAGIC) \<and>
    (\<forall>later. Mode later s = (m, s))"
proof -
  have "path_join [unifiedMount, ''unified''] = ''/sys/fs/cgroup/unified''"
    by (simp add: unifiedMount_def path_eval)
  then show ?thesis
    using assms by (auto simp: Mode_def unifiedMount_def Let_def split: sum.splits if_splits)
qed

theorem mode_classifies_witness:
  "Mode (\<lambda>p. if p = ''/sys/fs/cgroup'' then Inr CGROUP2_SUPER_MAGIC else Inl ErrEOF) None = (Unified, Some Unified)"
proof -
  obtain m s where ms: "Mode (\<lambda>p. if p = ''/sys/fs/cgroup'' then Inr CGROUP2_SUPER_MAGIC else Inl ErrEOF) None = (m, s)"
    by fastforce
  from mode_classifies [OF ms] have "m = Unified" "Mode (\<lambda>_. Inl ErrEOF) s = (m, s)" by auto
  then show ?thesis using ms by (cases s) (auto simp: Mode_def Let_def)
qed

section \<open>The parser of /proc/PID/cgroup\<close>

text \<open>The hierarchies of a line of version 1 are separated by commas; the unified line has none.\<close>

type_synonym cgroup_map = "(string \<times> string) list"

fun subs_loop :: "string \<Rightarrow> string list \<Rightarrow> cgroup_map \<times> string \<Rightarrow> cgroup_map \<times> string" where
  "subs_loop path [] cu = cu"
| "subs_loop path (subs # rest) (cgroups, unified) =
     subs_loop path rest (if subs = [] then (cgroups, path) else (AList.update subs path cgroups, unified))"

text \<open>The loop over the lines: an error comes with the unified path found so far.\<close>

fun unified_lines :: "string list \<Rightarrow> cgroup_map \<times> string \<Rightarrow> (gerror \<times> string) + (cgroup_map \<times> string)" where
  "unified_lines [] cu = Inr cu"
| "unified_lines (text # ls) cu =
     (let parts = split_n 3 CHR '':'' text
      in if length parts < 3 then Inl (ErrMsg (''invalid cgroup entry: '' @ quoted text), snd cu)
         else unified_lines ls (subs_loop (parts ! 2) (split CHR '','' (parts ! 1)) cu))"

definition ParseCgroupFromReaderUnified :: "string \<times> gerror option \<Rightarrow> (gerror \<times> string) + (cgroup_map \<times> string)" where
  "ParseCgroupFromReaderUnified f = (case f of (d, rd) \<Rightarrow> (case scan_lines d rd of (ls, serr) \<Rightarrow>
     (case unified_lines ls ([], []) of
        Inl e \<Rightarrow> Inl e
      | Inr cu \<Rightarrow> (case serr of Some e \<Rightarrow> Inl (e, snd cu) | None \<Rightarrow> Inr cu))))"

definition ParseCgroupFileUnified :: "'w os \<Rightarrow> string \<Rightarrow> 'w \<Rightarrow> (gerror \<times> string) + (cgroup_map \<times> string)" where
  "ParseCgroupFileUnified os path w = (case os_open os path w of
     Inl e \<Rightarrow> Inl (e, []) | Inr f \<Rightarrow> ParseCgroupFromReaderUnified f)"

text \<open>A line as the kernel prints it: the number of the hierarchy, its controllers, the path.\<close>

definition cgroup_line :: "nat \<times> string list \<times> string \<Rightarrow> string" where
  "cgroup_line e = (case e of (n, ctrls, path) \<Rightarrow> show_nat n @ '':'' @ join ctrls '','' @ '':'' @ path)"

text \<open>Lines that can be read back: controllers are words without the separators, and the line fits into the
  scanner's buffer.\<close>

definition readable :: "nat \<times> string list \<times> string \<Rightarrow> bool" where
  "readable e = (plain_line (cgroup_line e) \<and> list_all (\<lambda>c. c \<noteq> [] \<and> CHR '','' \<notin> set c \<and> CHR '':'' \<notin> set c) (fst (snd e)))"

text \<open>What the lines say: for every controller the path of its last line, and the last unified path.\<close>

definition controller_paths :: "(nat \<times> string list \<times> string) list \<Rightarrow> (string \<times> string) list" where
  "controller_paths es = concat (map (\<lambda>(n, ctrls, path). map (\<lambda>c. (c, path)) ctrls) es)"

definition unified_paths :: "(nat \<times> string list \<times> string) list \<Rightarrow> string list" where
  "unified_paths es = map (\<lambda>(n, ctrls, path). path) (filter (\<lambda>(n, ctrls, path). ctrls = []) es)"

lemma split_n_line:
  assumes "CHR '':'' \<notin> set a" and "CHR '':'' \<notin> set b"
  shows "split_n 3 CHR '':'' (a @ CHR '':'' # b @ CHR '':'' # c) = [a, b, c]"
  using assms by (simp add: eval_nat_numeral dropWhile_append takeWhile_append)

lemma join_no_colon: "list_all (\<lambda>c. c \<noteq> [] \<and> CHR '','' \<notin> set c \<and> CHR '':'' \<notin> set c) cs \<Longrightarrow> CHR '':'' \<notin> set (join cs '','')"
  using set_join [of cs "'',''"] by (auto simp: list_all_iff)

lemma subs_loop_ctrls:
  "list_all (\<lambda>c. c \<noteq> []) cs \<Longrightarrow> subs_loop path cs (m, u) = (fold (\<lambda>(k, v). AList.update k v) (map (\<lambda>c. (c, path)) cs) m, u)"
  by (induction cs arbitrary: m) auto

lemma split_ctrls:
  assumes "list_all (\<lambda>c. c \<noteq> [] \<and> CHR '','' \<notin> set c \<and> CHR '':'' \<notin> set c) cs"
  shows "split CHR '','' (join cs '','') = (if cs = [] then [[]] else cs)"
  using split_join [of cs "CHR '',''"] assms by (auto simp: list_all_iff)

lemma unified_lines_file:
  "list_all readable es \<Longrightarrow> unified_lines (map cgroup_line es) (m, u) =
     Inr (fold (\<lambda>(k, v). AList.update k v) (controller_paths es) m, if unified_paths es = [] then u else last (unified_paths es))"
proof (induction es arbitrary: m u)
  case Nil
  then show ?case by (simp add: controller_paths_def unified_paths_def)
next
  case (Cons e es)
  obtain n cs path where e: "e = (n, cs, path)" by (cases e)
  have cs: "list_all (\<lambda>c. c \<noteq> [] \<and> CHR '','' \<notin> set c \<and> CHR '':'' \<notin> set c) cs" "list_all (\<lambda>c. c \<noteq> []) cs"
    using Cons.prems by (auto simp: e readable_def list_all_iff)
  have num: "CHR '':'' \<notin> set (show_nat n)" using show_nat_set [of "CHR '':''" n] by auto
  have parts: "split_n 3 CHR '':'' (cgroup_line e) = [show_nat n, join cs '','', path]"
    using split_n_line [OF num join_no_colon [OF cs(1)], of path] by (simp add: cgroup_line_def e)
  show ?case
  proof (cases "cs = []")
    case True
    have "unified_lines (map cgroup_line (e # es)) (m, u) = unified_lines (map cgroup_line es) (m, path)"
      by (simp add: parts True)
    also have "\<dots> = Inr (fold (\<lambda>(k, v). AList.update k v) (controller_paths es) m,
        if unified_paths es = [] then path else last (unified_paths es))"
      using Cons by simp
    finally show ?thesis by (simp add: controller_paths_def unified_paths_def e True)
  next
    case False
    have "unified_lines (map cgroup_line (e # es)) (m, u) =
        unified_lines (map cgroup_line es) (fold (\<lambda>(k, v). AList.update k v) (map (\<lambda>c. (c, path)) cs) m, u)"
      using split_ctrls [OF cs(1)] False by (simp add: parts subs_loop_ctrls [OF cs(2)])
    also have "\<dots> = Inr (fold (\<lambda>(k, v). AList.update k v) (controller_paths es) (fold (\<lambda>(k, v). AList.update k v) (map (\<lambda>c. (c, path)) cs) m),
        if unified_paths es = [] then u else last (unified_paths es))"
      using Cons by simp
    finally show ?thesis using False by (simp add: controller_paths_def unified_paths_def e)
  qed
qed

text \<open>C32: The file that the kernel prints for a process is read back: every controller is mapped to the path of
  its last line, the controllers that no line names are not in the map, and the unified path is that of
  the last line without controllers.\<close>

theorem cgroup_file_roundtrip:
  assumes "list_all readable es"
  shows "\<exists>cgroups. ParseCgroupFromReaderUnified (text_lines (map cgroup_line es), None) =
      Inr (cgroups, if unified_paths es = [] then [] else last (unified_paths es)) \<and>
    map_of cgroups = assign_all (controller_paths es)"
proof -
  have "list_all plain_line (map cgroup_line es)" using assms by (auto simp: list_all_iff readable_def)
  from scan_text_lines [OF this, of None] have "ParseCgroupFromReaderUnified (text_lines (map cgroup_line es), None) =
      Inr (fold (\<lambda>(k, v). AList.update k v) (controller_paths es) [], if unified_paths es = [] then [] else last (unified_paths es))"
    using unified_lines_file [OF assms, of "[]" "[]"] by (simp add: ParseCgroupFromReaderUnified_def)
  moreover have "map_of (fold (\<lambda>(k, v). AList.update k v) kvs m) = map_of m ++ assign_all kvs" for kvs :: "(string \<times> string) list" and m
    by (induction kvs arbitrary: m) (auto simp: update_conv' assign_all_map_of)
  ultimately show ?thesis by simp
qed

theorem cgroup_file_roundtrip_witness:
  "\<exists>cgroups. ParseCgroupFromReaderUnified (text_lines [''4:cpu,cpuacct:/a'', ''0::/u''], None) = Inr (cgroups, ''/u'')
    \<and> map_of cgroups ''cpuacct'' = Some ''/a''"
proof -
  let ?es = "[(4, [''cpu'', ''cpuacct''], ''/a''), (0, [], ''/u'')] :: (nat \<times> string list \<times> string) list"
  have lines: "map cgroup_line ?es = [''4:cpu,cpuacct:/a'', ''0::/u'']"
    by (simp add: cgroup_line_def print_eval)
  have "list_all readable ?es"
    using lines by (simp add: readable_def plain_line_def max_token_def)
  from cgroup_file_roundtrip [OF this] show ?thesis
    unfolding lines by (auto simp: unified_paths_def controller_paths_def assign_all_def)
qed

end
