(* ===== verification/V1Paths.thy ===== *)
theory V1Paths
  imports CgroupMode V1Cpuset "HOL-Library.Multiset"
begin

text \<open>
  The paths of a group in the hierarchies of version 1 (\<open>cgroup1/paths.go\<close>, \<open>systemd.go\<close>), and the readers
  of \<open>/proc/self/mountinfo\<close> (\<open>getCgroupDestination\<close> of \<open>utils.go\<close>, \<open>v1MountPoint\<close> of \<open>v1.go\<close>). A \<open>Path\<close> is
  a function from the name of a subsystem to a path or an error. The order in which Go visits the map
  of paths is open: it is the order of the association list.
\<close>

type_synonym Path = "Name \<Rightarrow> string outcome"

section \<open>mountinfo\<close>

definition nth_last :: "'a list \<Rightarrow> nat \<Rightarrow> 'a" where
  "nth_last xs k = xs ! (length xs - k)"

fun destination_lines :: "string \<Rightarrow> string list \<Rightarrow> string option" where
  "destination_lines subsystem [] = None"
| "destination_lines subsystem (l # ls) =
     (let fs = split CHR '' '' l
      in if length fs < 10 then destination_lines subsystem ls
         else if nth_last fs 3 \<noteq> ''cgroup'' then destination_lines subsystem ls
         else if subsystem \<in> set (split CHR '','' (nth_last fs 1)) then Some (fs ! 3)
         else destination_lines subsystem ls)"

definition getCgroupDestination :: "'w os \<Rightarrow> string \<Rightarrow> 'w \<Rightarrow> string outcome" where
  "getCgroupDestination os subsystem w = (case os_open os ''/proc/self/mountinfo'' w of
     Inl e \<Rightarrow> Err e
   | Inr (d, rd) \<Rightarrow> (case scan_lines d rd of (ls, serr) \<Rightarrow>
       (case destination_lines subsystem ls of
          Some dest \<Rightarrow> Ok dest
        | None \<Rightarrow> (case serr of Some e \<Rightarrow> Err e | None \<Rightarrow> Err ErrNoCgroupMountDestination))))"

fun mount_lines :: "string list \<Rightarrow> string outcome option" where
  "mount_lines [] = None"
| "mount_lines (l # ls) =
     (let fs = split CHR '' '' l
      in if length fs < 10 then Some (Err (ErrMsg (''mountinfo: bad entry '' @ quoted l)))
         else if nth_last fs 3 = ''cgroup'' then Some (Ok (path_dir (fs ! 4)))
         else mount_lines ls)"

definition v1MountPoint :: "'w os \<Rightarrow> 'w \<Rightarrow> string outcome" where
  "v1MountPoint os w = (case os_open os ''/proc/self/mountinfo'' w of
     Inl e \<Rightarrow> Err e
   | Inr (d, rd) \<Rightarrow> (case scan_lines d rd of (ls, serr) \<Rightarrow>
       (case mount_lines ls of
          Some r \<Rightarrow> r
        | None \<Rightarrow> (case serr of Some e \<Rightarrow> Err e | None \<Rightarrow> Err ErrMountPointNotExist))))"

section \<open>Paths\<close>

definition RootPath :: Path where
  "RootPath subsystem = Ok ''/''"

definition StaticPath :: "string \<Rightarrow> Path" where
  "StaticPath path subsystem = Ok path"

definition errorPath :: "gerror \<Rightarrow> Path" where
  "errorPath e subsystem = Err e"

definition subPath :: "Path \<Rightarrow> string \<Rightarrow> Path" where
  "subPath path subName name = bind_out (path name) (\<lambda>p. Ok (path_join [p, subName]))"

definition defaultSlice1 :: string where "defaultSlice1 = ''system.slice''"

definition Slice :: "string \<Rightarrow> string \<Rightarrow> Path" where
  "Slice slc name subsystem = Ok (path_join [if slc = [] then defaultSlice1 else slc, name])"

text \<open>The loop of \<open>existingPath\<close>: every path is made relative to the root of its mount.\<close>

fun localize :: "'w os \<Rightarrow> 'w \<Rightarrow> cgroup_map \<Rightarrow> cgroup_map outcome" where
  "localize os w [] = Ok []"
| "localize os w ((n, p) # ps) =
     bind_out (getCgroupDestination os n w) (\<lambda>dest.
     bind_out (path_rel dest p) (\<lambda>rel.
     bind_out (localize os w ps) (\<lambda>rest.
       Ok ((n, path_join [''/'', if rel = ''.'' then dest else rel]) # rest))))"

definition lookup_path :: "cgroup_map \<Rightarrow> string \<Rightarrow> Path" where
  "lookup_path paths suffix name =
     (case (case map_of paths name of Some root \<Rightarrow> Some root | None \<Rightarrow> map_of paths (''name='' @ name)) of
        None \<Rightarrow> Err ErrControllerNotActive
      | Some root \<Rightarrow> Ok (if suffix \<noteq> [] then path_join [root, suffix] else root))"

definition existingPath :: "'w os \<Rightarrow> 'w \<Rightarrow> cgroup_map \<Rightarrow> string \<Rightarrow> Path" where
  "existingPath os w paths suffix = (case localize os w paths of
     Ok ps \<Rightarrow> lookup_path ps suffix
   | Err e \<Rightarrow> errorPath e
   | Panic \<Rightarrow> errorPath ErrEOF)"

definition ParseCgroupFile :: "'w os \<Rightarrow> string \<Rightarrow> 'w \<Rightarrow> cgroup_map outcome" where
  "ParseCgroupFile os path w = (case ParseCgroupFileUnified os path w of
     Inl (e, _) \<Rightarrow> Err e | Inr (x, _) \<Rightarrow> Ok x)"

text \<open>\<open>visit\<close> is the order in which the map is visited.\<close>

definition NestedPath :: "'w os \<Rightarrow> (cgroup_map \<Rightarrow> cgroup_map) \<Rightarrow> string \<Rightarrow> 'w \<Rightarrow> Path" where
  "NestedPath os visit suffix w = (case ParseCgroupFile os ''/proc/self/cgroup'' w of
     Ok paths \<Rightarrow> existingPath os w (visit paths) suffix
   | Err e \<Rightarrow> errorPath e
   | Panic \<Rightarrow> errorPath ErrEOF)"

definition PidPath :: "'w os \<Rightarrow> (cgroup_map \<Rightarrow> cgroup_map) \<Rightarrow> i64 \<Rightarrow> 'w \<Rightarrow> Path" where
  "PidPath os visit pid w =
     (let p = ''/proc/'' @ FormatInt pid @ ''/cgroup''
      in case ParseCgroupFile os p w of
           Ok paths \<Rightarrow> existingPath os w (visit paths) []
         | Err e \<Rightarrow> errorPath (Wrap (''parse cgroup file '' @ p) e)
         | Panic \<Rightarrow> errorPath ErrEOF)"

section \<open>Facts\<close>

text \<open>None of these can panic: the cases for it above are never reached.\<close>

lemma path_rel_no_Panic [simp]: "path_rel a b \<noteq> Panic"
  by (auto simp: path_rel_def Let_def split: prod.splits)

lemma getCgroupDestination_no_Panic [simp]: "getCgroupDestination os n w \<noteq> Panic"
  by (auto simp: getCgroupDestination_def split: sum.splits prod.splits option.splits)

lemma bind_out_eq_Panic: "bind_out r k = Panic \<longleftrightarrow> r = Panic \<or> (\<exists>x. r = Ok x \<and> k x = Panic)"
  by (cases r) auto

lemma localize_no_Panic: "localize os w ps \<noteq> Panic"
  by (induction os w ps rule: localize.induct) (auto simp: bind_out_eq_Panic)

lemma ParseCgroupFile_no_Panic: "ParseCgroupFile os p w \<noteq> Panic"
  by (auto simp: ParseCgroupFile_def split: sum.splits)

text \<open>The path of a process below the root of its mount, localised: what comes after that root, or the root
  itself when nothing does.\<close>

definition local_part :: "string list \<Rightarrow> string list \<Rightarrow> string list" where
  "local_part ds es = (if es = [] then ds else es)"

lemma join_not_dot: "proper_path es \<Longrightarrow> join es ''/'' \<noteq> ''.''"
  by (induction es "''/''" rule: join.induct) (auto simp: proper_def append_eq_Cons_conv)

lemma localized_join:
  assumes "proper_path ds" and "proper_path es" and "path_rel (abs_path ds) (abs_path (ds @ es)) = Ok rel"
  shows "path_join [''/'', if rel = ''.'' then abs_path ds else rel] = abs_path (local_part ds es)"
proof -
  have root: "''/'' = abs_path []" by (simp add: render_path_def)
  have rel: "rel = (if es = [] then ''.'' else join es ''/'')"
    using assms path_rel_below [of ds es] by simp
  show ?thesis
  proof (cases "es = []")
    case True
    then show ?thesis
      using path_join_abs_abs [of "[]" ds] assms(1) by (simp add: rel local_part_def root [symmetric])
  next
    case False
    then have "rel \<noteq> ''.''" using join_not_dot [OF assms(2)] rel by simp
    moreover have "path_join [abs_path [], join es ''/''] = abs_path es"
      using path_join_abs [of "[]" "join es ''/''"] split_join [of es "CHR ''/''"] assms(2) False
      by (auto simp: proper_def list_all_iff)
    ultimately show ?thesis using False by (simp add: rel local_part_def root)
  qed
qed

lemma localize_ok:
  assumes "\<And>n p. (n, p) \<in> set paths \<Longrightarrow> \<exists>ds es. proper_path ds \<and> proper_path es \<and>
      getCgroupDestination os n w = Ok (abs_path ds) \<and> p = abs_path (ds @ es)"
  shows "\<exists>ps. localize os w paths = Ok ps \<and> map fst ps = map fst paths \<and>
    (\<forall>n ds es. (n, abs_path (ds @ es)) \<in> set paths \<longrightarrow> proper_path ds \<longrightarrow> proper_path es \<longrightarrow>
       getCgroupDestination os n w = Ok (abs_path ds) \<longrightarrow> (n, abs_path (local_part ds es)) \<in> set ps)"
  using assms
proof (induction paths)
  case (Cons np paths)
  obtain n p where np: "np = (n, p)" by (cases np)
  obtain ds es where d: "proper_path ds" "proper_path es" "getCgroupDestination os n w = Ok (abs_path ds)" "p = abs_path (ds @ es)"
    using Cons.prems [of n p] by (auto simp: np)
  obtain rel where rel: "path_rel (abs_path ds) (abs_path (ds @ es)) = Ok rel"
    using path_rel_abs [of ds "ds @ es"] d by auto
  obtain ps where ps: "localize os w paths = Ok ps" "map fst ps = map fst paths"
    "\<forall>n ds es. (n, abs_path (ds @ es)) \<in> set paths \<longrightarrow> proper_path ds \<longrightarrow> proper_path es \<longrightarrow>
       getCgroupDestination os n w = Ok (abs_path ds) \<longrightarrow> (n, abs_path (local_part ds es)) \<in> set ps"
    using Cons by auto
  have new: "localize os w (np # paths) = Ok ((n, abs_path (local_part ds es)) # ps)"
    using d(3,4) rel ps(1) localized_join [OF d(1,2) rel] by (simp add: np)
  have same: "ds' = ds \<and> es' = es"
    if "p = abs_path (ds' @ es')" "proper_path ds'" "proper_path es'" "getCgroupDestination os n w = Ok (abs_path ds')" for ds' es'
    using that d by (auto simp: abs_path_inj)
  show ?case
    unfolding new using ps(2,3) same by (auto simp: np)
qed simp

text \<open>C31: The paths of an existing process. When every path of the process lies below the root of its mount,
  the path of a controller is what comes after that root (the root itself if nothing does), followed by
  the suffix; the order in which the map is visited does not matter; a controller without a path, also
  under its name=, is not active.\<close>

theorem existing_path_localized:
  assumes "distinct (map fst paths)"
    and "\<And>n p. (n, p) \<in> set paths \<Longrightarrow> \<exists>ds es. proper_path ds \<and> proper_path es \<and>
      getCgroupDestination os n w = Ok (abs_path ds) \<and> p = abs_path (ds @ es)"
    and "proper_path ds" and "proper_path es" and "proper_path ss"
    and "getCgroupDestination os name w = Ok (abs_path ds)" and "(name, abs_path (ds @ es)) \<in> set paths"
    and "mset visited = mset paths"
  shows "existingPath os w visited (join ss ''/'') name = Ok (abs_path (local_part ds es @ ss)) \<and>
    (\<forall>other. other \<notin> fst ` set paths \<and> ''name='' @ other \<notin> fst ` set paths \<longrightarrow>
       existingPath os w visited (join ss ''/'') other = Err ErrControllerNotActive)"
proof -
  have set: "set visited = set paths" by (rule mset_eq_setD [OF assms(8)])
  have "mset (map fst visited) = mset (map fst paths)" using assms(8) by simp
  then have dist: "distinct (map fst visited)" using assms(1) mset_eq_imp_distinct_iff by blast
  obtain ps where ps: "localize os w visited = Ok ps" "map fst ps = map fst visited" "(name, abs_path (local_part ds es)) \<in> set ps"
    using localize_ok [of visited os w] assms(2-7) set by blast
  have "map_of ps name = Some (abs_path (local_part ds es))"
    using ps(2,3) dist by (intro map_of_is_SomeI) simp_all
  moreover have "path_join [abs_path (local_part ds es), join ss ''/''] = abs_path (local_part ds es @ ss)" if "ss \<noteq> []"
    using path_join_abs [of "local_part ds es" "join ss ''/''"] split_join [of ss "CHR ''/''"] assms(3-5) that
    by (auto simp: proper_def list_all_iff local_part_def)
  moreover have "join ss ''/'' = [] \<longleftrightarrow> ss = []"
    using assms(5) by (cases ss rule: list.exhaust [case_names Nil Cons]) (auto simp: proper_def elim: join.elims)
  moreover have "map_of ps other = None" if "other \<notin> fst ` set paths" for other
    using ps(2) that set by (metis list.set_map map_of_eq_None_iff)
  ultimately show ?thesis using ps(1) by (auto simp: existingPath_def lookup_path_def)
qed

theorem existing_path_localized_witness:
  "existingPath mem_os \<lparr>mem_files = [(''/proc/self/mountinfo'',
        text_lines [''30 23 0:26 /docker/x /sys/fs/cgroup/cpu rw shared:9 - cgroup cgroup rw,cpu''])], mem_dirs = [], mem_faults = []\<rparr>
      [(''cpu'', ''/docker/x/a'')] ''b'' ''cpu'' = Ok ''/a/b''"
proof -
  let ?l = "''30 23 0:26 /docker/x /sys/fs/cgroup/cpu rw shared:9 - cgroup cgroup rw,cpu''"
  let ?w = "\<lparr>mem_files = [(''/proc/self/mountinfo'', text_lines [?l])], mem_dirs = [], mem_faults = []\<rparr>"
  have scan: "scan_lines (text_lines [?l]) None = ([?l], None)"
    by (rule scan_text_lines) (simp add: plain_line_def max_token_def)
  have dest: "getCgroupDestination mem_os ''cpu'' ?w = Ok (abs_path [''docker'', ''x''])"
    by (simp add: getCgroupDestination_def mem_open_def fault_def scan nth_last_def render_path_def)
  have p: "proper_path [''docker'', ''x'']" "proper_path [''a'']" "proper_path [''b'']" by (simp_all add: proper_def)
  have path: "''/docker/x/a'' = abs_path ([''docker'', ''x''] @ [''a''])" by (simp add: render_path_def)
  have below: "\<exists>ds es. proper_path ds \<and> proper_path es \<and> getCgroupDestination mem_os n ?w = Ok (abs_path ds) \<and> q = abs_path (ds @ es)"
    if "(n, q) \<in> set [(''cpu'', ''/docker/x/a'')]" for n q
    by (intro exI [of _ "[''docker'', ''x'']"] exI [of _ "[''a'']"]) (use that dest p path in auto)
  have mem: "(''cpu'', abs_path ([''docker'', ''x''] @ [''a''])) \<in> set [(''cpu'', ''/docker/x/a'')]"
    unfolding path [symmetric] by simp
  have "existingPath mem_os ?w [(''cpu'', ''/docker/x/a'')] (join [''b''] ''/'') ''cpu'' = Ok (abs_path (local_part [''docker'', ''x''] [''a''] @ [''b'']))"
    using existing_path_localized [OF _ below p dest mem refl] by simp
  then show ?thesis by (simp add: local_part_def render_path_def)
qed

end
