(* ===== verification/V1Subsystem.thy ===== *)
theory V1Subsystem
  imports V1Stats V1Cpuset V1Paths
begin

text \<open>
  The subsystems of \<open>cgroup1\<close> behind their interfaces: \<open>subsystem.go\<close> (names and interfaces), the
  constructors of the controllers, \<open>named.go\<close>, \<open>perf_event.go\<close>, \<open>systemd.go\<close>, \<open>v1.go\<close>, and the parts of
  \<open>utils.go\<close> that put hierarchies together. A value of the Go interface \<open>Subsystem\<close> is a value of a
  datatype with one constructor per controller; a type assertion to an optional interface (\<open>pather\<close>,
  \<open>creator\<close>, \<open>updater\<close>, \<open>stater\<close>, \<open>deleter\<close>) is a function to an option.
\<close>

datatype Subsystem =
    NamedController string Name
  | FreezerController string
  | PidsController string
  | NetclsController string
  | NetprioController string
  | PerfEventController string
  | CpusetController string
  | CpuController string
  | CpuacctController string
  | MemoryController memoryController
  | BlkioController blkioController
  | RdmaController string
  | DevicesController string
  | HugetlbController hugetlbController
  | SystemdController string

section \<open>The host\<close>

text \<open>The D-Bus connection to systemd: connecting and closing, starting a transient unit and stopping a unit,
  waiting for the job of either to end, the test for an error that says that a property is not supported,
  and the package variables \<open>once\<close> and \<open>canDelegate\<close> that live beside it.\<close>

datatype unit_property = PropDescription string | PropWants string | BoolProperty string bool

record 'w bus =
  bus_connect :: "'w \<Rightarrow> gerror option \<times> 'w"
  bus_start :: "string \<Rightarrow> string \<Rightarrow> unit_property list \<Rightarrow> 'w \<Rightarrow> gerror option \<times> 'w"
  bus_stop :: "string \<Rightarrow> string \<Rightarrow> 'w \<Rightarrow> gerror option \<times> 'w"
  bus_wait :: "'w \<Rightarrow> 'w"
    \<comment> \<open>the receive on the channel of the job, which systemd answers when the job is done\<close>
  bus_close :: "'w \<Rightarrow> 'w"
  bus_unsupported :: "gerror \<Rightarrow> bool"
  var_delegate :: "'w \<Rightarrow> bool option"
  set_delegate :: "bool \<Rightarrow> 'w \<Rightarrow> 'w"

text \<open>What else the package asks the host and its libraries: whether it runs in a user namespace, the two
  functions of \<open>go-units\<close>, event descriptors, and the D-Bus connection.\<close>

record 'w host =
  h_userns :: bool
  h_ram_in_bytes :: "string \<Rightarrow> gerror + i64"
  h_custom_size :: "i64 \<Rightarrow> string"
  h_eventfd :: "'w \<Rightarrow> (gerror + nat) \<times> 'w"
  h_open_fd :: "string \<Rightarrow> 'w \<Rightarrow> (gerror + nat) \<times> 'w"
  h_close :: "nat \<Rightarrow> 'w \<Rightarrow> 'w"
  h_bus :: "'w bus"

text \<open>\<open>os.ReadDir\<close>: the names in a directory.\<close>

definition ReadDir :: "'w os \<Rightarrow> string \<Rightarrow> 'w \<Rightarrow> string list outcome" where
  "ReadDir os p w = (case os_tree os p w of
     NDir None kids \<Rightarrow> Ok (map fst kids)
   | NDir (Some e) kids \<Rightarrow> Err e
   | NFile \<Rightarrow> Err (PathError ''readdirent'' p ENOTDIR)
   | NBad e \<Rightarrow> Err e)"

section \<open>Constructors\<close>

definition NewNamed :: "string \<Rightarrow> Name \<Rightarrow> Subsystem" where
  "NewNamed root name = NamedController root name"

definition NewFreezer :: "string \<Rightarrow> Subsystem" where
  "NewFreezer root = FreezerController (path_join [root, Freezer])"

definition NewPids :: "string \<Rightarrow> Subsystem" where
  "NewPids root = PidsController (path_join [root, PidsName])"

definition NewNetCls :: "string \<Rightarrow> Subsystem" where
  "NewNetCls root = NetclsController (path_join [root, NetCLS])"

definition NewNetPrio :: "string \<Rightarrow> Subsystem" where
  "NewNetPrio root = NetprioController (path_join [root, NetPrio])"

definition NewPerfEvent :: "string \<Rightarrow> Subsystem" where
  "NewPerfEvent root = PerfEventController (path_join [root, PerfEvent])"

definition NewCpuset :: "string \<Rightarrow> Subsystem" where
  "NewCpuset root = CpusetController (path_join [root, Cpuset])"

definition NewCpu :: "string \<Rightarrow> Subsystem" where
  "NewCpu root = CpuController (path_join [root, Cpu])"

definition NewCpuacct :: "string \<Rightarrow> Subsystem" where
  "NewCpuacct root = CpuacctController (path_join [root, Cpuacct])"

definition IgnoreModules :: "string list \<Rightarrow> memoryController \<Rightarrow> memoryController" where
  "IgnoreModules names mc = mc\<lparr>mc_ignored := mc_ignored mc @ names\<rparr>"

definition OptionalSwap :: "'w os \<Rightarrow> 'w \<Rightarrow> memoryController \<Rightarrow> memoryController" where
  "OptionalSwap os w mc = (case Lstat os (path_join [mc_root mc, ''memory.memsw.usage_in_bytes'']) w of
     Some e \<Rightarrow> if is_not_exist e then mc\<lparr>mc_ignored := mc_ignored mc @ [''memsw'']\<rparr> else mc
   | None \<Rightarrow> mc)"

definition NewMemory :: "string \<Rightarrow> (memoryController \<Rightarrow> memoryController) list \<Rightarrow> Subsystem" where
  "NewMemory root options =
     MemoryController (fold (\<lambda>opt. opt) options \<lparr>mc_root = path_join [root, MemoryName], mc_ignored = []\<rparr>)"

definition ProcRoot :: "string \<Rightarrow> blkioController \<Rightarrow> blkioController" where
  "ProcRoot path c = c\<lparr>bc_procRoot := path\<rparr>"

definition NewBlkio :: "string \<Rightarrow> (blkioController \<Rightarrow> blkioController) list \<Rightarrow> Subsystem" where
  "NewBlkio root options =
     BlkioController (fold (\<lambda>opt. opt) options \<lparr>bc_root = path_join [root, Blkio], bc_procRoot = ''/proc''\<rparr>)"

definition NewRdma :: "string \<Rightarrow> Subsystem" where
  "NewRdma root = RdmaController (path_join [root, Rdma])"

definition NewDevices :: "string \<Rightarrow> Subsystem" where
  "NewDevices root = DevicesController (path_join [root, Devices])"

text \<open>The sizes of huge pages, from the names of the directories; a name without a dash is an index out of
  range.\<close>

fun page_sizes :: "'w host \<Rightarrow> string list \<Rightarrow> string list outcome" where
  "page_sizes host [] = Ok []"
| "page_sizes host (st # files) = (case split CHR ''-'' st of
     _ # s # _ \<Rightarrow> (case h_ram_in_bytes host s of
         Inl e \<Rightarrow> Err e
       | Inr pageSize \<Rightarrow> bind_out (page_sizes host files) (\<lambda>ps. Ok (h_custom_size host pageSize # ps)))
   | _ \<Rightarrow> Panic)"

definition hugePageSizes1 :: "'w os \<Rightarrow> 'w host \<Rightarrow> 'w \<Rightarrow> string list outcome" where
  "hugePageSizes1 os host w = bind_out (ReadDir os ''/sys/kernel/mm/hugepages'' w) (page_sizes host)"

definition NewHugetlb :: "'w os \<Rightarrow> 'w host \<Rightarrow> string \<Rightarrow> 'w \<Rightarrow> Subsystem outcome" where
  "NewHugetlb os host root w = bind_out (hugePageSizes1 os host w) (\<lambda>sizes.
     Ok (HugetlbController \<lparr>hc_root = path_join [root, Hugetlb], hc_sizes = sizes\<rparr>))"

definition SystemdDbus :: Name where "SystemdDbus = ''systemd''"

definition NewSystemd1 :: "string \<Rightarrow> Subsystem" where
  "NewSystemd1 root = SystemdController root"

section \<open>The systemd controller\<close>

definition splitName :: "string \<Rightarrow> string \<times> string" where
  "splitName path = (case path_split path of (slc, unt) \<Rightarrow> (trim_suffix slc ''/'', unt))"

text \<open>The check whether systemd takes the property Delegate, which is run once.\<close>

definition checkDelegate :: "'w bus \<Rightarrow> string \<Rightarrow> 'w \<Rightarrow> 'w" where
  "checkDelegate bus slc w = (case var_delegate bus w of
     Some b \<Rightarrow> w
   | None \<Rightarrow> (case bus_start bus slc ''testdelegate'' [BoolProperty ''Delegate'' True] w of (r, w1) \<Rightarrow>
       set_delegate bus (case r of Some e \<Rightarrow> \<not> bus_unsupported bus e | None \<Rightarrow> True)
         (ignoring (bus_stop bus slc ''testDelegate'') w1)))"

definition systemd_properties :: "string \<Rightarrow> string \<Rightarrow> bool \<Rightarrow> unit_property list" where
  "systemd_properties slc name delegate =
     [PropDescription (''cgroup '' @ name), PropWants slc, BoolProperty ''DefaultDependencies'' False,
      BoolProperty ''MemoryAccounting'' True, BoolProperty ''CPUAccounting'' True, BoolProperty ''BlockIOAccounting'' True] @
     (if delegate then [BoolProperty ''Delegate'' True] else [])"

text \<open>An operation with a connection of its own (\<open>defer conn.Close()\<close>), and one whose job is waited for.\<close>

definition with_conn :: "'w bus \<Rightarrow> ('w, unit) go \<Rightarrow> ('w, unit) go" where
  "with_conn bus m = seqn (sys (bus_connect bus)) (\<lambda>w. (case m w of (r, w1) \<Rightarrow> (r, bus_close bus w1)))"

definition awaited :: "'w bus \<Rightarrow> ('w \<Rightarrow> gerror option \<times> 'w) \<Rightarrow> ('w, unit) go" where
  "awaited bus f = seqn (sys f) (\<lambda>w. (Ok (), bus_wait bus w))"

definition systemd_Create :: "'w bus \<Rightarrow> string \<Rightarrow> ('w, unit) go" where
  "systemd_Create bus path = with_conn bus (\<lambda>w.
     (case splitName path of (slc, name) \<Rightarrow>
       (let w1 = checkDelegate bus slc w
        in awaited bus (bus_start bus name ''replace'' (systemd_properties slc name (var_delegate bus w1 = Some True))) w1)))"

definition systemd_Delete :: "'w bus \<Rightarrow> string \<Rightarrow> ('w, unit) go" where
  "systemd_Delete bus path = with_conn bus (awaited bus (bus_stop bus (snd (splitName path)) ''replace''))"

section \<open>The interfaces\<close>

fun sub_Name :: "Subsystem \<Rightarrow> Name" where
  "sub_Name (NamedController root name) = name"
| "sub_Name (FreezerController _) = Freezer"
| "sub_Name (PidsController _) = PidsName"
| "sub_Name (NetclsController _) = NetCLS"
| "sub_Name (NetprioController _) = NetPrio"
| "sub_Name (PerfEventController _) = PerfEvent"
| "sub_Name (CpusetController _) = Cpuset"
| "sub_Name (CpuController _) = Cpu"
| "sub_Name (CpuacctController _) = Cpuacct"
| "sub_Name (MemoryController _) = MemoryName"
| "sub_Name (BlkioController _) = Blkio"
| "sub_Name (RdmaController _) = Rdma"
| "sub_Name (DevicesController _) = Devices"
| "sub_Name (HugetlbController _) = Hugetlb"
| "sub_Name (SystemdController _) = SystemdDbus"

definition named_Path :: "string \<Rightarrow> Name \<Rightarrow> string \<Rightarrow> string" where
  "named_Path root name path = path_join [root, name, path]"

definition perf_event_Path :: "string \<Rightarrow> string \<Rightarrow> string" where
  "perf_event_Path root path = path_join [root, path]"

fun as_pather :: "Subsystem \<Rightarrow> (string \<Rightarrow> string) option" where
  "as_pather (NamedController root name) = Some (named_Path root name)"
| "as_pather (FreezerController root) = Some (freezer_Path root)"
| "as_pather (PidsController root) = Some (pids_Path root)"
| "as_pather (NetclsController root) = Some (netcls_Path root)"
| "as_pather (NetprioController root) = Some (netprio_Path root)"
| "as_pather (PerfEventController root) = Some (perf_event_Path root)"
| "as_pather (CpusetController root) = Some (cpuset_Path root)"
| "as_pather (CpuController root) = Some (cpu_Path root)"
| "as_pather (CpuacctController root) = Some (cpuacct_Path root)"
| "as_pather (MemoryController m) = Some (memory_Path m)"
| "as_pather (BlkioController b) = Some (blkio_Path b)"
| "as_pather (RdmaController root) = Some (rdma_Path root)"
| "as_pather (DevicesController root) = Some (devices_Path root)"
| "as_pather (HugetlbController h) = Some (hugetlb_Path h)"
| "as_pather (SystemdController root) = None"

fun as_creator :: "'w os \<Rightarrow> 'w host \<Rightarrow> Subsystem \<Rightarrow> (string \<Rightarrow> LinuxResources option \<Rightarrow> ('w, unit) go) option" where
  "as_creator os host (PidsController root) = Some (pids_Create os root)"
| "as_creator os host (NetclsController root) = Some (netcls_Create os root)"
| "as_creator os host (NetprioController root) = Some (netprio_Create os root)"
| "as_creator os host (CpusetController root) = Some (cpuset_Create os root)"
| "as_creator os host (CpuController root) = Some (cpu_Create os root)"
| "as_creator os host (MemoryController m) = Some (memory_Create os m)"
| "as_creator os host (BlkioController b) = Some (blkio_Create os b)"
| "as_creator os host (RdmaController root) = Some (rdma_Create os root)"
| "as_creator os host (DevicesController root) = Some (devices_Create os root)"
| "as_creator os host (HugetlbController h) = Some (hugetlb_Create os h)"
| "as_creator os host (SystemdController root) = Some (\<lambda>path r. systemd_Create (h_bus host) path)"
| "as_creator os host _ = None"

text \<open>An update of the others is another call of \<open>Create\<close>; \<open>net_prio\<close> and \<open>hugetlb\<close> have none.\<close>

fun as_updater :: "'w os \<Rightarrow> Subsystem \<Rightarrow> (string \<Rightarrow> LinuxResources option \<Rightarrow> ('w, unit) go) option" where
  "as_updater os (PidsController root) = Some (pids_Create os root)"
| "as_updater os (NetclsController root) = Some (netcls_Create os root)"
| "as_updater os (CpusetController root) = Some (cpuset_Create os root)"
| "as_updater os (CpuController root) = Some (cpu_Create os root)"
| "as_updater os (MemoryController m) = Some (memory_Update os m)"
| "as_updater os (BlkioController b) = Some (blkio_Create os b)"
| "as_updater os (RdmaController root) = Some (rdma_Create os root)"
| "as_updater os (DevicesController root) = Some (devices_Create os root)"
| "as_updater os _ = None"

fun as_stater :: "'w os \<Rightarrow> Subsystem \<Rightarrow> (string \<Rightarrow> 'w \<Rightarrow> stat) option" where
  "as_stater os (PidsController root) = Some (pids_Stat os root)"
| "as_stater os (CpuController root) = Some (cpu_Stat os root)"
| "as_stater os (CpuacctController root) = Some (cpuacct_Stat os root)"
| "as_stater os (MemoryController m) = Some (memory_Stat os m)"
| "as_stater os (BlkioController b) = Some (blkio_Stat os b)"
| "as_stater os (RdmaController root) = Some (rdma_Stat os root)"
| "as_stater os (HugetlbController h) = Some (hugetlb_Stat os h)"
| "as_stater os _ = None"

fun as_deleter :: "'w host \<Rightarrow> Subsystem \<Rightarrow> (string \<Rightarrow> ('w, unit) go) option" where
  "as_deleter host (SystemdController root) = Some (systemd_Delete (h_bus host))"
| "as_deleter host _ = None"

section \<open>Hierarchies\<close>

definition pathers :: "Subsystem list \<Rightarrow> (Subsystem \<times> (string \<Rightarrow> string)) list" where
  "pathers ss = somes (map (\<lambda>s. map_option (Pair s) (as_pather s)) ss)"

definition Subsystems_names :: "'w os \<Rightarrow> 'w host \<Rightarrow> 'w \<Rightarrow> Name list" where
  "Subsystems_names os host w =
     [Freezer, PidsName, NetCLS, NetPrio, PerfEvent, Cpuset, Cpu, Cpuacct, MemoryName, Blkio, Rdma] @
     (if \<not> h_userns host then [Devices] else []) @
     (if Lstat os ''/sys/kernel/mm/hugepages'' w = None then [Hugetlb] else [])"

type_synonym 'w Hierarchy = "'w \<Rightarrow> Subsystem list outcome"

definition SingleSubsystem :: "'w Hierarchy \<Rightarrow> Name \<Rightarrow> 'w Hierarchy" where
  "SingleSubsystem base subsystem w = bind_out (base w) (\<lambda>ss.
     (case find (\<lambda>s. sub_Name s = subsystem) ss of
        Some s \<Rightarrow> Ok [s] | None \<Rightarrow> Err (ErrMsg (''unable to find subsystem '' @ subsystem))))"

definition defaults :: "'w os \<Rightarrow> 'w host \<Rightarrow> string \<Rightarrow> 'w Hierarchy" where
  "defaults os host root w =
     (let s = [NewNamed root ''systemd'', NewFreezer root, NewPids root, NewNetCls root, NewNetPrio root, NewPerfEvent root,
            NewCpuset root, NewCpu root, NewCpuacct root, NewMemory root [], NewBlkio root [], NewRdma root] @
            (if \<not> h_userns host then [NewDevices root] else [])
      in case NewHugetlb os host root w of
           Ok h \<Rightarrow> Ok (s @ [h])
         | Err e \<Rightarrow> if \<not> is_not_exist e then Err e else Ok s
         | Panic \<Rightarrow> Panic)"

definition Default :: "'w os \<Rightarrow> 'w host \<Rightarrow> 'w Hierarchy" where
  "Default os host w =
     bind_out (v1MountPoint os w) (\<lambda>root.
     bind_out (defaults os host root w) (\<lambda>ss.
       Ok (map fst (filter (\<lambda>(s, path). Lstat os (path ''/'') w = None) (pathers ss)))))"

definition Systemd :: "'w os \<Rightarrow> 'w host \<Rightarrow> 'w Hierarchy" where
  "Systemd os host w =
     bind_out (v1MountPoint os w) (\<lambda>root.
     bind_out (defaults os host root w) (\<lambda>ss. Ok (NewSystemd1 root # ss)))"

definition initializeSubsystem :: "'w os \<Rightarrow> 'w host \<Rightarrow> Subsystem \<Rightarrow> Path \<Rightarrow> LinuxResources option \<Rightarrow> ('w, unit) go" where
  "initializeSubsystem os host s path resources =
     (case as_creator os host s of
        Some create \<Rightarrow> bnd (lift_out (path (sub_Name s))) (\<lambda>p. create p resources)
      | None \<Rightarrow> (case as_pather s of
          Some pth \<Rightarrow> bnd (lift_out (path (sub_Name s))) (\<lambda>p. sys (os_mkdir_all os (pth p)))
        | None \<Rightarrow> ret ()))"

end
