(* ===== verification/V1Cgroup.thy ===== *)
theory V1Cgroup
  imports V1Subsystem
begin

text \<open>
  The group of \<open>cgroup1\<close> (\<open>cgroup.go\<close>, \<open>control.go\<close>, \<open>opts.go\<close>, \<open>errors.go\<close>, and \<open>readPids\<close>, \<open>remove\<close> of
  \<open>utils.go\<close>): creating and loading it, adding processes, listing, freezing, updating, measuring, moving
  and deleting. A group is its path, its subsystems and the error that it keeps once it is deleted; a
  method that can set that error returns the new group. The mutex makes the methods of one group
  atomic, so they are steps on that state.
\<close>

section \<open>Options\<close>

type_synonym InitCheck = "Subsystem \<Rightarrow> Path \<Rightarrow> gerror \<Rightarrow> gerror option"

definition AllowAny :: InitCheck where
  "AllowAny s p e = Some ErrIgnoreSubsystem"

definition RequireDevices :: InitCheck where
  "RequireDevices s p e = (if sub_Name s = Devices then Some ErrDevicesRequired else Some ErrIgnoreSubsystem)"

record 'w InitConfig1 =
  ic1_check :: "InitCheck option"
  ic1_hierarchy :: "'w Hierarchy"

type_synonym 'w InitOpts1 = "'w InitConfig1 \<Rightarrow> gerror option \<times> 'w InitConfig1"

definition WithHierarchy :: "'w Hierarchy \<Rightarrow> 'w InitOpts1" where
  "WithHierarchy h c = (None, c\<lparr>ic1_hierarchy := h\<rparr>)"

text \<open>The deprecated name.\<close>

definition WithHiearchy :: "'w Hierarchy \<Rightarrow> 'w InitOpts1" where
  "WithHiearchy h = WithHierarchy h"

definition newInitConfig :: "'w os \<Rightarrow> 'w host \<Rightarrow> 'w InitConfig1" where
  "newInitConfig os host = \<lparr>ic1_check = Some RequireDevices, ic1_hierarchy = Default os host\<rparr>"

fun apply_opts1 :: "'w InitOpts1 list \<Rightarrow> 'w InitConfig1 \<Rightarrow> 'w InitConfig1 outcome" where
  "apply_opts1 [] c = Ok c"
| "apply_opts1 (opt # opts) c = (case opt c of (Some e, _) \<Rightarrow> Err e | (None, c1) \<Rightarrow> apply_opts1 opts c1)"

text \<open>What the check of the configuration makes of a controller that is not active: the error that ends
  the operation, or nothing when the subsystem is skipped.\<close>

definition skip_error :: "InitCheck option \<Rightarrow> Subsystem \<Rightarrow> Path \<Rightarrow> gerror option" where
  "skip_error check s path = (case check of
     None \<Rightarrow> None
   | Some c \<Rightarrow> (case c s path ErrControllerNotActive of
       None \<Rightarrow> None | Some skerr \<Rightarrow> if skerr \<noteq> ErrIgnoreSubsystem then Some skerr else None))"

section \<open>Creating and loading\<close>

record cgroup =
  cg_path :: Path
  cg_subsystems :: "Subsystem list"
  cg_err :: "gerror option"

fun new_loop :: "'w os \<Rightarrow> 'w host \<Rightarrow> InitCheck option \<Rightarrow> Path \<Rightarrow> LinuxResources option \<Rightarrow> Subsystem list \<Rightarrow> Subsystem list \<Rightarrow>
    ('w, Subsystem list) go" where
  "new_loop os host check path res active [] w = (Ok active, w)"
| "new_loop os host check path res active (s # ss) w = (case initializeSubsystem os host s path res w of
     (Ok _, w1) \<Rightarrow> new_loop os host check path res (active @ [s]) ss w1
   | (Err e, w1) \<Rightarrow>
       if e = ErrControllerNotActive
       then (case skip_error check s path of
               Some skerr \<Rightarrow> (Err skerr, w1)
             | None \<Rightarrow> new_loop os host check path res active ss w1)
       else (Err e, w1)
   | (Panic, w1) \<Rightarrow> (Panic, w1))"

definition New :: "'w os \<Rightarrow> 'w host \<Rightarrow> Path \<Rightarrow> LinuxResources option \<Rightarrow> 'w InitOpts1 list \<Rightarrow> ('w, cgroup) go" where
  "New os host path res opts =
     bnd (lift_out (apply_opts1 opts (newInitConfig os host))) (\<lambda>config.
     bnd (reads (ic1_hierarchy config)) (\<lambda>subsystems.
     bnd (new_loop os host (ic1_check config) path res [] subsystems) (\<lambda>active.
       ret \<lparr>cg_path = path, cg_subsystems = active, cg_err = None\<rparr>)))"

text \<open>\<open>errors.Is(err, os.ErrNotExist)\<close>.\<close>

definition errors_is_not_exist :: "gerror \<Rightarrow> bool" where
  "errors_is_not_exist e = errors_is_errno e ENOENT"

fun load_loop :: "'w os \<Rightarrow> InitCheck option \<Rightarrow> Path \<Rightarrow> 'w \<Rightarrow> Subsystem list \<Rightarrow> (Subsystem \<times> (string \<Rightarrow> string)) list \<Rightarrow>
    Subsystem list outcome" where
  "load_loop os check path w active [] = Ok active"
| "load_loop os check path w active ((s, pth) # ss) = (case path (sub_Name s) of
     Ok p \<Rightarrow> (case Lstat os (pth p) w of
         Some e \<Rightarrow> if is_not_exist e then load_loop os check path w active ss else Err e
       | None \<Rightarrow> load_loop os check path w (active @ [s]) ss)
   | Err e \<Rightarrow>
       if errors_is_not_exist e then Err ErrCgroupDeleted
       else if e = ErrControllerNotActive
       then (case skip_error check s path of
               Some skerr \<Rightarrow> Err skerr
             | None \<Rightarrow> load_loop os check path w active ss)
       else Err e
   | Panic \<Rightarrow> Panic)"

definition Load1 :: "'w os \<Rightarrow> 'w host \<Rightarrow> Path \<Rightarrow> 'w InitOpts1 list \<Rightarrow> 'w \<Rightarrow> cgroup outcome" where
  "Load1 os host path opts w =
     bind_out (apply_opts1 opts (newInitConfig os host)) (\<lambda>config.
     bind_out (ic1_hierarchy config w) (\<lambda>subsystems.
     bind_out (load_loop os (ic1_check config) path w [] (pathers subsystems)) (\<lambda>active.
       if length active = 0 then Err ErrCgroupDeleted
       else Ok \<lparr>cg_path = path, cg_subsystems = active, cg_err = None\<rparr>)))"

text \<open>Every method of a deleted group returns the error that it keeps.\<close>

definition unless_deleted :: "cgroup \<Rightarrow> ('w, 'a) go \<Rightarrow> ('w, 'a) go" where
  "unless_deleted c m = (case cg_err c of Some e \<Rightarrow> fail e | None \<Rightarrow> m)"

definition cgroup_New :: "'w os \<Rightarrow> 'w host \<Rightarrow> cgroup \<Rightarrow> string \<Rightarrow> LinuxResources option \<Rightarrow> ('w, cgroup) go" where
  "cgroup_New os host c name res = unless_deleted c
     (let path = subPath (cg_path c) name
      in seqn (for_each (\<lambda>s. initializeSubsystem os host s path res) (cg_subsystems c))
           (ret \<lparr>cg_path = path, cg_subsystems = cg_subsystems c, cg_err = None\<rparr>))"

definition cgroup_Subsystems :: "cgroup \<Rightarrow> Subsystem list" where
  "cgroup_Subsystems c = cg_subsystems c"

definition subsystemsFilter :: "cgroup \<Rightarrow> Name list \<Rightarrow> Subsystem list" where
  "subsystemsFilter c names =
     (if length names = 0 then cg_subsystems c else filter (\<lambda>s. sub_Name s \<in> set names) (cg_subsystems c))"

definition getSubsystem :: "cgroup \<Rightarrow> Name \<Rightarrow> Subsystem option" where
  "getSubsystem c n = find (\<lambda>s. sub_Name s = n) (cg_subsystems c)"

section \<open>Processes\<close>

type_synonym procType = string

definition cgroupProcs1 :: procType where "cgroupProcs1 = ''cgroup.procs''"
definition cgroupTasks :: procType where "cgroupTasks = ''tasks''"

record Process =
  pr_Subsystem :: Name
  pr_Pid :: i64
  pr_Path :: string

text \<open>The attempts to write a process id: again after a pause as long as the kernel says EINVAL; the first
  number says how many are left.\<close>

fun write_attempts :: "'w os \<Rightarrow> string \<Rightarrow> string \<Rightarrow> nat \<Rightarrow> gerror option \<Rightarrow> ('w, unit) go" where
  "write_attempts os path content 0 err w = (case err of None \<Rightarrow> (Ok (), w) | Some e \<Rightarrow> (Err e, w))"
| "write_attempts os path content (Suc k) err w = (case os_fd_write os path content w of
     (None, w1) \<Rightarrow> (Ok (), w1)
   | (Some e, w1) \<Rightarrow>
       if \<not> errors_is_errno e EINVAL then (Err e, w1)
       else write_attempts os path content k (Some e) (os_sleep os 30 w1))"

definition writeCgroupProcs :: "'w os \<Rightarrow> string \<Rightarrow> string \<Rightarrow> ('w, unit) go" where
  "writeCgroupProcs os path content =
     seqn (sys (os_open_file os True path)) (write_attempts os path content 5 None)"

definition cgroup_add :: "'w os \<Rightarrow> cgroup \<Rightarrow> Process \<Rightarrow> procType \<Rightarrow> Name list \<Rightarrow> ('w, unit) go" where
  "cgroup_add os c process pType names =
     (if sint (pr_Pid process) \<le> 0 then fail ErrInvalidPid
      else unless_deleted c (for_each (\<lambda>(s, pth).
        bnd (lift_out (cg_path c (sub_Name s))) (\<lambda>p.
          writeCgroupProcs os (path_join [pth p, pType]) (FormatInt (pr_Pid process))))
        (pathers (subsystemsFilter c names))))"

definition Add :: "'w os \<Rightarrow> cgroup \<Rightarrow> Process \<Rightarrow> Name list \<Rightarrow> ('w, unit) go" where
  "Add os c process names = cgroup_add os c process cgroupProcs1 names"

definition AddProc1 :: "'w os \<Rightarrow> cgroup \<Rightarrow> u64 \<Rightarrow> Name list \<Rightarrow> ('w, unit) go" where
  "AddProc1 os c pid names = cgroup_add os c \<lparr>pr_Subsystem = [], pr_Pid = pid, pr_Path = []\<rparr> cgroupProcs1 names"

definition AddTask :: "'w os \<Rightarrow> cgroup \<Rightarrow> Process \<Rightarrow> Name list \<Rightarrow> ('w, unit) go" where
  "AddTask os c process names = cgroup_add os c process cgroupTasks names"

fun pid_lines :: "string \<Rightarrow> Name \<Rightarrow> string list \<Rightarrow> Process list outcome" where
  "pid_lines path subsystem [] = Ok []"
| "pid_lines path subsystem (t # ts) =
     (if t = [] then pid_lines path subsystem ts
      else (case Atoi t of
          (pid, Some e) \<Rightarrow> Err (NumError ''Atoi'' t e)
        | (pid, None) \<Rightarrow> bind_out (pid_lines path subsystem ts) (\<lambda>out.
            Ok (\<lparr>pr_Subsystem = subsystem, pr_Pid = pid, pr_Path = path\<rparr> # out))))"

definition readPids :: "'w os \<Rightarrow> string \<Rightarrow> Name \<Rightarrow> procType \<Rightarrow> 'w \<Rightarrow> Process list outcome" where
  "readPids os path subsystem pType w = (case os_open os (path_join [path, pType]) w of
     Inl e \<Rightarrow> Err e
   | Inr (d, rd) \<Rightarrow> (case scan_lines d rd of (ls, serr) \<Rightarrow>
       bind_out (pid_lines path subsystem ls) (\<lambda>out. case serr of Some e \<Rightarrow> Err e | None \<Rightarrow> Ok out)))"

text \<open>The callback of \<open>processes\<close>; its state is the list of processes found so far.\<close>

definition processes_visit :: "'w os \<Rightarrow> string \<Rightarrow> Name \<Rightarrow> bool \<Rightarrow> procType \<Rightarrow> 'w \<Rightarrow> Process list walk_fn" where
  "processes_visit os path subsystem recursive pType w p isdir err acc = (case err of
     Some e \<Rightarrow> (WErr e, acc)
   | None \<Rightarrow>
       if \<not> recursive \<and> isdir = Some True then (if p = path then (WOk, acc) else (WSkipDir, acc))
       else (case path_split p of (dir, name) \<Rightarrow>
         if name \<noteq> pType then (WOk, acc)
         else (case readPids os dir subsystem pType w of
             Ok procs \<Rightarrow> (WOk, acc @ procs)
           | Err e \<Rightarrow> (WErr e, acc)
           | Panic \<Rightarrow> (WOk, acc))))"

text \<open>A subsystem without a path makes the type assertion panic.\<close>

definition processes :: "'w os \<Rightarrow> cgroup \<Rightarrow> Name \<Rightarrow> bool \<Rightarrow> procType \<Rightarrow> 'w \<Rightarrow> (gerror option \<times> Process list) outcome" where
  "processes os c subsystem recursive pType w =
     (case cg_path c subsystem of
        Err e \<Rightarrow> Ok (Some e, [])
      | Panic \<Rightarrow> Panic
      | Ok sp \<Rightarrow> (case getSubsystem c subsystem of
          None \<Rightarrow> Ok (Some (ErrMsg (''cgroups: '' @ sp @ '' doesn't exist in '' @ subsystem @ '' subsystem'')), [])
        | Some s \<Rightarrow> (case as_pather s of
            None \<Rightarrow> Panic
          | Some pth \<Rightarrow> Ok (Walk os (pth sp) (processes_visit os (pth sp) subsystem recursive pType w) w []))))"

definition Processes :: "'w os \<Rightarrow> cgroup \<Rightarrow> Name \<Rightarrow> bool \<Rightarrow> 'w \<Rightarrow> (gerror option \<times> Process list) outcome" where
  "Processes os c subsystem recursive w = (case cg_err c of
     Some e \<Rightarrow> Ok (Some e, []) | None \<Rightarrow> processes os c subsystem recursive cgroupProcs1 w)"

definition Tasks :: "'w os \<Rightarrow> cgroup \<Rightarrow> Name \<Rightarrow> bool \<Rightarrow> 'w \<Rightarrow> (gerror option \<times> Process list) outcome" where
  "Tasks os c subsystem recursive w = (case cg_err c of
     Some e \<Rightarrow> Ok (Some e, []) | None \<Rightarrow> processes os c subsystem recursive cgroupTasks w)"

text \<open>Moving into another group, subsystem by subsystem; a process that is gone is skipped.\<close>

fun move_loop :: "'w os \<Rightarrow> cgroup \<Rightarrow> Process list \<Rightarrow> ('w, unit) go" where
  "move_loop os destination [] w = (Ok (), w)"
| "move_loop os destination (p # ps) w = (case Add os destination p [] w of
     (Ok _, w1) \<Rightarrow> move_loop os destination ps w1
   | (Err e, w1) \<Rightarrow>
       if contains (error_text e) ''no such process'' then move_loop os destination ps w1 else (Err e, w1)
   | (Panic, w1) \<Rightarrow> (Panic, w1))"

definition MoveTo1 :: "'w os \<Rightarrow> cgroup \<Rightarrow> cgroup \<Rightarrow> ('w, unit) go" where
  "MoveTo1 os c destination = unless_deleted c (for_each (\<lambda>s w.
     (case processes os c (sub_Name s) True cgroupProcs1 w of
        Panic \<Rightarrow> (Panic, w)
      | Err e \<Rightarrow> (Err e, w)
      | Ok (Some e, _) \<Rightarrow> (Err e, w)
      | Ok (None, procs) \<Rightarrow> move_loop os destination procs w)) (cg_subsystems c))"

section \<open>Deleting\<close>

definition remove1 :: "'w os \<Rightarrow> string \<Rightarrow> ('w, unit) go" where
  "remove1 os path w = (case remove_loop os path 5 0 10 None w of
     (None, w1) \<Rightarrow> (Ok (), w1)
   | (Some e, w1) \<Rightarrow> (Err (ErrMsg (''cgroups: unable to remove path '' @ quoted path)), w1))"

text \<open>Removing one subsystem that has no processes: the entries it adds to the list of errors.\<close>

definition delete_subsystem :: "'w os \<Rightarrow> 'w host \<Rightarrow> cgroup \<Rightarrow> Subsystem \<Rightarrow> ('w, string list) go" where
  "delete_subsystem os host c s = (case as_deleter host s of
     Some del \<Rightarrow> bnd (lift_out (cg_path c (sub_Name s))) (\<lambda>sp.
       handle (del sp) (\<lambda>e. ret [sub_Name s]) (\<lambda>_. ret []))
   | None \<Rightarrow> (case as_pather s of
       Some pth \<Rightarrow> bnd (lift_out (cg_path c (sub_Name s))) (\<lambda>sp.
         handle (remove1 os (pth sp)) (\<lambda>e. ret [pth sp]) (\<lambda>_. ret []))
     | None \<Rightarrow> ret []))"

fun delete_loop :: "'w os \<Rightarrow> 'w host \<Rightarrow> cgroup \<Rightarrow> Subsystem list \<Rightarrow> string list \<Rightarrow> ('w, string list) go" where
  "delete_loop os host c [] errs w = (Ok errs, w)"
| "delete_loop os host c (s # ss) errs w = (case processes os c (sub_Name s) True cgroupProcs1 w of
     Panic \<Rightarrow> (Panic, w)
   | Err e \<Rightarrow> (Err e, w)
   | Ok (Some e, _) \<Rightarrow> if errors_is_not_exist e then delete_loop os host c ss errs w else (Err e, w)
   | Ok (None, procs) \<Rightarrow>
       if 0 < length procs then delete_loop os host c ss (errs @ [sub_Name s @ '' (contains running processes)'']) w
       else bnd (delete_subsystem os host c s) (\<lambda>es. delete_loop os host c ss (errs @ es)) w)"

definition Delete1 :: "'w os \<Rightarrow> 'w host \<Rightarrow> cgroup \<Rightarrow> 'w \<Rightarrow> (unit outcome \<times> cgroup) \<times> 'w" where
  "Delete1 os host c w = (case cg_err c of
     Some e \<Rightarrow> ((Err e, c), w)
   | None \<Rightarrow> (case delete_loop os host c (cg_subsystems c) [] w of
       (Panic, w1) \<Rightarrow> ((Panic, c), w1)
     | (Err e, w1) \<Rightarrow> ((Err e, c), w1)
     | (Ok errs, w1) \<Rightarrow>
         if 0 < length errs then ((Err (ErrMsg (''cgroups: unable to remove paths '' @ join errs '', '')), c), w1)
         else ((Ok (), c\<lparr>cg_err := Some ErrCgroupDeleted\<rparr>), w1)))"

section \<open>Updating\<close>

definition cgroup_Update :: "'w os \<Rightarrow> cgroup \<Rightarrow> LinuxResources option \<Rightarrow> ('w, unit) go" where
  "cgroup_Update os c res = unless_deleted c (for_each (\<lambda>s. (case as_updater os s of
     None \<Rightarrow> ret ()
   | Some update \<Rightarrow> bnd (lift_out (cg_path c (sub_Name s))) (\<lambda>sp. update sp res))) (cg_subsystems c))"

section \<open>Statistics\<close>

type_synonym ErrorHandler = "gerror \<Rightarrow> gerror option"

definition IgnoreNotExist :: ErrorHandler where
  "IgnoreNotExist e = (if is_not_exist e then None else Some e)"

definition errPassthrough :: ErrorHandler where
  "errPassthrough e = Some e"

text \<open>The goroutines: one for each subsystem with statistics, on the path that was looked up before.\<close>

fun stat_jobs :: "'w os \<Rightarrow> cgroup \<Rightarrow> Subsystem list \<Rightarrow> (Subsystem \<times> string) list outcome" where
  "stat_jobs os c [] = Ok []"
| "stat_jobs os c (s # ss) = (case as_stater os s of
     None \<Rightarrow> stat_jobs os c ss
   | Some _ \<Rightarrow> bind_out (cg_path c (sub_Name s)) (\<lambda>sp. bind_out (stat_jobs os c ss) (\<lambda>jobs. Ok ((s, sp) # jobs))))"

text \<open>One goroutine: its effect on the message, and the errors it sends on the channel.\<close>

definition stat_job :: "'w os \<Rightarrow> ErrorHandler list \<Rightarrow> 'w \<Rightarrow> Subsystem \<times> string \<Rightarrow> (gerror list outcome) \<times> Metrics1 \<Rightarrow> (gerror list outcome) \<times> Metrics1" where
  "stat_job os handlers w job r = (case (job, r) of
     ((s, sp), (Ok errs, m)) \<Rightarrow> (case as_stater os s of
       None \<Rightarrow> (Ok errs, m)
     | Some st \<Rightarrow> (case st sp w m of
         (Ok _, m1) \<Rightarrow> (Ok errs, m1)
       | (Err e, m1) \<Rightarrow> (Ok (errs @ somes (map (\<lambda>h. h e) handlers)), m1)
       | (Panic, m1) \<Rightarrow> (Panic, m1)))
   | _ \<Rightarrow> r)"

definition stats0 :: Metrics1 where
  "stats0 = \<lparr>mt1_Hugetlb = [], mt1_Pids = None, mt1_CPU = Some cpu0, mt1_Memory = None, mt1_Blkio = None, mt1_Rdma = None,
     mt1_Network = [], mt1_CgroupStats = None, mt1_MemoryOomControl = None\<rparr>"

text \<open>\<open>order\<close> is the order in which the goroutines run. The channel has room for one error per subsystem: a
  goroutine that sends more blocks, and with it the call (\<open>None\<close>). A panic in a goroutine ends the program.\<close>

definition cgroup_Stat :: "'w os \<Rightarrow> cgroup \<Rightarrow> ErrorHandler list \<Rightarrow> ((Subsystem \<times> string) list \<Rightarrow> (Subsystem \<times> string) list) \<Rightarrow>
    'w \<Rightarrow> Metrics1 outcome option" where
  "cgroup_Stat os c handlers order w = (case cg_err c of
     Some e \<Rightarrow> Some (Err e)
   | None \<Rightarrow> (let hs = (if length handlers = 0 then handlers @ [errPassthrough] else handlers)
       in case stat_jobs os c (cg_subsystems c) of
            Err e \<Rightarrow> Some (Err e)
          | Panic \<Rightarrow> Some Panic
          | Ok jobs \<Rightarrow> (case fold (stat_job os hs w) (order jobs) (Ok [], stats0) of
              (Panic, _) \<Rightarrow> Some Panic
            | (Err e, _) \<Rightarrow> Some (Err e)
            | (Ok errs, m) \<Rightarrow>
                if length (cg_subsystems c) < length errs then None
                else (case errs of e # _ \<Rightarrow> Some (Err e) | [] \<Rightarrow> Some (Ok m)))))"

section \<open>Freezing\<close>

definition with_freezer :: "cgroup \<Rightarrow> (string \<Rightarrow> string \<Rightarrow> 'w \<Rightarrow> (unit outcome \<times> 'w) option) \<Rightarrow> 'w \<Rightarrow> (unit outcome \<times> 'w) option" where
  "with_freezer c f w = (case cg_err c of
     Some e \<Rightarrow> Some (Err e, w)
   | None \<Rightarrow> (case getSubsystem c Freezer of
       None \<Rightarrow> Some (Err ErrFreezerNotSupported, w)
     | Some s \<Rightarrow> (case cg_path c Freezer of
         Err e \<Rightarrow> Some (Err e, w)
       | Panic \<Rightarrow> Some (Panic, w)
       | Ok sp \<Rightarrow> (case s of FreezerController root \<Rightarrow> f root sp w | _ \<Rightarrow> Some (Panic, w)))))"

definition Freeze1 :: "'w os \<Rightarrow> cgroup \<Rightarrow> 'w \<Rightarrow> (unit outcome \<times> 'w) option" where
  "Freeze1 os c w = with_freezer c (freezer_Freeze os) w"

definition Thaw1 :: "'w os \<Rightarrow> cgroup \<Rightarrow> 'w \<Rightarrow> (unit outcome \<times> 'w) option" where
  "Thaw1 os c w = with_freezer c (freezer_Thaw os) w"

text \<open>The loop of \<open>checkExists\<close>: whether a directory of the group is known to be gone.\<close>

fun is_gone :: "'w os \<Rightarrow> cgroup \<Rightarrow> 'w \<Rightarrow> (Subsystem \<times> (string \<Rightarrow> string)) list \<Rightarrow> bool" where
  "is_gone os c w [] = False"
| "is_gone os c w ((s, pth) # ss) = (case cg_path c (sub_Name s) of
     Ok p \<Rightarrow> (case Lstat os (pth p) w of
         Some e \<Rightarrow> if is_not_exist e then True else is_gone os c w ss
       | None \<Rightarrow> is_gone os c w ss)
   | _ \<Rightarrow> False)"

definition checkExists :: "'w os \<Rightarrow> cgroup \<Rightarrow> 'w \<Rightarrow> cgroup" where
  "checkExists os c w = (if is_gone os c w (pathers (cg_subsystems c)) then c\<lparr>cg_err := Some ErrCgroupDeleted\<rparr> else c)"

definition cgroup_State :: "'w os \<Rightarrow> cgroup \<Rightarrow> 'w \<Rightarrow> string outcome \<times> cgroup" where
  "cgroup_State os c w =
     (let c1 = checkExists os c w
      in (if cg_err c1 = Some ErrCgroupDeleted then Ok Deleted1
          else (case getSubsystem c1 Freezer of
              None \<Rightarrow> Ok Thawed1
            | Some s \<Rightarrow> (case cg_path c1 Freezer of
                Err e \<Rightarrow> Ok Unknown1
              | Panic \<Rightarrow> Panic
              | Ok sp \<Rightarrow> (case s of
                  FreezerController root \<Rightarrow> (case freezer_state os root sp w of Ok st \<Rightarrow> Ok st | Err e \<Rightarrow> Ok Unknown1 | Panic \<Rightarrow> Panic)
                | _ \<Rightarrow> Panic))), c1))"

section \<open>Memory events\<close>

datatype MemoryEvent = MemoryThresholdEvent u64 bool | OOMEvent | MemoryPressureEvent string string

fun event_Arg :: "MemoryEvent \<Rightarrow> string" where
  "event_Arg (MemoryThresholdEvent threshold swap) = FormatUint threshold"
| "event_Arg OOMEvent = []"
| "event_Arg (MemoryPressureEvent level hierarchy) = level @ '','' @ hierarchy"

fun event_File :: "MemoryEvent \<Rightarrow> string" where
  "event_File (MemoryThresholdEvent threshold swap) = (if swap then ''memory.memsw.usage_in_bytes'' else ''memory.usage_in_bytes'')"
| "event_File OOMEvent = ''memory.oom_control''"
| "event_File (MemoryPressureEvent level hierarchy) = ''memory.pressure_level''"

text \<open>The file opened for the registration is closed on every way out (\<open>defer\<close>), the event descriptor on
  the failing ones.\<close>

definition memoryEvent :: "'w os \<Rightarrow> 'w host \<Rightarrow> memoryController \<Rightarrow> string \<Rightarrow> MemoryEvent \<Rightarrow> ('w, nat) go" where
  "memoryEvent os host m path event w =
     (let root = memory_Path m path
      in case h_eventfd host w of
           (Inl e, w1) \<Rightarrow> (Err e, w1)
         | (Inr efd, w1) \<Rightarrow> (case h_open_fd host (path_join [root, event_File event]) w1 of
             (Inl e, w2) \<Rightarrow> (Err e, h_close host efd w2)
           | (Inr fd, w2) \<Rightarrow>
               (case os_write_file os (path_join [root, ''cgroup.event_control''])
                       (show_nat efd @ '' '' @ show_nat fd @ '' '' @ event_Arg event) w2 of
                  (Some e, w3) \<Rightarrow> (Err e, h_close host fd (h_close host efd w3))
                | (None, w3) \<Rightarrow> (Ok efd, h_close host fd w3))))"

definition RegisterMemoryEvent :: "'w os \<Rightarrow> 'w host \<Rightarrow> cgroup \<Rightarrow> MemoryEvent \<Rightarrow> ('w, nat) go" where
  "RegisterMemoryEvent os host c event = unless_deleted c
     (case getSubsystem c MemoryName of
        None \<Rightarrow> fail ErrMemoryNotSupported
      | Some s \<Rightarrow> bnd (lift_out (cg_path c MemoryName)) (\<lambda>sp.
          (case s of MemoryController m \<Rightarrow> memoryEvent os host m sp event | _ \<Rightarrow> (\<lambda>w. (Panic, w)))))"

definition OOMEventFD :: "'w os \<Rightarrow> 'w host \<Rightarrow> cgroup \<Rightarrow> ('w, nat) go" where
  "OOMEventFD os host c = RegisterMemoryEvent os host c OOMEvent"

end
