(* ===== verification/V1CgroupFacts.thy ===== *)
theory V1CgroupFacts
  imports V1Cgroup "HOL-Library.Sublist"
begin

text \<open>
  What the operations on a group of version 1 do: the files that a controller leaves, which subsystems a new
  group has, the statistics whatever the order of the goroutines, the retries of a write, deletion and
  what is left of a deleted group.
\<close>

section \<open>Creating\<close>

text \<open>The directory and the files of a controller that only writes settings.\<close>

fun settings_of :: "Subsystem \<Rightarrow> ((string \<Rightarrow> string) \<times> (LinuxResources \<Rightarrow> (string \<times> string) list)) option" where
  "settings_of (PidsController root) = Some (pids_Path root, pids_files)"
| "settings_of (NetclsController root) = Some (netcls_Path root, netcls_files)"
| "settings_of (NetprioController root) = Some (netprio_Path root, netprio_files)"
| "settings_of (CpuController root) = Some (cpu_Path root, cpu_files)"
| "settings_of (MemoryController m) = Some (memory_Path m, memory_create_files)"
| "settings_of (BlkioController b) = Some (blkio_Path b, blkio_files)"
| "settings_of (RdmaController root) = Some (rdma_Path root, rdma_files)"
| "settings_of (DevicesController root) = Some (devices_Path root, devices_files)"
| "settings_of (HugetlbController h) = Some (hugetlb_Path h, hugetlb_files)"
| "settings_of _ = None"

lemma settings_read_back:
  assumes "settings cr d f" and "create = cr os c" and "dir = d c" and "files = f" and "disk os good writable"
    and "os_mkdir_all os (dir path) w = (None, w1)" and "good w1"
    and "\<And>kv. kv \<in> set (files r) \<Longrightarrow> writable (path_join [dir path, fst kv]) w1"
  shows "\<exists>w2. create path (Some r) w = (Ok (), w2) \<and>
    (\<forall>p d. assign_all (map (\<lambda>kv. (path_join [dir path, fst kv], snd kv)) (files r)) p = Some d \<longrightarrow> ReadFile os p w2 = Ok d)"
  using settings.create_read_back [OF assms(1) assms(5), where c = c and path = path and w = w and r = r] assms(6-8)
  unfolding assms(2-4) by blast

text \<open>Creating the group of a controller that writes settings: when the directory can be made and its
  files written, the call succeeds and every file then holds the last value that the resources ask for.\<close>

theorem controllers_read_back:
  assumes "disk os good writable" and "settings_of s = Some (dir, files)" and "as_creator os host s = Some create"
    and "os_mkdir_all os (dir path) w = (None, w1)" and "good w1"
    and "\<And>kv. kv \<in> set (files r) \<Longrightarrow> writable (path_join [dir path, fst kv]) w1"
  shows "\<exists>w2. create path (Some r) w = (Ok (), w2) \<and>
    (\<forall>p d. assign_all (map (\<lambda>kv. (path_join [dir path, fst kv], snd kv)) (files r)) p = Some d \<longrightarrow> ReadFile os p w2 = Ok d)"
proof -
  note rb = settings_read_back [where os = os and good = good and writable = writable and dir = dir and files = files and path = path
      and w = w and ?w1.0 = w1 and r = r and create = create, OF _ _ _ _ assms(1,4,5,6)]
  show ?thesis
  proof (cases s)
    case (PidsController root)
    then show ?thesis using assms(2,3) by (intro rb [OF pids_settings.settings_axioms, of root]) simp_all
  next
    case (NetclsController root)
    then show ?thesis using assms(2,3) by (intro rb [OF netcls_settings.settings_axioms, of root]) simp_all
  next
    case (NetprioController root)
    then show ?thesis using assms(2,3) by (intro rb [OF netprio_settings.settings_axioms, of root]) simp_all
  next
    case (CpuController root)
    then show ?thesis using assms(2,3) by (intro rb [OF cpu_settings.settings_axioms, of root]) simp_all
  next
    case (MemoryController m)
    then show ?thesis using assms(2,3) by (intro rb [OF memory_settings.settings_axioms, of m]) simp_all
  next
    case (BlkioController b)
    then show ?thesis using assms(2,3) by (intro rb [OF blkio_settings.settings_axioms, of b]) simp_all
  next
    case (RdmaController root)
    then show ?thesis using assms(2,3) by (intro rb [OF rdma_settings.settings_axioms, of root]) simp_all
  next
    case (DevicesController root)
    then show ?thesis using assms(2,3) by (intro rb [OF devices_settings.settings_axioms, of root]) simp_all
  next
    case (HugetlbController h)
    then show ?thesis using assms(2,3) by (intro rb [OF hugetlb_settings.settings_axioms, of h]) simp_all
  qed (use assms(2) in simp_all)
qed

text \<open>The resources of the concrete instances: nothing set.\<close>

definition no_resources :: LinuxResources where
  "no_resources = \<lparr>lx_Devices = [], lx_Memory = None, lx_CPU = None, lx_Pids = None, lx_BlockIO = None, lx_HugepageLimits = None,
     lx_Network = None, lx_Rdma = None\<rparr>"

theorem controllers_read_back_witness:
  "\<exists>w2. cpu_Create mem_os ''/m'' ''/a'' (Some (no_resources\<lparr>lx_CPU := Some \<lparr>lc_Shares = Some 512, lc_Quota = Some (- 1), lc_Period = None,
        lc_RealtimeRuntime = None, lc_RealtimePeriod = None, lc_Cpus = [], lc_Mems = []\<rparr>\<rparr>))
      \<lparr>mem_files = [(''/m/a/cpu.shares'', []), (''/m/a/cpu.cfs_quota_us'', [])], mem_dirs = [''/'', ''/m'', ''/m/a''], mem_faults = []\<rparr> = (Ok (), w2)
    \<and> ReadFile mem_os ''/m/a/cpu.cfs_quota_us'' w2 = Ok ''-1''"
proof -
  let ?r = "no_resources\<lparr>lx_CPU := Some \<lparr>lc_Shares = Some 512, lc_Quota = Some (- 1), lc_Period = None,
        lc_RealtimeRuntime = None, lc_RealtimePeriod = None, lc_Cpus = [], lc_Mems = []\<rparr>\<rparr>"
  let ?w = "\<lparr>mem_files = [(''/m/a/cpu.shares'', []), (''/m/a/cpu.cfs_quota_us'', [])], mem_dirs = [''/'', ''/m'', ''/m/a''], mem_faults = []\<rparr>"
  have dir: "cpu_Path ''/m'' ''/a'' = ''/m/a''" by (simp add: cpu_Path_def path_eval)
  have files: "cpu_files ?r = [(''cpu.shares'', ''512''), (''cpu.cfs_quota_us'', ''-1'')]"
    by (simp add: cpu_files_def cpu_table_def cpu_value_def print_eval no_resources_def)
  have join: "path_join [''/m/a'', ''cpu.shares''] = ''/m/a/cpu.shares''" "path_join [''/m/a'', ''cpu.cfs_quota_us''] = ''/m/a/cpu.cfs_quota_us''"
    by (simp_all add: path_eval)
  have mk: "os_mkdir_all mem_os (cpu_Path ''/m'' ''/a'') ?w = (None, ?w)"
    unfolding dir by (simp add: mem_mkdir_all_def fault_def ancestors_def abs_comps_def render_path_def)
  have wr: "mem_writable (path_join [cpu_Path ''/m'' ''/a'', fst kv]) ?w" if "kv \<in> set (cpu_files ?r)" for kv
    using that unfolding files dir by (auto simp: join mem_writable_def fault_def)
  have sub: "settings_of (CpuController ''/m'') = Some (cpu_Path ''/m'', cpu_files)"
      "as_creator mem_os host (CpuController ''/m'') = Some (cpu_Create mem_os ''/m'')" for host :: "memfs host"
    by simp_all
  from controllers_read_back [where os = mem_os and good = "\<lambda>_. True" and writable = mem_writable and s = "CpuController ''/m''"
    and dir = "cpu_Path ''/m''" and files = cpu_files and create = "cpu_Create mem_os ''/m''" and path = "''/a''" and w = ?w and ?w1.0 = ?w and r = ?r,
    OF mem_disk.disk_axioms sub mk TrueI wr]
  obtain w2 where "cpu_Create mem_os ''/m'' ''/a'' (Some ?r) ?w = (Ok (), w2)"
    "\<forall>p d. assign_all (map (\<lambda>kv. (path_join [''/m/a'', fst kv], snd kv)) (cpu_files ?r)) p = Some d \<longrightarrow> ReadFile mem_os p w2 = Ok d"
    unfolding dir by auto
  then show ?thesis unfolding files by (auto simp: join assign_all_def)
qed

lemma initialize_path:
  assumes "initializeSubsystem os host s path res w = (Ok u, w1)"
  shows "\<exists>p. path (sub_Name s) = Ok p"
  using assms
  by (cases s; cases "path (sub_Name s)") (auto simp: initializeSubsystem_def bnd_def)

lemma skip_RequireDevices:
  "skip_error (Some RequireDevices) s path = (if sub_Name s = Devices then Some ErrDevicesRequired else None)"
  by (simp add: skip_error_def RequireDevices_def)

lemma new_loop_keeps:
  assumes "new_loop os host (Some RequireDevices) path res active ss w = (Ok subs, w1)"
  shows "\<exists>kept. subs = active @ kept \<and> subseq kept ss \<and> (\<forall>s \<in> set kept. \<exists>p. path (sub_Name s) = Ok p) \<and>
    (\<forall>s \<in> set ss. sub_Name s = Devices \<longrightarrow> s \<in> set kept)"
  using assms
proof (induction ss arbitrary: active w)
  case (Cons s ss)
  obtain r w2 where r: "initializeSubsystem os host s path res w = (r, w2)" by fastforce
  show ?case
  proof (cases r)
    case (Ok u)
    then have "new_loop os host (Some RequireDevices) path res (active @ [s]) ss w2 = (Ok subs, w1)"
      using Cons.prems r by simp
    from Cons.IH [OF this] obtain kept where "subs = (active @ [s]) @ kept" "subseq kept ss"
      "\<forall>s \<in> set kept. \<exists>p. path (sub_Name s) = Ok p" "\<forall>s \<in> set ss. sub_Name s = Devices \<longrightarrow> s \<in> set kept" by blast
    then show ?thesis using initialize_path [OF r [unfolded Ok]] by (intro exI [of _ "s # kept"]) auto
  next
    case (Err e)
    then have e: "e = ErrControllerNotActive" "sub_Name s \<noteq> Devices"
        and "new_loop os host (Some RequireDevices) path res active ss w2 = (Ok subs, w1)"
      using Cons.prems r by (auto simp: skip_RequireDevices split: if_splits)
    from Cons.IH [OF this(3)] obtain kept where "subs = active @ kept" "subseq kept ss"
      "\<forall>s \<in> set kept. \<exists>p. path (sub_Name s) = Ok p" "\<forall>s \<in> set ss. sub_Name s = Devices \<longrightarrow> s \<in> set kept" by blast
    then show ?thesis using e(2) by (intro exI [of _ kept]) auto
  next
    case Panic
    then show ?thesis using Cons.prems r by simp
  qed
qed simp

text \<open>C12: Which subsystems a new group has when the check is the default one: only subsystems of the hierarchy,
  in its order, whose path is known; and every devices controller of the hierarchy, since a group without
  it is refused.\<close>

theorem new_group_subsystems:
  assumes "New os host path res [WithHierarchy h] w = (Ok c, w1)"
  shows "\<exists>ss. h w = Ok ss \<and> subseq (cg_subsystems c) ss \<and> (\<forall>s \<in> set (cg_subsystems c). \<exists>p. path (sub_Name s) = Ok p) \<and>
    (\<forall>s \<in> set ss. sub_Name s = Devices \<longrightarrow> s \<in> set (cg_subsystems c)) \<and> cg_path c = path \<and> cg_err c = None"
proof -
  obtain ss where ss: "h w = Ok ss"
      "bnd (new_loop os host (Some RequireDevices) path res [] ss) (\<lambda>active. ret \<lparr>cg_path = path, cg_subsystems = active, cg_err = None\<rparr>) w = (Ok c, w1)"
    using assms by (auto simp: New_def newInitConfig_def WithHierarchy_def bnd_eq_Ok)
  then obtain active where a: "new_loop os host (Some RequireDevices) path res [] ss w = (Ok active, w1)"
      "c = \<lparr>cg_path = path, cg_subsystems = active, cg_err = None\<rparr>"
    by (auto simp: bnd_eq_Ok)
  from new_loop_keeps [OF a(1)] show ?thesis using ss(1) a(2) by auto
qed

text \<open>A host that offers nothing, for the concrete instances.\<close>

definition mem_bus :: "memfs bus" where
  "mem_bus = \<lparr>bus_connect = (\<lambda>m. (None, m)), bus_start = (\<lambda>_ _ _ m. (None, m)), bus_stop = (\<lambda>_ _ m. (None, m)),
     bus_wait = (\<lambda>m. m), bus_close = (\<lambda>m. m),
     bus_unsupported = (\<lambda>_. False), var_delegate = (\<lambda>_. Some True), set_delegate = (\<lambda>_ m. m)\<rparr>"

definition mem_host :: "memfs host" where
  "mem_host = \<lparr>h_userns = False, h_ram_in_bytes = (\<lambda>_. Inl ErrEOF), h_custom_size = (\<lambda>_. []), h_eventfd = (\<lambda>m. (Inr 3, m)),
     h_open_fd = (\<lambda>_ m. (Inr 4, m)), h_close = (\<lambda>_ m. m), h_bus = mem_bus\<rparr>"

definition empty_fs :: memfs where
  "empty_fs = \<lparr>mem_files = [], mem_dirs = [''/''], mem_faults = []\<rparr>"

theorem new_group_subsystems_witness:
  "\<exists>c w1. New mem_os mem_host (\<lambda>n. if n = Freezer then Err ErrControllerNotActive else Ok ''/a'') (Some no_resources)
      [WithHierarchy (\<lambda>_. Ok [FreezerController ''/f'', DevicesController ''/d''])] empty_fs = (Ok c, w1)
    \<and> DevicesController ''/d'' \<in> set (cg_subsystems c)"
proof -
  let ?path = "\<lambda>n. if n = Freezer then Err ErrControllerNotActive else Ok ''/a''"
  obtain c w1 where "New mem_os mem_host ?path (Some no_resources)
      [WithHierarchy (\<lambda>_. Ok [FreezerController ''/f'', DevicesController ''/d''])] empty_fs = (Ok c, w1)"
    by (simp add: New_def newInitConfig_def WithHierarchy_def bnd_def initializeSubsystem_def skip_RequireDevices name_defs
        devices_Create_def create_group_def seqn_def devices_files_def no_resources_def empty_fs_def mem_mkdir_all_def fault_def
        filter_empty_conv)
  from new_group_subsystems [OF this] this show ?thesis by auto
qed

section \<open>Statistics in any order\<close>

fun slot_of :: "Subsystem \<Rightarrow> (Metrics1 \<Rightarrow> Metrics1) set" where
  "slot_of (PidsController root) = range mt1_Pids_update"
| "slot_of (CpuController root) = range throttling_update"
| "slot_of (CpuacctController root) = range usage_update"
| "slot_of (MemoryController m) = range memory_update"
| "slot_of (BlkioController b) = range mt1_Blkio_update"
| "slot_of (RdmaController root) = range mt1_Rdma_update"
| "slot_of (HugetlbController h) = range mt1_Hugetlb_update"
| "slot_of _ = {}"

lemma stater_owns: "as_stater os s = Some st \<Longrightarrow> owns (slot_of s) (st sp w)"
  using pids_Stat_owns cpu_Stat_owns cpuacct_Stat_owns memory_Stat_owns blkio_Stat_owns rdma_Stat_owns hugetlb_Stat_owns
  by (cases s) auto

lemma slot_keeps_cpu: "F \<in> slot_of s \<Longrightarrow> mt1_CPU m \<noteq> None \<Longrightarrow> mt1_CPU (F m) \<noteq> None"
  using pids.keeps throttling.keeps usage.keeps memory.keeps blkio.keeps rdma.keeps hugetlb.keeps
  by (cases s) auto

text \<open>Effects on the parts of different subsystems commute; only the two CPU parts share a message.\<close>

lemma cpu_parts_commute:
  "(\<lambda>x. c1_Throttling_update f (c1_Usage_update g x)) = (\<lambda>x. c1_Usage_update g (c1_Throttling_update f x))"
  by (rule ext) simp

lemma update_commutes:
  "throttling_update f (usage_update g m) = usage_update g (throttling_update f m)"
  "throttling_update f (memory_update h m) = memory_update h (throttling_update f m)"
  "usage_update g (memory_update h m) = memory_update h (usage_update g m)"
  "throttling_update f (mt1_Pids_update p m) = mt1_Pids_update p (throttling_update f m)"
  "throttling_update f (mt1_Hugetlb_update q m) = mt1_Hugetlb_update q (throttling_update f m)"
  "throttling_update f (mt1_Rdma_update r m) = mt1_Rdma_update r (throttling_update f m)"
  "throttling_update f (mt1_Blkio_update b m) = mt1_Blkio_update b (throttling_update f m)"
  "usage_update g (mt1_Pids_update p m) = mt1_Pids_update p (usage_update g m)"
  "usage_update g (mt1_Hugetlb_update q m) = mt1_Hugetlb_update q (usage_update g m)"
  "usage_update g (mt1_Rdma_update r m) = mt1_Rdma_update r (usage_update g m)"
  "usage_update g (mt1_Blkio_update b m) = mt1_Blkio_update b (usage_update g m)"
  "memory_update h (mt1_Pids_update p m) = mt1_Pids_update p (memory_update h m)"
  "memory_update h (mt1_Hugetlb_update q m) = mt1_Hugetlb_update q (memory_update h m)"
  "memory_update h (mt1_Rdma_update r m) = mt1_Rdma_update r (memory_update h m)"
  "memory_update h (mt1_Blkio_update b m) = mt1_Blkio_update b (memory_update h m)"
  "mt1_Pids_update p (mt1_Hugetlb_update q m) = mt1_Hugetlb_update q (mt1_Pids_update p m)"
  "mt1_Pids_update p (mt1_Rdma_update r m) = mt1_Rdma_update r (mt1_Pids_update p m)"
  "mt1_Pids_update p (mt1_Blkio_update b m) = mt1_Blkio_update b (mt1_Pids_update p m)"
  "mt1_Hugetlb_update q (mt1_Rdma_update r m) = mt1_Rdma_update r (mt1_Hugetlb_update q m)"
  "mt1_Hugetlb_update q (mt1_Blkio_update b m) = mt1_Blkio_update b (mt1_Hugetlb_update q m)"
  "mt1_Rdma_update r (mt1_Blkio_update b m) = mt1_Blkio_update b (mt1_Rdma_update r m)"
  by (simp_all add: throttling_update_def usage_update_def memory_update_def option.map_comp comp_def cpu_parts_commute split: prod.split)

lemma slots_commute:
  assumes "sub_Name s \<noteq> sub_Name t" and "F \<in> slot_of s" and "G \<in> slot_of t"
  shows "F \<circ> G = G \<circ> F"
proof -
  have "F \<in> slot_of s \<Longrightarrow> s \<in> range PidsController \<union> range CpuController \<union> range CpuacctController \<union> range MemoryController \<union>
      range BlkioController \<union> range RdmaController \<union> range HugetlbController" for F s
    by (cases s) auto
  from this [OF assms(2)] this [OF assms(3)] assms show ?thesis
    by (elim UnE imageE; auto simp: fun_eq_iff update_commutes)
qed

definition job_errors :: "ErrorHandler list \<Rightarrow> unit outcome \<Rightarrow> gerror list" where
  "job_errors hs r = (case r of Err e \<Rightarrow> somes (map (\<lambda>h. h e) hs) | _ \<Rightarrow> [])"

lemma job_errors_simps [simp]: "job_errors hs (Ok u) = []" "job_errors hs Panic = []"
  by (simp_all add: job_errors_def)

lemma fold_Panic: "fold (stat_job os hs w) jobs (Panic, m) = (Panic, m)"
  by (induction jobs) (auto simp: stat_job_def)

text \<open>The goroutines run one after the other: with the outcome and the effect of each, the errors are those of
  the failing ones and the message is the composition of the effects.\<close>

lemma fold_stat_jobs:
  assumes "\<And>s sp. (s, sp) \<in> set jobs \<Longrightarrow> \<exists>st. as_stater os s = Some st \<and>
      (\<forall>m. mt1_CPU m \<noteq> None \<longrightarrow> st sp w m = (R (s, sp), E (s, sp) m)) \<and> (\<forall>m. mt1_CPU m \<noteq> None \<longrightarrow> mt1_CPU (E (s, sp) m) \<noteq> None)"
    and "mt1_CPU m \<noteq> None"
  shows "if Panic \<in> R ` set jobs then fst (fold (stat_job os hs w) jobs (Ok errs, m)) = Panic
    else fold (stat_job os hs w) jobs (Ok errs, m) = (Ok (errs @ concat (map (job_errors hs \<circ> R) jobs)), fold E jobs m)"
  using assms
proof (induction jobs arbitrary: errs m)
  case (Cons job jobs)
  obtain s sp where job: "job = (s, sp)" by (cases job)
  obtain st where st: "as_stater os s = Some st" "st sp w m = (R job, E job m)" "mt1_CPU (E job m) \<noteq> None"
    using Cons.prems(1) [of s sp] Cons.prems(2) by (auto simp: job)
  have IH: "if Panic \<in> R ` set jobs then fst (fold (stat_job os hs w) jobs (Ok errs', E job m)) = Panic
    else fold (stat_job os hs w) jobs (Ok errs', E job m) = (Ok (errs' @ concat (map (job_errors hs \<circ> R) jobs)), fold E jobs (E job m))" for errs'
    by (rule Cons.IH) (use Cons.prems(1) st(3) in auto)
  show ?case
  proof (cases "R job")
    case (Ok u)
    then have "stat_job os hs w job (Ok errs, m) = (Ok errs, E job m)" using st by (simp add: stat_job_def job)
    then show ?thesis using IH [of errs] Ok by (simp add: comp_def)
  next
    case (Err e)
    then have "stat_job os hs w job (Ok errs, m) = (Ok (errs @ job_errors hs (Err e)), E job m)"
      using st by (simp add: stat_job_def job job_errors_def)
    then show ?thesis using IH [of "errs @ job_errors hs (Err e)"] Err by (simp add: comp_def)
  next
    case Panic
    then have "stat_job os hs w job (Ok errs, m) = (Panic, E job m)" using st by (simp add: stat_job_def job)
    then show ?thesis using Panic by (simp add: fold_Panic rev_image_eqI)
  qed
qed simp

lemma stat_jobs_members: "stat_jobs os c ss = Ok jobs \<Longrightarrow> (s, sp) \<in> set jobs \<Longrightarrow> s \<in> set ss \<and> as_stater os s \<noteq> None"
  by (induction ss arbitrary: jobs) (auto simp: bind_out_eq_Ok split: option.splits)

lemma stat_jobs_distinct: "stat_jobs os c ss = Ok jobs \<Longrightarrow> distinct (map sub_Name ss) \<Longrightarrow> distinct (map (sub_Name \<circ> fst) jobs)"
proof (induction ss arbitrary: jobs)
  case (Cons s ss)
  show ?case
  proof (cases "as_stater os s")
    case None
    then show ?thesis using Cons by simp
  next
    case (Some st)
    then obtain sp rest where rest: "stat_jobs os c ss = Ok rest" "jobs = (s, sp) # rest"
      using Cons.prems(1) by (auto simp: bind_out_eq_Ok)
    have "sub_Name s \<notin> (sub_Name \<circ> fst) ` set rest"
      using stat_jobs_members [OF rest(1)] Cons.prems(2) by fastforce
    then show ?thesis using Cons rest by simp
  qed
qed simp

text \<open>For fixed jobs each goroutine has an outcome and an effect on its part of the message, so every order gives
  the same outcomes and the composition of the same effects.\<close>

lemma stat_jobs_effects:
  assumes jobs: "stat_jobs os c (cg_subsystems c) = Ok jobs"
  shows "\<exists>R E. (\<forall>job \<in> set jobs. E job \<in> slot_of (fst job)) \<and> (\<forall>order. mset (order jobs) = mset jobs \<longrightarrow>
    (if Panic \<in> R ` set jobs then fst (fold (stat_job os hs w) (order jobs) (Ok [], stats0)) = Panic
     else fold (stat_job os hs w) (order jobs) (Ok [], stats0) =
       (Ok (concat (map (job_errors hs \<circ> R) (order jobs))), fold E (order jobs) stats0)))"
proof -
  have "\<forall>job \<in> set jobs. \<exists>r F. F \<in> slot_of (fst job) \<and> (\<exists>st. as_stater os (fst job) = Some st \<and>
      (\<forall>m. mt1_CPU m \<noteq> None \<longrightarrow> st (snd job) w m = (r, F m)))"
  proof
    fix job assume "job \<in> set jobs"
    then obtain st where "as_stater os (fst job) = Some st" using stat_jobs_members [OF jobs, of "fst job" "snd job"] by auto
    then show "\<exists>r F. F \<in> slot_of (fst job) \<and> (\<exists>st. as_stater os (fst job) = Some st \<and> (\<forall>m. mt1_CPU m \<noteq> None \<longrightarrow> st (snd job) w m = (r, F m)))"
      using stater_owns [of os "fst job" st "snd job" w] unfolding owns_def by blast
  qed
  then obtain R E where RE: "\<And>job. job \<in> set jobs \<Longrightarrow> E job \<in> slot_of (fst job) \<and> (\<exists>st. as_stater os (fst job) = Some st \<and>
      (\<forall>m. mt1_CPU m \<noteq> None \<longrightarrow> st (snd job) w m = (R job, E job m)))"
    by metis
  have "if Panic \<in> R ` set jobs then fst (fold (stat_job os hs w) (order jobs) (Ok [], stats0)) = Panic
    else fold (stat_job os hs w) (order jobs) (Ok [], stats0) =
      (Ok (concat (map (job_errors hs \<circ> R) (order jobs))), fold E (order jobs) stats0)"
    if "mset (order jobs) = mset jobs" for order
  proof -
    have s: "set (order jobs) = set jobs" by (rule mset_eq_setD [OF that])
    have "if Panic \<in> R ` set (order jobs) then fst (fold (stat_job os hs w) (order jobs) (Ok [], stats0)) = Panic
      else fold (stat_job os hs w) (order jobs) (Ok [], stats0) =
        (Ok ([] @ concat (map (job_errors hs \<circ> R) (order jobs))), fold E (order jobs) stats0)"
      by (rule fold_stat_jobs) (use RE slot_keeps_cpu s in \<open>fastforce simp: stats0_def\<close>)+
    then show ?thesis by (simp add: s)
  qed
  then show ?thesis using RE by blast
qed

text \<open>C9: The statistics of a group do not depend on the order in which its goroutines run: when the call
  succeeds in one order it returns the same message in every order, also when the handlers drop errors,
  as long as the group has at most one subsystem of each name.\<close>

theorem stat_order_independent:
  assumes "distinct (map sub_Name (cg_subsystems c))"
    and "\<And>jobs. mset (order1 jobs) = mset jobs" and "\<And>jobs. mset (order2 jobs) = mset jobs"
    and "cgroup_Stat os c handlers order1 w = Some (Ok m)"
  shows "cgroup_Stat os c handlers order2 w = Some (Ok m)"
proof -
  define hs where "hs = (if length handlers = 0 then handlers @ [errPassthrough] else handlers)"
  have err: "cg_err c = None" using assms(4) by (cases "cg_err c") (auto simp: cgroup_Stat_def)
  obtain jobs where jobs: "stat_jobs os c (cg_subsystems c) = Ok jobs"
    using assms(4) err by (cases "stat_jobs os c (cg_subsystems c)") (auto simp: cgroup_Stat_def Let_def)
  obtain R E where slots: "\<forall>job \<in> set jobs. E job \<in> slot_of (fst job)"
    and run: "\<And>order. mset (order jobs) = mset jobs \<Longrightarrow>
      if Panic \<in> R ` set jobs then fst (fold (stat_job os hs w) (order jobs) (Ok [], stats0)) = Panic
      else fold (stat_job os hs w) (order jobs) (Ok [], stats0) =
        (Ok (concat (map (job_errors hs \<circ> R) (order jobs))), fold E (order jobs) stats0)"
    using stat_jobs_effects [OF jobs, of hs w] by blast
  have comm: "E x \<circ> E y = E y \<circ> E x" if "x \<in> set jobs" "y \<in> set jobs" for x y
  proof (cases "x = y")
    case False
    have "sub_Name (fst x) \<noteq> sub_Name (fst y)"
      using stat_jobs_distinct [OF jobs assms(1)] that False by (auto simp: distinct_map inj_on_def)
    then show ?thesis using slots_commute slots that by blast
  qed simp
  have same: "fold E (order1 jobs) = fold E (order2 jobs)"
    by (rule fold_multiset_equiv) (use comm assms(2,3) mset_eq_setD [OF assms(2)] in auto)
  have errs: "concat (map (job_errors hs \<circ> R) (order1 jobs)) = [] \<longleftrightarrow> concat (map (job_errors hs \<circ> R) (order2 jobs)) = []"
    using mset_eq_setD [OF assms(2)] mset_eq_setD [OF assms(3)] by simp
  have np: "Panic \<notin> R ` set jobs"
  proof
    assume "Panic \<in> R ` set jobs"
    then show False using run [of order1] assms(2,4) err jobs
      unfolding cgroup_Stat_def Let_def hs_def [symmetric] by (auto split: prod.splits outcome.splits)
  qed
  have stat: "cgroup_Stat os c handlers order w = (let es = concat (map (job_errors hs \<circ> R) (order jobs)) in
      if length (cg_subsystems c) < length es then None else (case es of e # _ \<Rightarrow> Some (Err e) | [] \<Rightarrow> Some (Ok (fold E (order jobs) stats0))))"
    if "mset (order jobs) = mset jobs" for order
    using run [of order, OF that] np err jobs unfolding cgroup_Stat_def Let_def hs_def [symmetric] by simp
  have one: "concat (map (job_errors hs \<circ> R) (order1 jobs)) = []" "fold E (order1 jobs) stats0 = m"
    using assms(4) unfolding stat [of order1, OF assms(2)] Let_def by (auto split: if_splits list.splits)
  have "concat (map (job_errors hs \<circ> R) (order2 jobs)) = []" using one(1) errs by blast
  then show ?thesis
    unfolding stat [of order2, OF assms(3)] Let_def using one(2) by (simp only: same list.size list.case not_less_zero if_False)
qed

text \<open>With more than one error handler the call can hang: the channel of errors has room for one error per
  subsystem, so when the only subsystem fails and two handlers pass its error on, the goroutine blocks on
  the second one and the call waits for it forever.\<close>

theorem stat_blocks:
  assumes "cg_err c = None" and "cg_subsystems c = [s]" and "as_stater os s = Some st" and "cg_path c (sub_Name s) = Ok sp"
    and "st sp w stats0 = (Err e, m)" and "h1 e = Some e1" and "h2 e = Some e2"
  shows "cgroup_Stat os c [h1, h2] (\<lambda>jobs. jobs) w = None"
  using assms by (simp add: cgroup_Stat_def stat_job_def)

theorem stat_blocks_witness:
  "cgroup_Stat mem_os \<lparr>cg_path = StaticPath ''/a'', cg_subsystems = [PidsController ''/p''], cg_err = None\<rparr>
     [errPassthrough, errPassthrough] (\<lambda>jobs. jobs) empty_fs = None"
proof -
  have fail: "pids_Stat mem_os ''/p'' ''/a'' empty_fs stats0 = (Err (PathError ''open'' ''/p/a/pids.current'' ENOENT), stats0)"
    by (simp add: pids_Stat_def pids_Path_def bnd_def readUint_def mem_open_def fault_def empty_fs_def path_eval)
  show ?thesis
    by (rule stat_blocks [where s = "PidsController ''/p''" and st = "pids_Stat mem_os ''/p''" and sp = "''/a''", OF _ _ _ _ fail])
      (simp_all add: StaticPath_def errPassthrough_def)
qed

theorem stat_order_independent_witness:
  "\<exists>m. cgroup_Stat mem_os \<lparr>cg_path = StaticPath ''/a'', cg_subsystems = [PidsController ''/p'', CpuController ''/c''], cg_err = None\<rparr>
     [IgnoreNotExist] rev empty_fs = Some (Ok m)"
proof -
  let ?c = "\<lparr>cg_path = StaticPath ''/a'', cg_subsystems = [PidsController ''/p'', CpuController ''/c''], cg_err = None\<rparr>"
  have "pids_Stat mem_os ''/p'' ''/a'' empty_fs s = (Err (PathError ''open'' ''/p/a/pids.current'' ENOENT), s)" for s
    by (simp add: pids_Stat_def pids_Path_def bnd_def readUint_def mem_open_def fault_def empty_fs_def path_eval)
  moreover have "cpu_Stat mem_os ''/c'' ''/a'' empty_fs s = (Err (PathError ''open'' ''/c/a/cpu.stat'' ENOENT), s)" for s
    by (simp add: cpu_Stat_def cpu_Path_def mem_open_def fault_def empty_fs_def path_eval)
  ultimately have "cgroup_Stat mem_os ?c [IgnoreNotExist] (\<lambda>jobs. jobs) empty_fs = Some (Ok stats0)"
    by (simp add: cgroup_Stat_def StaticPath_def stat_job_def IgnoreNotExist_def)
  from stat_order_independent [OF _ _ _ this, of rev] show ?thesis by (auto simp: name_defs)
qed

section \<open>Adding processes\<close>

text \<open>The state before an attempt, if all earlier ones were refused with EINVAL.\<close>

fun before_write :: "'w os \<Rightarrow> string \<Rightarrow> string \<Rightarrow> nat \<Rightarrow> 'w \<Rightarrow> 'w" where
  "before_write os path content 0 w = w"
| "before_write os path content (Suc k) w = os_sleep os 30 (snd (os_fd_write os path content (before_write os path content k w)))"

definition write_try :: "'w os \<Rightarrow> string \<Rightarrow> string \<Rightarrow> 'w \<Rightarrow> nat \<Rightarrow> gerror option \<times> 'w" where
  "write_try os path content w k = os_fd_write os path content (before_write os path content k w)"

definition is_final :: "gerror option \<Rightarrow> bool" where
  "is_final r = (case r of None \<Rightarrow> True | Some e \<Rightarrow> \<not> errors_is_errno e EINVAL)"

definition write_result :: "gerror option \<times> 'w \<Rightarrow> unit outcome \<times> 'w" where
  "write_result r = (case r of (None, w1) \<Rightarrow> (Ok (), w1) | (Some e, w1) \<Rightarrow> (Err e, w1))"

lemma write_attempts_from:
  assumes "i + k = 5"
  shows "write_attempts os path content k err (before_write os path content i w) =
    (case find (\<lambda>j. is_final (fst (write_try os path content w j))) [i..<5] of
       Some j \<Rightarrow> write_result (write_try os path content w j)
     | None \<Rightarrow> (case (if k = 0 then err else fst (write_try os path content w 4)) of None \<Rightarrow> Ok () | Some e \<Rightarrow> Err e,
         before_write os path content 5 w))"
  using assms
proof (induction k arbitrary: i err)
  case 0
  then show ?case by (simp split: option.split)
next
  case (Suc k)
  have i: "[i..<5] = i # [Suc i..<5]" using Suc.prems by (simp add: upt_conv_Cons)
  obtain r w1 where r: "write_try os path content w i = (r, w1)" by fastforce
  then have wr: "os_fd_write os path content (before_write os path content i w) = (r, w1)" by (simp add: write_try_def)
  show ?case
  proof (cases "is_final r")
    case True
    then show ?thesis by (auto simp: i wr r write_result_def is_final_def split: option.splits)
  next
    case False
    then obtain e where e: "r = Some e" "errors_is_errno e EINVAL" by (auto simp: is_final_def split: option.splits)
    have nxt: "before_write os path content (Suc i) w = os_sleep os 30 w1" by (simp add: wr)
    have last: "k = 0 \<Longrightarrow> fst (write_try os path content w 4) = Some e" using Suc.prems r e by (simp add: eval_nat_numeral)
    have IH: "write_attempts os path content k (Some e) (before_write os path content (Suc i) w) =
      (case find (\<lambda>j. is_final (fst (write_try os path content w j))) [Suc i..<5] of
         Some j \<Rightarrow> write_result (write_try os path content w j)
       | None \<Rightarrow> (case (if k = 0 then Some e else fst (write_try os path content w 4)) of None \<Rightarrow> Ok () | Some e \<Rightarrow> Err e,
           before_write os path content 5 w))"
      using Suc.IH [of "Suc i" "Some e"] Suc.prems by simp
    have step: "write_attempts os path content (Suc k) err (before_write os path content i w) =
        write_attempts os path content k (Some e) (before_write os path content (Suc i) w)"
      using e by (simp add: wr nxt)
    show ?thesis unfolding step IH i using False r last by (simp split: option.split)
  qed
qed

text \<open>A process id is written at most five times, with a pause of 30 ms after every refusal with EINVAL: the
  first attempt that succeeds or fails otherwise decides, and after five refusals the error is returned.\<close>

theorem add_retries_einval:
  "write_attempts os path content 5 None w =
    (case find (\<lambda>j. is_final (fst (write_try os path content w j))) [0..<5] of
       Some j \<Rightarrow> write_result (write_try os path content w j)
     | None \<Rightarrow> (Err (the (fst (write_try os path content w 4))), before_write os path content 5 w))"
proof -
  have "fst (write_try os path content w 4) \<noteq> None" if "find (\<lambda>j. is_final (fst (write_try os path content w j))) [0..<5] = None"
  proof -
    have "4 \<in> set [0..<5 :: nat]" by simp
    then have "\<not> is_final (fst (write_try os path content w 4))" using that unfolding find_None_iff by blast
    then show ?thesis by (cases "fst (write_try os path content w 4)") (simp_all add: is_final_def)
  qed
  then show ?thesis
    using write_attempts_from [of 0 5 os path content None w] by (auto split: option.splits)
qed

section \<open>Deleting\<close>

text \<open>What one subsystem does to the list of errors and to the system.\<close>

definition delete_one :: "'w os \<Rightarrow> 'w host \<Rightarrow> cgroup \<Rightarrow> Subsystem \<Rightarrow> ('w, string list) go" where
  "delete_one os host c s w = (case processes os c (sub_Name s) True cgroupProcs1 w of
     Panic \<Rightarrow> (Panic, w)
   | Err e \<Rightarrow> (Err e, w)
   | Ok (Some e, _) \<Rightarrow> if errors_is_not_exist e then (Ok [], w) else (Err e, w)
   | Ok (None, procs) \<Rightarrow> if 0 < length procs then (Ok [sub_Name s @ '' (contains running processes)''], w)
       else delete_subsystem os host c s w)"

lemma delete_loop_Cons:
  "delete_loop os host c (s # ss) errs w = bnd (delete_one os host c s) (\<lambda>es. delete_loop os host c ss (errs @ es)) w"
proof (cases "processes os c (sub_Name s) True cgroupProcs1 w")
  case (Ok r)
  obtain e ps where r: "r = (e, ps)" by fastforce
  show ?thesis by (cases e) (simp_all add: Ok r bnd_def delete_one_def)
qed (simp_all add: bnd_def delete_one_def)

lemma bnd_cong_fun: "(\<And>x w1. k x w1 = k' x w1) \<Longrightarrow> bnd m k w = bnd m k' w"
  by (simp add: bnd_def split: prod.split outcome.split)

lemma delete_loop_append:
  "delete_loop os host c (xs @ ys) errs w = bnd (delete_loop os host c xs errs) (delete_loop os host c ys) w"
proof (induction xs arbitrary: errs w)
  case Nil
  then show ?case by (simp add: bnd_def)
next
  case (Cons s xs)
  show ?case
    unfolding append_Cons delete_loop_Cons [of os host c s "xs @ ys"]
    by (cases "delete_one os host c s w" rule: prod.exhaust, rename_tac r w1, case_tac r)
      (simp_all add: Cons.IH bnd_def delete_loop_Cons del: delete_loop.simps)
qed

lemma delete_loop_errs:
  assumes "delete_loop os host c ss errs w = (Ok errs1, w1)" shows "\<exists>rest. errs1 = errs @ rest"
  using assms
proof (induction ss arbitrary: errs w)
  case (Cons s ss)
  then obtain es w2 where "delete_loop os host c ss (errs @ es) w2 = (Ok errs1, w1)"
    unfolding delete_loop_Cons bnd_eq_Ok by blast
  then show ?case using Cons.IH by fastforce
qed simp

text \<open>C33: A group that still has processes in one of its hierarchies is not deleted: if, when its turn comes, the
  list of processes of a subsystem is not empty, Delete does not succeed and does not mark the group as
  deleted, and this subsystem contributes no change of the system.\<close>

theorem delete_refuses_running:
  assumes "cg_subsystems c = as @ s # bs" and "cg_err c = None"
    and "delete_loop os host c as [] w = (Ok errs, ws)"
    and "processes os c (sub_Name s) True cgroupProcs1 ws = Ok (None, p # ps)"
  shows "delete_loop os host c [s] errs ws = (Ok (errs @ [sub_Name s @ '' (contains running processes)'']), ws) \<and>
    (\<exists>r w1. Delete1 os host c w = ((r, c), w1) \<and> r \<noteq> Ok ())"
proof -
  have here: "delete_loop os host c [s] errs ws = (Ok (errs @ [sub_Name s @ '' (contains running processes)'']), ws)"
    using assms(4) by simp
  have all: "delete_loop os host c (cg_subsystems c) [] w = delete_loop os host c bs (errs @ [sub_Name s @ '' (contains running processes)'']) ws"
    unfolding assms(1) delete_loop_append using assms(3,4) by simp
  obtain r w1 where r: "delete_loop os host c bs (errs @ [sub_Name s @ '' (contains running processes)'']) ws = (r, w1)" by fastforce
  have D: "Delete1 os host c w = (case (r, w1) of
      (Panic, w1) \<Rightarrow> ((Panic, c), w1)
    | (Err e, w1) \<Rightarrow> ((Err e, c), w1)
    | (Ok errs, w1) \<Rightarrow> if 0 < length errs then ((Err (ErrMsg (''cgroups: unable to remove paths '' @ join errs '', '')), c), w1)
        else ((Ok (), c\<lparr>cg_err := Some ErrCgroupDeleted\<rparr>), w1))"
    unfolding Delete1_def assms(2) all r by (simp only: option.case)
  have "errs1 \<noteq> []" if "r = Ok errs1" for errs1
    using delete_loop_errs r that by fastforce
  then have "\<exists>r w1. Delete1 os host c w = ((r, c), w1) \<and> r \<noteq> Ok ()"
    unfolding D by (cases r) simp_all
  then show ?thesis using here by blast
qed

definition busy_fs :: memfs where
  "busy_fs = \<lparr>mem_files = [(''/p/a/cgroup.procs'', ''7'')], mem_dirs = [''/p/a''], mem_faults = []\<rparr>"

lemma busy_processes:
  "processes mem_os \<lparr>cg_path = StaticPath ''/a'', cg_subsystems = [PidsController ''/p''], cg_err = None\<rparr> ''pids'' True cgroupProcs1 busy_fs =
    Ok (None, [\<lparr>pr_Subsystem = ''pids'', pr_Pid = 7, pr_Path = ''/p/a/''\<rparr>])"
proof -
  have tree: "mem_tree ''/p/a'' busy_fs = NDir None [(''cgroup.procs'', NFile)]"
    by (simp add: mem_tree_def mem_children_def fault_def path_dir_def path_split_def path_eval busy_fs_def)
  have atoi: "Atoi ''7'' = (7, None)" by (simp add: parse_eval)
  have pids: "readPids mem_os ''/p/a/'' ''pids'' ''cgroup.procs'' busy_fs = Ok [\<lparr>pr_Subsystem = ''pids'', pr_Pid = 7, pr_Path = ''/p/a/''\<rparr>]"
    by (simp add: readPids_def busy_fs_def mem_open_def fault_def path_eval scan_lines_def raw_lines_def drop_cr_def max_token_def atoi)
  have visit: "processes_visit mem_os ''/p/a'' ''pids'' True ''cgroup.procs'' busy_fs p d None acc =
      (case path_split p of (dir, name) \<Rightarrow> if name \<noteq> ''cgroup.procs'' then (WOk, acc)
       else (case readPids mem_os dir ''pids'' ''cgroup.procs'' busy_fs of
           Ok procs \<Rightarrow> (WOk, acc @ procs) | Err e \<Rightarrow> (WErr e, acc) | Panic \<Rightarrow> (WOk, acc)))" for p d acc
    by (simp add: processes_visit_def)
  show ?thesis
    by (simp add: processes_def StaticPath_def getSubsystem_def name_defs pids_Path_def cgroupProcs1_def Walk_def path_eval tree visit
        path_split_def pids)
qed

theorem delete_refuses_running_witness:
  "\<exists>r w1. Delete1 mem_os mem_host \<lparr>cg_path = StaticPath ''/a'', cg_subsystems = [PidsController ''/p''], cg_err = None\<rparr> busy_fs =
     ((r, \<lparr>cg_path = StaticPath ''/a'', cg_subsystems = [PidsController ''/p''], cg_err = None\<rparr>), w1) \<and> r \<noteq> Ok ()"
  using delete_refuses_running [where as = "[]" and s = "PidsController ''/p''" and bs = "[]" and errs = "[]" and ws = busy_fs
      and w = busy_fs and os = mem_os and host = mem_host
      and c = "\<lparr>cg_path = StaticPath ''/a'', cg_subsystems = [PidsController ''/p''], cg_err = None\<rparr>"] busy_processes
  by (auto simp: name_defs)

text \<open>A group made with the hierarchy of systemd cannot be deleted through this package: its first subsystem
  is the systemd controller, which has no path, and asking for its processes panics before anything is
  done; the check for the deleter interface comes after that and is never reached.\<close>

theorem delete_systemd_panics:
  assumes "cg_subsystems c = SystemdController root # ss" and "cg_err c = None" and "cg_path c SystemdDbus = Ok sp"
  shows "Delete1 os host c w = ((Panic, c), w)"
proof -
  have "processes os c SystemdDbus True cgroupProcs1 w = Panic"
    using assms(1,3) by (simp add: processes_def getSubsystem_def)
  then show ?thesis using assms(1,2) by (simp add: Delete1_def delete_loop_Cons delete_one_def bnd_def del: delete_loop.simps)
qed

text \<open>Such groups exist: creating one succeeds.\<close>

theorem delete_systemd_panics_witness:
  "\<exists>c w1. New mem_os mem_host (Slice [] ''g'') (Some no_resources) [WithHierarchy (\<lambda>_. Ok [NewSystemd1 ''/c'', NewNamed ''/c'' ''systemd''])] empty_fs = (Ok c, w1)
    \<and> Delete1 mem_os mem_host c w1 = ((Panic, c), w1)"
proof -
  let ?c = "\<lparr>cg_path = Slice [] ''g'', cg_subsystems = [NewSystemd1 ''/c'', NewNamed ''/c'' ''systemd''], cg_err = None\<rparr>"
  obtain w1 where new: "New mem_os mem_host (Slice [] ''g'') (Some no_resources) [WithHierarchy (\<lambda>_. Ok [NewSystemd1 ''/c'', NewNamed ''/c'' ''systemd''])] empty_fs =
      (Ok \<lparr>cg_path = Slice [] ''g'', cg_subsystems = [NewSystemd1 ''/c'', NewNamed ''/c'' ''systemd''], cg_err = None\<rparr>, w1)"
    by (simp add: New_def newInitConfig_def WithHierarchy_def bnd_def initializeSubsystem_def NewSystemd1_def NewNamed_def Slice_def
        systemd_Create_def with_conn_def awaited_def seqn_def mem_host_def mem_bus_def checkDelegate_def splitName_def empty_fs_def mem_mkdir_all_def fault_def
        filter_empty_conv path_split_def split: prod.split)
  have "cg_path \<lparr>cg_path = Slice [] ''g'', cg_subsystems = [NewSystemd1 ''/c'', NewNamed ''/c'' ''systemd''], cg_err = None\<rparr> SystemdDbus = Ok (path_join [defaultSlice1, ''g''])"
    by (simp add: Slice_def)
  then have "Delete1 mem_os mem_host ?c w1 = ((Panic, ?c), w1)"
    by (intro delete_systemd_panics [where root = "''/c''" and ss = "[NewNamed ''/c'' ''systemd'']"]) (simp_all add: NewSystemd1_def)
  then show ?thesis using new by blast
qed

section \<open>The life of a group\<close>

text \<open>A step of a group and the system: a method called on the group, or anything that the rest of the
  system does meanwhile.\<close>

inductive cstep :: "'w os \<Rightarrow> 'w host \<Rightarrow> cgroup \<times> 'w \<Rightarrow> cgroup \<times> 'w \<Rightarrow> bool" for os host where
  step_new: "cgroup_New os host c name res w = (r, w1) \<Longrightarrow> cstep os host (c, w) (c, w1)"
| step_add: "cgroup_add os c p t names w = (r, w1) \<Longrightarrow> cstep os host (c, w) (c, w1)"
| step_update: "cgroup_Update os c ures w = (u, w1) \<Longrightarrow> cstep os host (c, w) (c, w1)"
| step_move: "MoveTo1 os c d w = (u, w1) \<Longrightarrow> cstep os host (c, w) (c, w1)"
| step_event: "RegisterMemoryEvent os host c ev w = (n, w1) \<Longrightarrow> cstep os host (c, w) (c, w1)"
| step_freeze: "Freeze1 os c w = Some (u, w1) \<Longrightarrow> cstep os host (c, w) (c, w1)"
| step_thaw: "Thaw1 os c w = Some (u, w1) \<Longrightarrow> cstep os host (c, w) (c, w1)"
| step_state: "cgroup_State os c w = (st, c1) \<Longrightarrow> cstep os host (c, w) (c1, w)"
| step_delete: "Delete1 os host c w = ((u, c1), w1) \<Longrightarrow> cstep os host (c, w) (c1, w1)"
| step_system: "cstep os host (c, w) (c, w1)"

inductive_cases cstepE [elim]: "cstep os host (c, w) (c1, w1)"

lemma checkExists_cases: "checkExists os c w = c \<or> checkExists os c w = c\<lparr>cg_err := Some ErrCgroupDeleted\<rparr>"
  by (simp add: checkExists_def)

lemma cgroup_State_snd: "snd (cgroup_State os c w) = checkExists os c w"
  by (simp add: cgroup_State_def Let_def)

lemma Delete1_cases:
  assumes "Delete1 os host c w = ((r, c1), w1)"
  shows "c1 = c \<or> cg_err c = None \<and> r = Ok () \<and> c1 = c\<lparr>cg_err := Some ErrCgroupDeleted\<rparr>"
proof (cases "cg_err c")
  case None
  obtain r' w' where "delete_loop os host c (cg_subsystems c) [] w = (r', w')" by fastforce
  then show ?thesis using assms None by (cases r') (auto simp: Delete1_def split: if_splits)
qed (use assms in \<open>auto simp: Delete1_def\<close>)

lemma cstep_group:
  assumes "cstep os host (c, w) (c1, w1)"
  shows "c1 = c \<or> c1 = c\<lparr>cg_err := Some ErrCgroupDeleted\<rparr>"
  using assms
proof cases
  case (step_state st)
  then show ?thesis using checkExists_cases [of os c w] cgroup_State_snd [of os c w] by auto
next
  case (step_delete u)
  then show ?thesis using Delete1_cases [of os host c w u c1 w1] by auto
qed auto



text \<open>A deleted group is inert: every method that uses the system returns the error that the group keeps
  and leaves the system alone, and the state of the group is reported as deleted.\<close>

theorem deleted_group_inert:
  assumes "cg_err c = Some ErrCgroupDeleted"
  shows "cgroup_New os host c name res w = (Err ErrCgroupDeleted, w)
    \<and> cgroup_Update os c ures w = (Err ErrCgroupDeleted, w)
    \<and> MoveTo1 os c d w = (Err ErrCgroupDeleted, w)
    \<and> RegisterMemoryEvent os host c ev w = (Err ErrCgroupDeleted, w)
    \<and> Freeze1 os c w = Some (Err ErrCgroupDeleted, w) \<and> Thaw1 os c w = Some (Err ErrCgroupDeleted, w)
    \<and> Processes os c name1 rec w = Ok (Some ErrCgroupDeleted, []) \<and> Tasks os c name1 rec w = Ok (Some ErrCgroupDeleted, [])
    \<and> cgroup_Stat os c hs order w = Some (Err ErrCgroupDeleted)
    \<and> Delete1 os host c w = ((Err ErrCgroupDeleted, c), w)
    \<and> cgroup_State os c w = (Ok Deleted1, c)
    \<and> fst (cgroup_add os c p t names w) = Err (if sint (pr_Pid p) \<le> 0 then ErrInvalidPid else ErrCgroupDeleted)
    \<and> snd (cgroup_add os c p t names w) = w"
proof -
  have "checkExists os c w = c" using assms by (simp add: checkExists_def)
  then show ?thesis
    using assms by (simp add: cgroup_New_def cgroup_Update_def MoveTo1_def RegisterMemoryEvent_def Freeze1_def Thaw1_def
        with_freezer_def Processes_def Tasks_def cgroup_Stat_def Delete1_def cgroup_State_def Let_def cgroup_add_def
        unless_deleted_def fail_def)
qed

theorem deleted_group_inert_witness:
  "cgroup_Stat mem_os \<lparr>cg_path = StaticPath ''/a'', cg_subsystems = [PidsController ''/p''], cg_err = Some ErrCgroupDeleted\<rparr> [] rev empty_fs =
     Some (Err ErrCgroupDeleted)"
  by (rule deleted_group_inert [THEN conjunct2, THEN conjunct2, THEN conjunct2, THEN conjunct2, THEN conjunct2, THEN conjunct2,
        THEN conjunct2, THEN conjunct2, THEN conjunct1]) simp

section \<open>Loading\<close>

text \<open>The subsystems whose directory exists.\<close>

definition dir_exists :: "'w os \<Rightarrow> Path \<Rightarrow> 'w \<Rightarrow> Subsystem \<times> (string \<Rightarrow> string) \<Rightarrow> bool" where
  "dir_exists os path w x = (case path (sub_Name (fst x)) of Ok p \<Rightarrow> Lstat os (snd x p) w = None | _ \<Rightarrow> False)"

lemma load_loop_Ok:
  assumes "load_loop os check path w active ss = Ok active1"
  shows "active1 = active @ map fst (filter (dir_exists os path w) ss)"
  using assms
  by (induction os check path w active ss rule: load_loop.induct)
    (auto simp: dir_exists_def split: outcome.splits option.splits if_splits)

text \<open>A group that was dir_exists has exactly the subsystems of the hierarchy whose directory of that group
  exists, in the order of the hierarchy, and has at least one of them.\<close>

theorem load_finds_existing:
  assumes "Load1 os host path opts w = Ok c"
    and "apply_opts1 opts (newInitConfig os host) = Ok config" and "ic1_hierarchy config w = Ok subsystems"
  shows "cg_subsystems c = map fst (filter (dir_exists os path w) (pathers subsystems)) \<and> cg_subsystems c \<noteq> []
    \<and> cg_path c = path \<and> cg_err c = None"
proof -
  obtain active where active: "load_loop os (ic1_check config) path w [] (pathers subsystems) = Ok active"
      "active \<noteq> []" "c = \<lparr>cg_path = path, cg_subsystems = active, cg_err = None\<rparr>"
    using assms by (auto simp: Load1_def bind_out_eq_Ok split: if_splits)
  then show ?thesis using load_loop_Ok [OF active(1)] by simp
qed

theorem load_finds_existing_witness:
  "\<exists>c. Load1 mem_os mem_host (StaticPath ''/a'') [WithHierarchy (\<lambda>_. Ok [CpuController ''/c'', PidsController ''/p''])] busy_fs = Ok c
     \<and> cg_subsystems c = [PidsController ''/p'']"
proof -
  let ?h = "\<lambda>_. Ok [CpuController ''/c'', PidsController ''/p'']"
  have opts: "apply_opts1 [WithHierarchy ?h] (newInitConfig mem_os mem_host) = Ok ((newInitConfig mem_os mem_host)\<lparr>ic1_hierarchy := ?h\<rparr>)"
    by (simp add: WithHierarchy_def)
  have there: "Lstat mem_os ''/p/a'' busy_fs = None" and gone: "Lstat mem_os ''/c/a'' busy_fs = Some (PathError ''lstat'' ''/c/a'' ENOENT)"
    by (simp_all add: Lstat_def mem_tree_def busy_fs_def)
  have ps: "pathers [CpuController ''/c'', PidsController ''/p''] = [(CpuController ''/c'', cpu_Path ''/c''), (PidsController ''/p'', pids_Path ''/p'')]"
    by (simp add: pathers_def)
  have paths: "cpu_Path ''/c'' ''/a'' = ''/c/a''" "pids_Path ''/p'' ''/a'' = ''/p/a''"
    by (simp_all add: cpu_Path_def pids_Path_def path_eval)
  have "Load1 mem_os mem_host (StaticPath ''/a'') [WithHierarchy ?h] busy_fs =
      Ok \<lparr>cg_path = StaticPath ''/a'', cg_subsystems = [PidsController ''/p''], cg_err = None\<rparr>"
    unfolding Load1_def opts by (simp add: StaticPath_def ps paths there gone)
  from load_finds_existing [OF this opts] this show ?thesis by auto
qed

section \<open>Freezing\<close>

lemma waitState_disk:
  assumes "disk os good writable" and "good w" and "writable (path_join [root, path, ''freezer.state'']) w"
    and "to_lower (trim_space (to_upper state)) = state"
  shows "\<exists>w1. waitState os root path state w = Some (Ok (), w1) \<and> good w1 \<and> (\<forall>q. writable q w \<longrightarrow> writable q w1)
    \<and> freezer_state os root path w1 = Ok state"
proof -
  obtain w1 where w1: "sys (os_write_file os (path_join [root, path, ''freezer.state'']) (to_upper state)) w = (Ok (), w1)" "good w1"
      "\<forall>q. writable q w \<longrightarrow> writable q w1" "ReadFile os (path_join [root, path, ''freezer.state'']) w1 = Ok (to_upper state)"
    using disk.write_one [OF assms(1), OF assms(2,3), of "to_upper state"] by auto
  have st: "freezer_state os root path w1 = Ok state" using w1(4) assms(4) by (simp add: freezer_state_def)
  have "waitState os root path state w = Some (Ok (), w1)"
    unfolding waitState_def by (subst poll_until.simps) (simp add: changeState_def w1(1) st)
  then show ?thesis using w1 st by blast
qed

lemma state_words:
  "to_lower (trim_space (to_upper Frozen1)) = Frozen1" "to_lower (trim_space (to_upper Thawed1)) = Thawed1"
  by code_simp+

lemma State_of_freezer:
  assumes "cg_err c = None" and "getSubsystem c Freezer = Some (FreezerController root)" and "cg_path c Freezer = Ok sp"
    and "freezer_state os root sp w = Ok st" and "cg_err (checkExists os c w) = None"
  shows "cgroup_State os c w = (Ok st, c)"
proof -
  have "checkExists os c w = c" using assms(1,5) by (auto simp: checkExists_def split: if_splits)
  then show ?thesis using assms by (simp add: cgroup_State_def)
qed

text \<open>C34: On a disk where the state file of the freezer can be written, freezing a group returns without an
  error and its state is then frozen; thawing it afterwards returns too, and then it is thawed.\<close>

theorem freeze_then_state:
  assumes "disk os good writable" and "good w" and "writable (path_join [root, sp, ''freezer.state'']) w"
    and "cg_err c = None" and "getSubsystem c Freezer = Some (FreezerController root)" and "cg_path c Freezer = Ok sp"
  shows "\<exists>w1 w2. Freeze1 os c w = Some (Ok (), w1) \<and> (cg_err (checkExists os c w1) = None \<longrightarrow> cgroup_State os c w1 = (Ok Frozen1, c))
    \<and> Thaw1 os c w1 = Some (Ok (), w2) \<and> (cg_err (checkExists os c w2) = None \<longrightarrow> cgroup_State os c w2 = (Ok Thawed1, c))"
proof -
  obtain w1 where w1: "waitState os root sp Frozen1 w = Some (Ok (), w1)" "good w1"
      "writable (path_join [root, sp, ''freezer.state'']) w1" "freezer_state os root sp w1 = Ok Frozen1"
    using waitState_disk [where os = os and good = good and writable = writable and w = w and root = root and path = sp,
      OF assms(1-3) state_words(1)] assms(3) by blast
  obtain w2 where w2: "waitState os root sp Thawed1 w1 = Some (Ok (), w2)" "freezer_state os root sp w2 = Ok Thawed1"
    using waitState_disk [where os = os and good = good and writable = writable and w = w1 and root = root and path = sp,
      OF assms(1) w1(2,3) state_words(2)] by blast
  have "Freeze1 os c w = Some (Ok (), w1)" "Thaw1 os c w1 = Some (Ok (), w2)"
    using assms(4-6) w1(1) w2(1) by (simp_all add: Freeze1_def Thaw1_def with_freezer_def freezer_Freeze_def freezer_Thaw_def)
  then show ?thesis
    using State_of_freezer [OF assms(4-6) w1(4)] State_of_freezer [OF assms(4-6) w2(2)]
    by (intro exI [of _ w1] exI [of _ w2]) simp
qed

definition freezer_fs :: memfs where
  "freezer_fs = \<lparr>mem_files = [(''/f/a/freezer.state'', ''THAWED'')], mem_dirs = [''/f/a''], mem_faults = []\<rparr>"

theorem freeze_then_state_witness:
  "\<exists>w1. Freeze1 mem_os \<lparr>cg_path = StaticPath ''/a'', cg_subsystems = [FreezerController ''/f''], cg_err = None\<rparr> freezer_fs = Some (Ok (), w1)"
proof -
  have "mem_writable (path_join [''/f'', ''/a'', ''freezer.state'']) freezer_fs"
    by (simp add: mem_writable_def freezer_fs_def fault_def path_eval)
  from freeze_then_state [where os = mem_os and good = "\<lambda>_. True" and writable = mem_writable and root = "''/f''" and sp = "''/a''"
      and c = "\<lparr>cg_path = StaticPath ''/a'', cg_subsystems = [FreezerController ''/f''], cg_err = None\<rparr>",
      OF mem_disk.disk_axioms TrueI this]
  show ?thesis by (auto simp: StaticPath_def getSubsystem_def)
qed

end
