(* ===== verification/V1NewLoad.thy ===== *)
theory V1NewLoad
  imports V1CgroupFacts
begin

text \<open>
  Creating a group and loading it again. What this relies on of the system is the locale \<open>directories\<close>: a
  directory that was made is there, nothing that a controller does while a group is created removes a
  directory, and an error of the system is never the package's own \<open>ErrControllerNotActive\<close>. The lemmas
  carry these laws through the sequencing combinators and the controllers (\<open>keeps_dirs\<close>).
\<close>

section \<open>Computations that remove no directory\<close>

named_theorems keeping \<open>composition of computations that remove no directory\<close>

definition keeps_dirs :: "'w os \<Rightarrow> ('w, 'a) go \<Rightarrow> bool" where
  "keeps_dirs os m = (\<forall>w r w1. m w = (r, w1) \<longrightarrow> r \<noteq> Err ErrControllerNotActive \<and> (\<forall>q. Lstat os q w = None \<longrightarrow> Lstat os q w1 = None))"

lemma keeps_dirsD: "keeps_dirs os m \<Longrightarrow> m w = (r, w1) \<Longrightarrow> r \<noteq> Err ErrControllerNotActive \<and> (\<forall>q. Lstat os q w = None \<longrightarrow> Lstat os q w1 = None)"
  by (simp add: keeps_dirs_def)

lemma keeps_ret [keeping]: "keeps_dirs os (ret x)"
  by (simp add: keeps_dirs_def)

lemma keeps_panic [keeping]: "keeps_dirs os (\<lambda>w. (Panic, w))"
  by (simp add: keeps_dirs_def)

lemma keeps_reads: "(\<And>w. f w \<noteq> Err ErrControllerNotActive) \<Longrightarrow> keeps_dirs os (reads f)"
  by (simp add: keeps_dirs_def)

lemma keeps_bnd [keeping]: "keeps_dirs os m \<Longrightarrow> (\<And>x. keeps_dirs os (k x)) \<Longrightarrow> keeps_dirs os (bnd m k)"
  unfolding keeps_dirs_def bnd_def by (auto split: prod.splits outcome.splits)

lemma keeps_seqn [keeping]: "keeps_dirs os m \<Longrightarrow> keeps_dirs os k \<Longrightarrow> keeps_dirs os (seqn m k)"
  unfolding seqn_def by (rule keeps_bnd)

lemma keeps_sys: "(\<And>w r w1. f w = (r, w1) \<Longrightarrow> r \<noteq> Some ErrControllerNotActive \<and> (\<forall>q. Lstat os q w = None \<longrightarrow> Lstat os q w1 = None)) \<Longrightarrow>
    keeps_dirs os (sys f)"
  unfolding keeps_dirs_def sys_def by (auto split: prod.splits option.splits)

lemma keeps_for_each [keeping]: "(\<And>x. keeps_dirs os (f x)) \<Longrightarrow> keeps_dirs os (for_each f xs)"
proof (induction xs)
  case Nil
  then show ?case by (simp add: keeps_dirs_def)
next
  case (Cons x xs)
  have "for_each f (x # xs) = seqn (f x) (for_each f xs)"
    by (rule ext) (simp add: seqn_def bnd_def split: prod.split outcome.split)
  then show ?case using Cons by (simp add: keeps_seqn)
qed

text \<open>The directories of the subsystems are clean absolute paths.\<close>

definition clean_dirs :: "Path \<Rightarrow> Subsystem list \<Rightarrow> bool" where
  "clean_dirs path ss = (\<forall>s \<in> set ss. \<forall>pth p. as_pather s = Some pth \<and> path (sub_Name s) = Ok p \<longrightarrow>
     (\<exists>cs. proper_path cs \<and> pth p = abs_path cs))"

text \<open>A directory made at the start of a computation is still there at its end.\<close>

lemma made_and_kept:
  assumes "keeps_dirs os k" and "\<And>w1. os_mkdir_all os p w = (None, w1) \<Longrightarrow> Lstat os p w1 = None"
    and "seqn (sys (os_mkdir_all os p)) k w = (Ok x, w2)"
  shows "Lstat os p w2 = None"
proof -
  obtain w1 where "os_mkdir_all os p w = (None, w1)" "k w1 = (Ok x, w2)"
    using assms(3) by (auto simp: seqn_eq_Ok sys_eq_Ok)
  then show ?thesis using assms(2) keeps_dirsD [OF assms(1), of w1] by simp
qed

section \<open>The laws of directories\<close>

locale directories =
  fixes os :: "'w os" and bus :: "'w bus"
  assumes mkdir_there: "proper_path cs \<Longrightarrow> os_mkdir_all os (abs_path cs) w = (None, w1) \<Longrightarrow> Lstat os (abs_path cs) w1 = None"
    and mkdir_keeps: "os_mkdir_all os p w = (r, w1) \<Longrightarrow> r \<noteq> Some ErrControllerNotActive \<and> (\<forall>q. Lstat os q w = None \<longrightarrow> Lstat os q w1 = None)"
    and write_keeps: "os_write_file os p d w = (r, w1) \<Longrightarrow> r \<noteq> Some ErrControllerNotActive \<and> (\<forall>q. Lstat os q w = None \<longrightarrow> Lstat os q w1 = None)"
    and read_error: "ReadFile os p w \<noteq> Err ErrControllerNotActive"
    and connect_keeps: "bus_connect bus w = (r, w1) \<Longrightarrow> r \<noteq> Some ErrControllerNotActive \<and> (\<forall>q. Lstat os q w = None \<longrightarrow> Lstat os q w1 = None)"
    and start_keeps: "bus_start bus u md ps w = (r, w1) \<Longrightarrow> r \<noteq> Some ErrControllerNotActive \<and> (\<forall>q. Lstat os q w = None \<longrightarrow> Lstat os q w1 = None)"
    and stop_keeps: "bus_stop bus u md w = (r, w1) \<Longrightarrow> \<forall>q. Lstat os q w = None \<longrightarrow> Lstat os q w1 = None"
    and wait_keeps: "Lstat os q w = None \<Longrightarrow> Lstat os q (bus_wait bus w) = None"
    and close_keeps: "Lstat os q w = None \<Longrightarrow> Lstat os q (bus_close bus w) = None"
    and delegate_keeps: "Lstat os q w = None \<Longrightarrow> Lstat os q (set_delegate bus b w) = None"
begin

lemma keeps_mkdir: "keeps_dirs os (sys (os_mkdir_all os p))"
  using mkdir_keeps by (rule keeps_sys)

lemma keeps_write: "keeps_dirs os (sys (os_write_file os p d))"
  using write_keeps by (rule keeps_sys)

lemma keeps_settings: "keeps_dirs os (write_settings os dir kvs)"
  unfolding write_settings_def by (intro keeping keeps_write)

lemma keeps_create_group: "keeps_dirs os (create_group os dir files r)"
  unfolding create_group_def by (intro keeping keeps_mkdir) (auto intro: keeping keeps_settings split: option.split)

lemma create_group_makes:
  "proper_path cs \<Longrightarrow> create_group os (abs_path cs) files r w = (Ok u, w1) \<Longrightarrow> Lstat os (abs_path cs) w1 = None"
  unfolding create_group_def
  by (rule made_and_kept [OF _ mkdir_there]) (auto intro: keeping keeps_settings split: option.split)

lemma getValues_error: "getValues os p w \<noteq> Err ErrControllerNotActive"
proof -
  have "read_or_empty os q w \<noteq> Err ErrControllerNotActive" for q
    using read_error by (auto simp: read_or_empty_def split: outcome.splits)
  then show ?thesis
    unfolding getValues_def
    by (cases "read_or_empty os (path_join [p, ''cpuset.cpus'']) w"; cases "read_or_empty os (path_join [p, ''cpuset.mems'']) w") auto
qed

lemma keeps_copy: "keeps_dirs os (copyIfNeeded os current parent)"
  unfolding copyIfNeeded_def
  by (intro keeping keeps_reads getValues_error) (auto intro!: keeping keeps_reads getValues_error keeps_write split: prod.split)

lemma keeps_ensureParent: "keeps_dirs os (ensureParent os root current)"
proof -
  have "r \<noteq> Err ErrControllerNotActive \<and> (\<forall>q. Lstat os q w = None \<longrightarrow> Lstat os q w1 = None)"
    if "ensureParent os root current w = (r, w1)" for w r w1
    using that
  proof (induction "path_size current" arbitrary: current r w1 rule: less_induct)
    case less
    let ?parent = "path_dir current"
    show ?case
    proof (cases "\<exists>rel. path_rel root ?parent = Ok rel \<and> ?parent \<noteq> current")
      case False
      then show ?thesis using less.prems by (subst (asm) ensureParent.simps) (auto simp: Let_def split: outcome.splits if_splits)
    next
      case True
      obtain r0 w0 where up: "(if cleanPath ?parent \<noteq> root then ensureParent os root ?parent w else (Ok (), w)) = (r0, w0)" by fastforce
      have "path_size ?parent < path_size current" using True by (intro path_dir_smaller) auto
      then have keep: "r0 \<noteq> Err ErrControllerNotActive \<and> (\<forall>q. Lstat os q w = None \<longrightarrow> Lstat os q w0 = None)"
        using less.hyps [of ?parent r0 w0] up by (auto split: if_splits)
      have rest: "keeps_dirs os (seqn (sys (os_mkdir_all os current)) (copyIfNeeded os current ?parent))"
        by (intro keeping keeps_mkdir keeps_copy)
      have "(case (r0, w0) of (Ok _, w1) \<Rightarrow> seqn (sys (os_mkdir_all os current)) (copyIfNeeded os current ?parent) w1 | r \<Rightarrow> r) = (r, w1)"
        using less.prems True up by (subst (asm) ensureParent.simps) (auto simp: Let_def)
      then show ?thesis using keep keeps_dirsD [OF rest, of w0 r w1] by (cases r0) auto
    qed
  qed
  then show ?thesis by (simp add: keeps_dirs_def)
qed

lemma keeps_cpuset_rest: "keeps_dirs os (seqn (copyIfNeeded os a b)
    (case r of None \<Rightarrow> (\<lambda>w. (Panic, w)) | Some res \<Rightarrow> (case lx_CPU res of None \<Rightarrow> ret () | Some cpu \<Rightarrow> write_settings os d (cpuset_files cpu))))"
  by (intro keeping keeps_copy) (auto intro: keeping keeps_settings split: option.split)

lemma keeps_cpuset: "keeps_dirs os (cpuset_Create os root path r)"
  unfolding cpuset_Create_def by (intro keeps_seqn keeps_ensureParent keeps_mkdir keeps_copy)
    (auto intro: keeping keeps_settings split: option.split)

lemma cpuset_makes:
  assumes "cpuset_Path root path = abs_path cs" and "proper_path cs" and "cpuset_Create os root path r w = (Ok u, w1)"
  shows "Lstat os (cpuset_Path root path) w1 = None"
proof -
  obtain w0 where "seqn (sys (os_mkdir_all os (abs_path cs))) (seqn (copyIfNeeded os (abs_path cs) (path_dir (abs_path cs)))
      (case r of None \<Rightarrow> (\<lambda>w. (Panic, w)) | Some res \<Rightarrow> (case lx_CPU res of None \<Rightarrow> ret () | Some cpu \<Rightarrow> write_settings os (abs_path cs) (cpuset_files cpu)))) w0 = (Ok u, w1)"
    using assms(3) unfolding cpuset_Create_def assms(1) seqn_eq_Ok [of "ensureParent os root (abs_path cs)"] by blast
  from made_and_kept [OF keeps_cpuset_rest mkdir_there [OF assms(2)] this] show ?thesis by (simp add: assms(1))
qed

text \<open>Checking the delegation property is a start and a stop, with the outcome kept in a variable.\<close>

lemma checkDelegate_keeps: "Lstat os q w = None \<Longrightarrow> Lstat os q (checkDelegate bus slc w) = None"
proof -
  assume q: "Lstat os q w = None"
  obtain r w1 where r: "bus_start bus slc ''testdelegate'' [BoolProperty ''Delegate'' True] w = (r, w1)" by fastforce
  obtain r2 w2 where r2: "bus_stop bus slc ''testDelegate'' w1 = (r2, w2)" by fastforce
  have "Lstat os q w2 = None" using q start_keeps [OF r] stop_keeps [OF r2] by simp
  then show ?thesis using q delegate_keeps by (simp add: checkDelegate_def r r2 ignoring_def split: option.split)
qed

lemma keeps_awaited:
  assumes "\<And>w r w1. f w = (r, w1) \<Longrightarrow> r \<noteq> Some ErrControllerNotActive \<and> (\<forall>q. Lstat os q w = None \<longrightarrow> Lstat os q w1 = None)"
  shows "keeps_dirs os (awaited bus f)"
proof -
  have wait: "keeps_dirs os (\<lambda>w. (Ok (), bus_wait bus w))" using wait_keeps by (simp add: keeps_dirs_def)
  show ?thesis unfolding awaited_def by (rule keeps_seqn [OF keeps_sys [OF assms] wait])
qed

lemma keeps_conn: "keeps_dirs os m \<Longrightarrow> keeps_dirs os (with_conn bus m)"
proof -
  assume m: "keeps_dirs os m"
  have "keeps_dirs os (\<lambda>w. case m w of (r, w1) \<Rightarrow> (r, bus_close bus w1))"
    using m close_keeps unfolding keeps_dirs_def by (auto split: prod.splits)
  moreover have "keeps_dirs os (sys (bus_connect bus))" using connect_keeps by (rule keeps_sys)
  ultimately show ?thesis unfolding with_conn_def by (intro keeps_seqn)
qed

lemma keeps_systemd: "keeps_dirs os (systemd_Create bus path)"
proof -
  have "keeps_dirs os (awaited bus (bus_start bus u md ps))" for u md ps
    using start_keeps by (rule keeps_awaited)
  then have "keeps_dirs os (\<lambda>w. case splitName path of (slc, name) \<Rightarrow> let w1 = checkDelegate bus slc w
      in awaited bus (bus_start bus name ''replace'' (systemd_properties slc name (var_delegate bus w1 = Some True))) w1)"
    unfolding keeps_dirs_def using checkDelegate_keeps by (auto simp: Let_def split: prod.splits)
  then show ?thesis unfolding systemd_Create_def by (rule keeps_conn)
qed

lemmas creates = pids_Create_def hugetlb_Create_def netcls_Create_def netprio_Create_def rdma_Create_def devices_Create_def
  blkio_Create_def cpu_Create_def memory_settings.create_eq

lemma creator_keeps:
  assumes "as_creator os host s = Some create" and "h_bus host = bus"
  shows "keeps_dirs os (create p r)"
  using assms keeps_systemd [of p] by (cases s) (auto simp: creates intro!: keeps_create_group keeps_cpuset)

lemma creator_makes:
  assumes "as_creator os host s = Some create" and "as_pather s = Some pth" and "pth p = abs_path cs" and "proper_path cs"
    and "create p r w = (Ok u, w1)"
  shows "Lstat os (pth p) w1 = None"
  using assms create_group_makes [OF assms(4)] cpuset_makes [OF _ assms(4)]
  by (cases s) (auto simp: creates)

text \<open>Initialising a subsystem: no directory is lost, the directory of the subsystem is there afterwards, and
  the subsystem is skipped only if its path is not known.\<close>

lemma initialize_dirs:
  assumes "initializeSubsystem os host s path res w = (r, w1)" and "h_bus host = bus"
  shows "(\<forall>q. Lstat os q w = None \<longrightarrow> Lstat os q w1 = None)
    \<and> (r = Err ErrControllerNotActive \<longrightarrow> path (sub_Name s) = Err ErrControllerNotActive)
    \<and> (\<forall>u pth p cs. r = Ok u \<and> as_pather s = Some pth \<and> path (sub_Name s) = Ok p \<and> pth p = abs_path cs \<and> proper_path cs \<longrightarrow> Lstat os (pth p) w1 = None)"
proof (cases "path (sub_Name s)")
  case (Ok p)
  show ?thesis
  proof (cases "as_creator os host s")
    case (Some create)
    then have run: "create p res w = (r, w1)" using assms(1) Ok by (simp add: initializeSubsystem_def bnd_def)
    show ?thesis
      using keeps_dirsD [OF creator_keeps [OF Some assms(2)] run] creator_makes [OF Some] run Ok by auto
  next
    case None
    then show ?thesis
    proof (cases "as_pather s")
      case (Some pth)
      then have run: "sys (os_mkdir_all os (pth p)) w = (r, w1)" using assms(1) Ok None by (simp add: initializeSubsystem_def bnd_def)
      then show ?thesis
        using keeps_dirsD [OF keeps_mkdir run] mkdir_there Some Ok by (auto simp: sys_eq_Ok)
    qed (use assms(1) None in \<open>auto simp: initializeSubsystem_def\<close>)
  qed
next
  case (Err e)
  have "as_creator os host s = None \<Longrightarrow> as_pather s \<noteq> None" by (cases s) auto
  then show ?thesis using assms(1) Err by (auto simp: initializeSubsystem_def bnd_def split: option.splits)
next
  case Panic
  have "as_creator os host s = None \<Longrightarrow> as_pather s \<noteq> None" by (cases s) auto
  then show ?thesis using assms(1) Panic by (auto simp: initializeSubsystem_def bnd_def split: option.splits)
qed

lemma load_loop_kept:
  assumes "r = Ok u" and r: "initializeSubsystem os host s path res w = (r, w0)" and "h_bus host = bus"
    and clean: "\<And>pth p. as_pather s = Some pth \<Longrightarrow> path (sub_Name s) = Ok p \<Longrightarrow> \<exists>cs. proper_path cs \<and> pth p = abs_path cs"
    and later: "\<forall>q. Lstat os q w0 = None \<longrightarrow> Lstat os q w1 = None"
    and rest: "\<forall>found. load_loop os check path w1 found (pathers ss) = Ok (found @ map fst (pathers kept))"
  shows "load_loop os check path w1 found (pathers (s # ss)) = Ok (found @ map fst (pathers (s # kept)))"
proof (cases "as_pather s")
  case (Some pth)
  obtain p where p: "path (sub_Name s) = Ok p" using initialize_path [OF r [unfolded assms(1)]] by blast
  obtain cs where "proper_path cs" "pth p = abs_path cs" using clean [OF Some p] by auto
  then have "Lstat os (pth p) w1 = None" using initialize_dirs [OF r assms(3)] assms(1) Some p later by blast
  then show ?thesis using rest Some p by (simp add: pathers_def)
qed (use rest in \<open>simp add: pathers_def\<close>)

lemma new_loop_dirs:
  assumes "new_loop os host check path res active ss w = (Ok subs, w1)" and "h_bus host = bus"
    and "clean_dirs path ss"
  shows "(\<forall>q. Lstat os q w = None \<longrightarrow> Lstat os q w1 = None) \<and> (\<exists>kept. subs = active @ kept \<and>
    (\<forall>found. load_loop os check path w1 found (pathers ss) = Ok (found @ map fst (pathers kept))))"
  using assms(1,3)
proof (induction ss arbitrary: active w)
  case Nil
  then show ?case by (simp add: pathers_def)
next
  case (Cons s ss)
  obtain r w0 where r: "initializeSubsystem os host s path res w = (r, w0)" by fastforce
  note dirs = initialize_dirs [OF r assms(2)]
  have clean: "\<forall>pth p. as_pather s = Some pth \<and> path (sub_Name s) = Ok p \<longrightarrow> (\<exists>cs. proper_path cs \<and> pth p = abs_path cs)" "clean_dirs path ss"
    using Cons.prems(2) by (auto simp: clean_dirs_def)
  have ps: "pathers (s # xs) = (case as_pather s of Some pth \<Rightarrow> (s, pth) # pathers xs | None \<Rightarrow> pathers xs)" for xs
    by (simp add: pathers_def split: option.split)
  show ?case
  proof (cases r)
    case (Ok u)
    then have "new_loop os host check path res (active @ [s]) ss w0 = (Ok subs, w1)" using Cons.prems(1) r by simp
    from Cons.IH [OF this clean(2)] obtain kept where later: "\<forall>q. Lstat os q w0 = None \<longrightarrow> Lstat os q w1 = None"
        "subs = (active @ [s]) @ kept" "\<forall>found. load_loop os check path w1 found (pathers ss) = Ok (found @ map fst (pathers kept))"
      by auto
    have "load_loop os check path w1 found (pathers (s # ss)) = Ok (found @ map fst (pathers (s # kept)))" for found
      using load_loop_kept [OF Ok r assms(2) _ later(1,3)] clean(1) by blast
    then show ?thesis using dirs later(1,2) by (intro conjI exI [of _ "s # kept"]) auto
  next
    case (Err e)
    then have e: "e = ErrControllerNotActive" and sk: "skip_error check s path = None"
        and "new_loop os host check path res active ss w0 = (Ok subs, w1)"
      using Cons.prems(1) r by (auto split: if_splits option.splits)
    from Cons.IH [OF this(3) clean(2)] obtain kept where later: "\<forall>q. Lstat os q w0 = None \<longrightarrow> Lstat os q w1 = None"
        "subs = active @ kept" "\<forall>found. load_loop os check path w1 found (pathers ss) = Ok (found @ map fst (pathers kept))"
      by auto
    have "path (sub_Name s) = Err ErrControllerNotActive" using dirs Err e by blast
    then have "load_loop os check path w1 found (pathers (s # ss)) = Ok (found @ map fst (pathers kept))" for found
      using later(3) sk by (cases "as_pather s") (simp_all add: ps errors_is_not_exist_def)
    then show ?thesis using dirs later(1,2) by blast
  qed (use Cons.prems(1) r in simp)
qed

end

section \<open>The directory tree in memory\<close>

lemma mem_Lstat: "Lstat mem_os q m = None \<longleftrightarrow> map_of (mem_files m) q \<noteq> None \<or> q \<in> set (mem_dirs m)"
  by (auto simp: Lstat_def mem_tree_def)

lemma mem_mkdir_there:
  assumes "proper_path cs" and "mem_mkdir_all (abs_path cs) m = (None, m1)"
  shows "abs_path cs \<in> set (mem_dirs m1)"
proof -
  have "abs_path cs \<in> set (ancestors (abs_path cs))" using assms(1) by (auto simp: ancestors_def intro: image_eqI [of _ _ "length cs"])
  then show ?thesis using assms(2) by (auto simp: mem_mkdir_all_def fault_def split: if_splits list.splits)
qed

lemma fault_PathError: "fault opn p m = Some e \<Longrightarrow> \<exists>n. e = PathError opn p n"
  by (auto simp: fault_def)

interpretation mem_directories: directories mem_os mem_bus
proof (unfold_locales, goal_cases)
  case (1 cs w w1)
  then show ?case using mem_mkdir_there [of cs w w1] by (simp add: mem_Lstat)
next
  case (2 p w r w1)
  then show ?case
    using fault_PathError [of "''mkdir''" p w] by (auto simp: mem_mkdir_all_def mem_Lstat split: if_splits list.splits)
next
  case (3 p d w r w1)
  then show ?case
    by (auto simp: mem_write_file_def mem_open_file_def mem_fd_write_def mem_Lstat update_conv' fault_def split: if_splits prod.splits option.splits)
next
  case (4 p w)
  then show ?case by (auto simp: ReadFile_def mem_open_def fault_def split: option.splits)
qed (simp_all add: mem_bus_def)

section \<open>Created and loaded\<close>

text \<open>C13: A group that was created can be loaded again: with the same path and hierarchy, Load returns the group
  with the subsystems that have directories, all of those and no other, whatever was skipped at its creation.\<close>

theorem new_then_load:
  assumes "directories os (h_bus host)" and "New os host path res [WithHierarchy h] w = (Ok c, w1)"
    and "h w = Ok ss" and "h w1 = Ok ss"
    and "clean_dirs path ss"
    and "pathers (cg_subsystems c) \<noteq> []"
  shows "Load1 os host path [WithHierarchy h] w1 = Ok (c\<lparr>cg_subsystems := map fst (pathers (cg_subsystems c))\<rparr>)"
proof -
  have new: "new_loop os host (Some RequireDevices) path res [] ss w = (Ok (cg_subsystems c), w1)" "cg_path c = path" "cg_err c = None"
    using assms(2,3) by (auto simp: New_def WithHierarchy_def newInitConfig_def bnd_eq_Ok)
  obtain kept where "cg_subsystems c = [] @ kept"
      "\<forall>found. load_loop os (Some RequireDevices) path w1 found (pathers ss) = Ok (found @ map fst (pathers kept))"
    using directories.new_loop_dirs [OF assms(1) new(1) refl assms(5)] by auto
  then have "load_loop os (Some RequireDevices) path w1 [] (pathers ss) = Ok (map fst (pathers (cg_subsystems c)))" by simp
  then show ?thesis
    using assms(4,6) new(2,3) by (cases c) (simp add: Load1_def WithHierarchy_def newInitConfig_def)
qed

theorem new_then_load_witness:
  "\<exists>c w1. New mem_os mem_host (\<lambda>n. if n = Freezer then Err ErrControllerNotActive else Ok ''/a'') (Some no_resources)
      [WithHierarchy (\<lambda>_. Ok [FreezerController ''/f'', DevicesController ''/d''])] empty_fs = (Ok c, w1)
    \<and> Load1 mem_os mem_host (\<lambda>n. if n = Freezer then Err ErrControllerNotActive else Ok ''/a'')
      [WithHierarchy (\<lambda>_. Ok [FreezerController ''/f'', DevicesController ''/d''])] w1 = Ok c"
proof -
  let ?path = "\<lambda>n. if n = Freezer then Err ErrControllerNotActive else Ok ''/a''"
  let ?h = "\<lambda>_. Ok [FreezerController ''/f'', DevicesController ''/d'']"
  obtain w1 where new: "New mem_os mem_host ?path (Some no_resources) [WithHierarchy ?h] empty_fs =
      (Ok \<lparr>cg_path = ?path, cg_subsystems = [DevicesController ''/d''], cg_err = None\<rparr>, w1)"
    by (simp add: New_def newInitConfig_def WithHierarchy_def bnd_def initializeSubsystem_def skip_RequireDevices name_defs
        devices_Create_def create_group_def seqn_def devices_files_def no_resources_def empty_fs_def mem_mkdir_all_def fault_def
        filter_empty_conv)
  have dirs: "directories mem_os (h_bus mem_host)" using mem_directories.directories_axioms by (simp add: mem_host_def)
  have "devices_Path ''/d'' ''/a'' = abs_path [''d'', ''a'']" by (simp add: devices_Path_def path_eval)
  then have "clean_dirs ?path [FreezerController ''/f'', DevicesController ''/d'']"
    by (auto simp: clean_dirs_def name_defs proper_def intro!: exI [of _ "[''d'', ''a'']"])
  from new_then_load [OF dirs new refl refl this] show ?thesis using new by (simp add: pathers_def)
qed

end
