(* ===== verification/V1Update.thy ===== *)
theory V1Update
  imports V1CgroupFacts
begin

text \<open>
  Updating a whole group of version 1. \<open>Update\<close> visits the subsystems
  one after the other, and each writes its files in the directory of its own hierarchy: the predicate \<open>wrote\<close>
  says what a list of writes leaves behind, and is carried through the controllers (\<open>update_one_wrote\<close>) and
  through the loop (\<open>group_wrote\<close>). The cpuset controller also copies missing values down from the parents; where
  none is missing, as in a group that was created before, it only writes its files (\<open>cpuset_settled\<close>).
\<close>

section \<open>What an update writes\<close>

text \<open>The directory of a controller with an \<open>Update\<close> and the files that it writes there.\<close>

definition cpuset_update_files :: "LinuxResources \<Rightarrow> (string \<times> string) list" where
  "cpuset_update_files r = (case lx_CPU r of None \<Rightarrow> [] | Some cpu \<Rightarrow> cpuset_files cpu)"

fun updates_of :: "Subsystem \<Rightarrow> ((string \<Rightarrow> string) \<times> (LinuxResources \<Rightarrow> (string \<times> string) list)) option" where
  "updates_of (CpusetController root) = Some (cpuset_Path root, cpuset_update_files)"
| "updates_of (HugetlbController h) = None"
| "updates_of (NetprioController root) = None"
| "updates_of s = settings_of s"

lemma updates_iff: "as_updater os s = None \<longleftrightarrow> updates_of s = None"
  by (cases s) simp_all

text \<open>What one subsystem writes when the group is updated: nothing if it has no \<open>Update\<close>.\<close>

definition subsystem_writes :: "cgroup \<Rightarrow> LinuxResources \<Rightarrow> Subsystem \<Rightarrow> (string \<times> string) list" where
  "subsystem_writes c r s = (case (updates_of s, cg_path c (sub_Name s)) of
     (Some (dir, files), Ok sp) \<Rightarrow> map (\<lambda>kv. (path_join [dir sp, fst kv], snd kv)) (files r)
   | _ \<Rightarrow> [])"

definition group_writes :: "cgroup \<Rightarrow> LinuxResources \<Rightarrow> (string \<times> string) list" where
  "group_writes c r = concat (map (subsystem_writes c r) (cg_subsystems c))"

text \<open>A cpuset group with nothing to copy: every directory from the root of the controller down to the group
  exists and has CPUs and memory nodes.\<close>

definition cpuset_settled :: "'w os \<Rightarrow> ('w \<Rightarrow> bool) \<Rightarrow> string \<Rightarrow> string \<Rightarrow> 'w \<Rightarrow> bool" where
  "cpuset_settled os good root path w = (\<exists>rs gs. root = abs_path rs \<and> path = abs_path gs \<and> gs \<noteq> [] \<and> proper_path (rs @ gs) \<and>
     (\<forall>k \<le> length gs. (\<forall>v. good v \<longrightarrow> os_mkdir_all os (abs_path (rs @ take k gs)) v = (None, v)) \<and>
        (\<forall>f \<in> cpuset_names. \<exists>d. ReadFile os (cpuset_file rs gs k f) w = Ok d \<and> \<not> isEmpty d)))"

text \<open>A subsystem that can be updated: its directory is there, the files that are to be written can be, the
  memory limit can be read, and the cpuset is settled.\<close>

definition updatable :: "'w os \<Rightarrow> ('w \<Rightarrow> bool) \<Rightarrow> (string \<Rightarrow> 'w \<Rightarrow> bool) \<Rightarrow> cgroup \<Rightarrow> LinuxResources \<Rightarrow> 'w \<Rightarrow> Subsystem \<Rightarrow> bool" where
  "updatable os good writable c r w s = (case updates_of s of
     None \<Rightarrow> True
   | Some (dir, files) \<Rightarrow> (\<exists>sp cs. cg_path c (sub_Name s) = Ok sp \<and> proper_path cs \<and> dir sp = abs_path cs \<and>
        (\<forall>v. good v \<longrightarrow> os_mkdir_all os (dir sp) v = (None, v)) \<and>
        (\<forall>kv \<in> set (files r). writable (path_join [dir sp, fst kv]) w) \<and>
        (sub_Name s = MemoryName \<longrightarrow> (\<exists>v. readUint os (path_join [dir sp, ''memory.limit_in_bytes'']) w = Ok v)) \<and>
        (\<forall>root. s = CpusetController root \<longrightarrow> cpuset_settled os good root sp w)))"

lemma updatable_cases:
  assumes "updatable os good writable c r w s" and "updates_of s = Some (dir, files)"
  obtains sp cs where "cg_path c (sub_Name s) = Ok sp" and "proper_path cs" and "dir sp = abs_path cs"
    and "\<forall>v. good v \<longrightarrow> os_mkdir_all os (dir sp) v = (None, v)"
    and "\<forall>kv \<in> set (files r). writable (path_join [dir sp, fst kv]) w"
    and "sub_Name s = MemoryName \<longrightarrow> (\<exists>v. readUint os (path_join [dir sp, ''memory.limit_in_bytes'']) w = Ok v)"
    and "\<forall>root. s = CpusetController root \<longrightarrow> cpuset_settled os good root sp w"
  using assms unfolding updatable_def by (simp only: option.case prod.case) (elim exE conjE, rule that)

abbreviation update_one :: "'w os \<Rightarrow> cgroup \<Rightarrow> LinuxResources option \<Rightarrow> Subsystem \<Rightarrow> ('w, unit) go" where
  "update_one os c res s \<equiv> (case as_updater os s of
     None \<Rightarrow> ret ()
   | Some update \<Rightarrow> bnd (lift_out (cg_path c (sub_Name s))) (\<lambda>sp. update sp res))"

text \<open>The outcome of writing a list of files: success, the last contents of each file, nothing else changed.\<close>

definition wrote :: "'w os \<Rightarrow> ('w \<Rightarrow> bool) \<Rightarrow> (string \<Rightarrow> 'w \<Rightarrow> bool) \<Rightarrow> ('w, unit) go \<Rightarrow> 'w \<Rightarrow> (string \<Rightarrow> string option) \<Rightarrow> bool" where
  "wrote os good writable m w f = (\<exists>w1. m w = (Ok (), w1) \<and> good w1 \<and> (\<forall>q. writable q w \<longrightarrow> writable q w1) \<and>
     (\<forall>q. os_open os q w1 = (case f q of Some d \<Rightarrow> Inr (d, None) | None \<Rightarrow> os_open os q w)))"

lemma settings_wrote:
  assumes "disk os good writable" and "good w" and "\<And>kv. kv \<in> set kvs \<Longrightarrow> writable (path_join [dir, fst kv]) w"
  shows "wrote os good writable (write_settings os dir kvs) w (assign_all (map (\<lambda>kv. (path_join [dir, fst kv], snd kv)) kvs))"
proof -
  let ?fs = "map (\<lambda>kv. (path_join [dir, fst kv], snd kv)) kvs"
  have wr: "pd \<in> set ?fs \<Longrightarrow> writable (fst pd) w" for pd using assms(3) by auto
  have "write_settings os dir kvs w = for_each (\<lambda>pd. sys (os_write_file os (fst pd) (snd pd))) ?fs w"
    by (simp add: write_settings_def for_each_map)
  then show ?thesis using disk.write_all_ok [where pds = ?fs, OF assms(1,2) wr] unfolding wrote_def by simp
qed

lemma wrote_nothing: "good w \<Longrightarrow> wrote os good writable (ret ()) w (assign_all [])"
  by (simp add: wrote_def assign_all_def)

lemma wrote_then:
  assumes "wrote os good writable a w (assign_all xs)"
    and "\<And>w1. good w1 \<Longrightarrow> \<forall>q. writable q w \<longrightarrow> writable q w1 \<Longrightarrow>
      \<forall>q. os_open os q w1 = (case assign_all xs q of Some d \<Rightarrow> Inr (d, None) | None \<Rightarrow> os_open os q w) \<Longrightarrow>
      wrote os good writable b w1 (assign_all ys)"
  shows "wrote os good writable (seqn a b) w (assign_all (xs @ ys))"
proof -
  obtain w1 where w1: "a w = (Ok (), w1)" "good w1" "\<forall>q. writable q w \<longrightarrow> writable q w1"
      "\<forall>q. os_open os q w1 = (case assign_all xs q of Some d \<Rightarrow> Inr (d, None) | None \<Rightarrow> os_open os q w)"
    using assms(1) unfolding wrote_def by blast
  obtain w2 where w2: "b w1 = (Ok (), w2)" "good w2" "\<forall>q. writable q w1 \<longrightarrow> writable q w2"
      "\<forall>q. os_open os q w2 = (case assign_all ys q of Some d \<Rightarrow> Inr (d, None) | None \<Rightarrow> os_open os q w1)"
    using assms(2) [OF w1(2-4)] unfolding wrote_def by blast
  have "os_open os q w2 = (case assign_all (xs @ ys) q of Some d \<Rightarrow> Inr (d, None) | None \<Rightarrow> os_open os q w)" for q
    using w1(4) w2(4) by (cases "assign_all ys q") (auto simp: assign_all_append map_add_def)
  then show ?thesis using w1(1,3) w2(1-3) unfolding wrote_def by (auto simp: seqn_def bnd_def)
qed

text \<open>The two orders in which the memory controller writes its files leave the same contents.\<close>

lemma memory_files_swap:
  assumes "proper_path cs"
  shows "assign_all (map (\<lambda>kv. (path_join [abs_path cs, fst kv], snd kv)) (memory_files (swap_first_two (getMemorySettings mem)))) =
    assign_all (map (\<lambda>kv. (path_join [abs_path cs, fst kv], snd kv)) (memory_files (getMemorySettings mem)))"
proof -
  define rest where "rest = drop 2 (getMemorySettings mem)"
  have s: "getMemorySettings mem = (''limit_in_bytes'', lm_Limit mem) # (''soft_limit_in_bytes'', lm_Reservation mem) # rest"
    by (simp add: rest_def getMemorySettings_def)
  have "proper ''memory.limit_in_bytes''" "proper ''memory.soft_limit_in_bytes''" by (simp_all add: proper_def)
  then have "path_join [abs_path cs, ''memory.limit_in_bytes''] \<noteq> path_join [abs_path cs, ''memory.soft_limit_in_bytes'']"
    using assms by (simp add: abs_path_inj)
  then show ?thesis
    by (cases "lm_Limit mem"; cases "lm_Reservation mem")
      (simp_all add: s swap_first_two_def memory_files_def assign_all_def fun_upd_twist)
qed

lemma memory_update_wrote:
  assumes "disk os good writable" and "good w" and "lx_Memory r = Some mem" and "proper_path cs" and "memory_Path m sp = abs_path cs"
    and "readUint os (path_join [abs_path cs, ''memory.limit_in_bytes'']) w = Ok cur"
    and "\<And>kv. kv \<in> set (memory_create_files r) \<Longrightarrow> writable (path_join [abs_path cs, fst kv]) w"
  shows "wrote os good writable (memory_Update os m sp (Some r)) w
    (assign_all (map (\<lambda>kv. (path_join [abs_path cs, fst kv], snd kv)) (memory_create_files r)))"
proof -
  let ?st = "getMemorySettings mem"
  have sub: "set (memory_files (swap_first_two ?st)) = set (memory_files ?st)"
    by (simp add: swap_first_two_def getMemorySettings_def memory_files_def insert_commute)
  have f: "memory_create_files r = memory_files ?st" using assms(3) by (simp add: memory_create_files_def)
  have w: "wrote os good writable (memory_set os m sp ?st) w (assign_all (map (\<lambda>kv. (path_join [abs_path cs, fst kv], snd kv)) (memory_files ?st)))"
    unfolding memory_set_def assms(5) by (rule settings_wrote [OF assms(1,2)]) (use assms(7) f in simp)
  moreover have "wrote os good writable (memory_set os m sp (swap_first_two ?st)) w (assign_all (map (\<lambda>kv. (path_join [abs_path cs, fst kv], snd kv)) (memory_files ?st)))"
    unfolding memory_set_def assms(5) memory_files_swap [OF assms(4), symmetric]
    by (rule settings_wrote [OF assms(1,2)]) (use assms(7) f sub in simp)
  ultimately show ?thesis
    using assms(3,6) by (auto simp: memory_Update_def assms(5) f Let_def bnd_def reads_def wrote_def)
qed

lemmas create_defs = pids_Create_def netcls_Create_def rdma_Create_def devices_Create_def blkio_Create_def cpu_Create_def

text \<open>One subsystem.\<close>

lemma create_wrote:
  assumes "disk os good writable" and "good w" and "os_mkdir_all os dir w = (None, w)"
    and "\<And>kv. kv \<in> set (files r) \<Longrightarrow> writable (path_join [dir, fst kv]) w"
  shows "wrote os good writable (create_group os dir files (Some r)) w (assign_all (map (\<lambda>kv. (path_join [dir, fst kv], snd kv)) (files r)))"
proof -
  have "create_group os dir files (Some r) w = write_settings os dir (files r) w"
    using assms(3) by (simp add: create_group_def seqn_def bnd_def)
  then show ?thesis using settings_wrote [OF assms(1,2,4)] unfolding wrote_def by simp
qed

lemma cpuset_wrote:
  assumes "disk os good writable" and "good w" and "cpuset_settled os good root sp w"
    and "\<And>kv. kv \<in> set (cpuset_update_files r) \<Longrightarrow> writable (path_join [cpuset_Path root sp, fst kv]) w"
  shows "wrote os good writable (cpuset_Create os root sp (Some r)) w
    (assign_all (map (\<lambda>kv. (path_join [cpuset_Path root sp, fst kv], snd kv)) (cpuset_update_files r)))"
proof -
  obtain rs gs where g: "root = abs_path rs" "sp = abs_path gs" "gs \<noteq> []" "proper_path (rs @ gs)"
      "\<And>k. k \<le> length gs \<Longrightarrow> os_mkdir_all os (abs_path (rs @ take k gs)) w = (None, w)"
      "\<And>k f. k \<le> length gs \<Longrightarrow> f \<in> cpuset_names \<Longrightarrow> \<exists>d. ReadFile os (cpuset_file rs gs k f) w = Ok d \<and> \<not> isEmpty d"
    using assms(2,3) unfolding cpuset_settled_def by blast
  have level: "cpuset_level os rs gs k w = (Ok (), w)" if k: "k < length gs" for k
  proof -
    have val: "\<exists>cs ms. getValues os (abs_path (rs @ take i gs)) w = Ok (cs, ms) \<and> \<not> isEmpty cs \<and> \<not> isEmpty ms" if "i \<le> length gs" for i
      using g(6) [OF that, of "''cpuset.cpus''"] g(6) [OF that, of "''cpuset.mems''"]
      by (auto simp: getValues_def read_or_empty_def cpuset_file_def)
    obtain a b c d where "getValues os (abs_path (rs @ take (Suc k) gs)) w = Ok (a, b)" "\<not> isEmpty a" "\<not> isEmpty b"
        "getValues os (abs_path (rs @ take k gs)) w = Ok (c, d)"
      using val [of "Suc k"] val [of k] k by auto
    then show ?thesis using g(5) [of "Suc k"] k by (simp add: cpuset_level_def copyIfNeeded_def seqn_def bnd_def)
  qed
  have "for_each (cpuset_level os rs gs) ks w = (Ok (), w)" if "set ks \<subseteq> {..<length gs}" for ks
    using that by (induction ks) (auto simp: level)
  then have "for_each (cpuset_level os rs gs) [0..<length gs] w = (Ok (), w)" by (simp add: atLeast0LessThan [symmetric])
  moreover have "cpuset_level os rs gs (length gs - 1) w = (Ok (), w)" using level g(3) by simp
  moreover have path: "cpuset_Path root sp = abs_path (rs @ gs)" using g(4) by (simp add: cpuset_Path_def g(1,2))
  ultimately have "cpuset_Create os root sp (Some r) w = write_settings os (cpuset_Path root sp) (cpuset_update_files r) w"
    unfolding g(1,2) cpuset_Create_chain [OF g(4,3)]
    by (cases "lx_CPU r") (simp_all add: cpuset_update_files_def seqn_def bnd_def)
  then show ?thesis using settings_wrote [OF assms(1,2,4)] unfolding wrote_def by simp
qed

lemma update_one_wrote:
  assumes "disk os good writable" and "good w" and "updatable os good writable c r w s"
  shows "wrote os good writable (update_one os c (Some r) s) w (assign_all (subsystem_writes c r s))"
proof (cases "updates_of s")
  case None
  then have "as_updater os s = None" by (simp add: updates_iff)
  then show ?thesis using assms(2) wrote_nothing by (simp add: subsystem_writes_def None)
next
  case (Some df)
  obtain dir files where df: "df = (dir, files)" by (cases df)
  obtain update where up: "as_updater os s = Some update" using Some updates_iff [of os s] by auto
  obtain sp cs where u: "cg_path c (sub_Name s) = Ok sp" "proper_path cs" "dir sp = abs_path cs" "os_mkdir_all os (dir sp) w = (None, w)"
      "\<And>kv. kv \<in> set (files r) \<Longrightarrow> writable (path_join [dir sp, fst kv]) w"
      "sub_Name s = MemoryName \<longrightarrow> (\<exists>v. readUint os (path_join [dir sp, ''memory.limit_in_bytes'']) w = Ok v)"
      "\<And>root. s = CpusetController root \<Longrightarrow> cpuset_settled os good root sp w"
    using updatable_cases [OF assms(3) Some [unfolded df]] assms(2) by metis
  have eq: "update_one os c (Some r) s w = update sp (Some r) w" using up u(1) by (simp add: bnd_def)
  have writes: "subsystem_writes c r s = map (\<lambda>kv. (path_join [dir sp, fst kv], snd kv)) (files r)"
    using Some u(1) by (simp add: subsystem_writes_def df)
  have "wrote os good writable (update sp (Some r)) w (assign_all (subsystem_writes c r s))"
  proof (cases "(\<exists>root. s = CpusetController root) \<or> (\<exists>m mem. s = MemoryController m \<and> lx_Memory r = Some mem)")
    case True
    then show ?thesis
    proof (elim disjE exE conjE)
      fix root assume s: "s = CpusetController root"
      then show ?thesis using cpuset_wrote [OF assms(1,2) u(7)] u(5) Some up unfolding writes by (auto simp: df)
    next
      fix m mem assume m: "s = MemoryController m" "lx_Memory r = Some mem"
      then obtain cur where "readUint os (path_join [abs_path cs, ''memory.limit_in_bytes'']) w = Ok cur" using u(3,6) by auto
      then show ?thesis
        using memory_update_wrote [OF assms(1,2) m(2) u(2), of m sp cur] u(3,5) m(1) Some up unfolding writes by (auto simp: df)
    qed
  next
    case False
    have "wrote os good writable (create_group os (dir sp) files (Some r)) w (assign_all (map (\<lambda>kv. (path_join [dir sp, fst kv], snd kv)) (files r)))"
      by (rule create_wrote [OF assms(1,2) u(4,5)])
    then show ?thesis
      using Some up False assms(2) unfolding writes
      by (cases s) (auto simp: df create_defs memory_create_files_def wrote_nothing memory_Update_def split: option.splits)
  qed
  then show ?thesis using eq unfolding wrote_def by simp
qed

text \<open>The names of the files that each controller can write on an update.\<close>

definition cpu_names :: "string list" where
  "cpu_names = [''cpu.rt_period_us'', ''cpu.rt_runtime_us'', ''cpu.shares'', ''cpu.cfs_period_us'', ''cpu.cfs_quota_us'']"

definition memory_names :: "string list" where
  "memory_names = [''memory.limit_in_bytes'', ''memory.soft_limit_in_bytes'', ''memory.memsw.limit_in_bytes'',
     ''memory.kmem.limit_in_bytes'', ''memory.kmem.tcp.limit_in_bytes'', ''memory.oom_control'', ''memory.swappiness'']"

definition blkio_names :: "string list" where
  "blkio_names = [''blkio.weight'', ''blkio.leaf_weight'', ''blkio.weight_device'', ''blkio.leaf_weight_device'',
     ''blkio.throttle.read_bps_device'', ''blkio.throttle.read_iops_device'', ''blkio.throttle.write_bps_device'',
     ''blkio.throttle.write_iops_device'']"

fun update_names :: "Subsystem \<Rightarrow> string list" where
  "update_names (CpusetController root) = [''cpuset.cpus'', ''cpuset.mems'']"
| "update_names (PidsController root) = [''pids.max'']"
| "update_names (NetclsController root) = [''net_cls.classid'']"
| "update_names (RdmaController root) = [''rdma.max'']"
| "update_names (DevicesController root) = [''devices.allow'', ''devices.deny'']"
| "update_names (CpuController root) = cpu_names"
| "update_names (MemoryController m) = memory_names"
| "update_names (BlkioController b) = blkio_names"
| "update_names _ = []"

lemma update_names_proper: "f \<in> set (update_names s) \<Longrightarrow> proper f"
proof -
  have "list_all proper (update_names s)"
    by (cases s) (simp_all add: cpu_names_def memory_names_def blkio_names_def proper_def)
  then show "f \<in> set (update_names s) \<Longrightarrow> proper f" by (simp add: list_all_iff)
qed

text \<open>The limits that the statistics report and the files of the cpuset are written by one controller each.\<close>

lemma limit_owner:
  "''pids.max'' \<in> set (update_names s) \<Longrightarrow> sub_Name s = PidsName"
  "''memory.limit_in_bytes'' \<in> set (update_names s) \<Longrightarrow> sub_Name s = MemoryName"
  "''memory.memsw.limit_in_bytes'' \<in> set (update_names s) \<Longrightarrow> sub_Name s = MemoryName"
  by (cases s; simp add: cpu_names_def blkio_names_def memory_names_def; fail)+

lemma cpuset_owner: "f \<in> cpuset_names \<Longrightarrow> f \<in> set (update_names s) \<Longrightarrow> sub_Name s = Cpuset"
  by (cases s) (auto simp: cpu_names_def blkio_names_def memory_names_def)

lemma files_names:
  "fst ` set (pids_files r) \<subseteq> {''pids.max''}" "fst ` set (netcls_files r) \<subseteq> {''net_cls.classid''}"
  "fst ` set (cpuset_update_files r) \<subseteq> {''cpuset.cpus'', ''cpuset.mems''}"
  "fst ` set (rdma_files r) \<subseteq> {''rdma.max''}" "fst ` set (devices_files r) \<subseteq> {''devices.allow'', ''devices.deny''}"
  by (auto simp: pids_files_def netcls_files_def rdma_files_def devices_files_def device_file_def allowDeviceFile_def
      denyDeviceFile_def cpuset_update_files_def cpuset_files_def split: option.splits if_splits)

lemma somes_fst: "fst ` set (somes (map (\<lambda>(n, x). map_option (\<lambda>v. (f n, g v)) x) ts)) \<subseteq> (\<lambda>t. f (fst t)) ` set ts"
  by (force simp: eq_commute [of "Some _"])

lemma somes_fst2: "fst ` set (somes (map (\<lambda>(n, x, y). map_option (\<lambda>v. (f n, v)) (h x y)) ts)) \<subseteq> (\<lambda>t. f (fst t)) ` set ts"
  by (force simp: eq_commute [of "Some _"])

lemma cpu_files_names: "fst ` set (cpu_files r) \<subseteq> set cpu_names"
proof (cases "lx_CPU r")
  case (Some cpu)
  show ?thesis
    unfolding cpu_files_def Some option.case by (rule order_trans [OF somes_fst2]) (simp add: cpu_table_def cpu_names_def)
qed (simp add: cpu_files_def)

lemma memory_files_names: "fst ` set (memory_create_files r) \<subseteq> set memory_names"
proof (cases "lx_Memory r")
  case (Some mem)
  show ?thesis
    unfolding memory_create_files_def Some option.case memory_files_def
    by (rule order_trans [OF somes_fst]) (simp add: getMemorySettings_def memory_names_def)
qed (simp add: memory_create_files_def)

definition blkio_settings_names :: "string set" where
  "blkio_settings_names = {''weight'', ''leaf_weight'', ''weight_device'', ''leaf_weight_device'', ''throttle.read_bps_device'',
     ''throttle.read_iops_device'', ''throttle.write_bps_device'', ''throttle.write_iops_device''}"

lemma createBlkioSettings_names: "fst ` set (createBlkioSettings b) \<subseteq> blkio_settings_names"
proof -
  have opt: "n \<in> A \<Longrightarrow> fst ` set (case x of None \<Rightarrow> [] | Some v \<Rightarrow> [(n, f v)]) \<subseteq> A" for n A f and x :: "'x option"
    by (cases x) simp_all
  have devs: "n \<in> A \<Longrightarrow> fst ` set (map (\<lambda>td. (n, f td)) ds) \<subseteq> A" for n A f and ds :: "'x list"
    by auto
  have w: "fst ` set (weight_settings wd) \<subseteq> blkio_settings_names" for wd
    unfolding weight_settings_def set_append image_Un by (intro Un_least opt) (simp_all add: blkio_settings_names_def)
  have t: "fst ` set (concat (map (\<lambda>(name, devs). map (\<lambda>td. (name, throttleddev td)) devs) ts)) \<subseteq> fst ` set ts" for ts
    by force
  show ?thesis
    unfolding createBlkioSettings_def set_append image_Un
  proof (intro Un_least opt)
    show "fst ` set (concat (map weight_settings (bio_WeightDevice b))) \<subseteq> blkio_settings_names" using w by fastforce
  qed ((rule order_trans [OF t])?, simp add: blkio_settings_names_def)+
qed

lemma blkio_files_names: "fst ` set (blkio_files r) \<subseteq> set blkio_names"
proof (cases "lx_BlockIO r")
  case (Some b)
  have "fst ` set (blkio_files r) = (\<lambda>n. ''blkio.'' @ n) ` fst ` set (createBlkioSettings b)"
    unfolding blkio_files_def Some by force
  also have "\<dots> \<subseteq> (\<lambda>n. ''blkio.'' @ n) ` blkio_settings_names" by (intro image_mono createBlkioSettings_names)
  also have "\<dots> \<subseteq> set blkio_names" by (simp add: blkio_settings_names_def blkio_names_def)
  finally show ?thesis .
qed (simp add: blkio_files_def)

lemma written_names:
  assumes "updates_of s = Some (dir, files)" and "kv \<in> set (files r)"
  shows "fst kv \<in> set (update_names s)"
  using assms files_names [of r] cpu_files_names [of r] memory_files_names [of r] blkio_files_names [of r] by (cases s) auto

text \<open>Writing one subsystem does not disturb the files of the others.\<close>

lemma others_keep:
  assumes "updatable os good writable c r w s" and "f \<notin> set (update_names s)" and "proper f" and "proper_path ds"
  shows "assign_all (subsystem_writes c r s) (path_join [abs_path ds, f]) = None"
proof (cases "updates_of s")
  case None
  then show ?thesis by (simp add: subsystem_writes_def assign_all_def)
next
  case (Some df)
  obtain dir files where df: "updates_of s = Some (dir, files)" using Some by (cases df) auto
  obtain sp cs where u: "cg_path c (sub_Name s) = Ok sp" "proper_path cs" "dir sp = abs_path cs"
    by (rule updatable_cases [OF assms(1) df])
  have "path_join [abs_path ds, f] \<noteq> path_join [abs_path cs, fst kv]" if kv: "kv \<in> set (files r)" for kv
  proof -
    have "proper (fst kv)" "fst kv \<noteq> f"
      using written_names [OF df kv] update_names_proper [of "fst kv" s] assms(2) by auto
    then show ?thesis using u(2) assms(3,4) by (simp add: abs_path_inj)
  qed
  then have "path_join [abs_path ds, f] \<notin> (\<lambda>kv. path_join [dir sp, fst kv]) ` set (files r)" using u(3) by auto
  then show ?thesis by (simp add: subsystem_writes_def df u(1) assign_all_map_of map_of_eq_None_iff image_image)
qed

lemma cpuset_settled_kept:
  assumes "cpuset_settled os good root path w"
    and "\<And>f ds. f \<in> cpuset_names \<Longrightarrow> proper_path ds \<Longrightarrow> ReadFile os (path_join [abs_path ds, f]) w1 = ReadFile os (path_join [abs_path ds, f]) w"
  shows "cpuset_settled os good root path w1"
proof -
  obtain rs gs where g: "root = abs_path rs" "path = abs_path gs" "gs \<noteq> []" "proper_path (rs @ gs)"
      "\<forall>k \<le> length gs. (\<forall>v. good v \<longrightarrow> os_mkdir_all os (abs_path (rs @ take k gs)) v = (None, v)) \<and>
        (\<forall>f \<in> cpuset_names. \<exists>d. ReadFile os (cpuset_file rs gs k f) w = Ok d \<and> \<not> isEmpty d)"
    using assms(1) unfolding cpuset_settled_def by blast
  have "ReadFile os (cpuset_file rs gs k f) w1 = ReadFile os (cpuset_file rs gs k f) w" if "f \<in> cpuset_names" for k f
    using assms(2) [OF that, of "rs @ take k gs"] g(4) by (auto simp: cpuset_file_def list_all_iff dest: in_set_takeD)
  then show ?thesis using g unfolding cpuset_settled_def by (intro exI [of _ rs] exI [of _ gs]) simp
qed

lemma updatable_kept:
  assumes "updatable os good writable c r w t" and "updatable os good writable c r w s" and "sub_Name s \<noteq> sub_Name t"
    and "\<forall>q. writable q w \<longrightarrow> writable q w1"
    and "\<forall>q. os_open os q w1 = (case assign_all (subsystem_writes c r s) q of Some d \<Rightarrow> Inr (d, None) | None \<Rightarrow> os_open os q w)"
  shows "updatable os good writable c r w1 t"
proof (cases "updates_of t")
  case (Some df)
  obtain dir files where df: "updates_of t = Some (dir, files)" using Some by (cases df) auto
  obtain sp cs where u: "cg_path c (sub_Name t) = Ok sp" "proper_path cs" "dir sp = abs_path cs"
      "\<forall>v. good v \<longrightarrow> os_mkdir_all os (dir sp) v = (None, v)" "\<forall>kv \<in> set (files r). writable (path_join [dir sp, fst kv]) w"
      "sub_Name t = MemoryName \<longrightarrow> (\<exists>v. readUint os (path_join [dir sp, ''memory.limit_in_bytes'']) w = Ok v)"
      "\<forall>root. t = CpusetController root \<longrightarrow> cpuset_settled os good root sp w"
    by (rule updatable_cases [OF assms(1) df])
  have same: "os_open os (path_join [abs_path ds, f]) w1 = os_open os (path_join [abs_path ds, f]) w"
    if "f \<notin> set (update_names s)" "proper f" "proper_path ds" for f ds
    using others_keep [OF assms(2) that] assms(5) by simp
  have "readUint os (path_join [dir sp, ''memory.limit_in_bytes'']) w1 = readUint os (path_join [dir sp, ''memory.limit_in_bytes'']) w"
    if "sub_Name t = MemoryName"
  proof -
    have "''memory.limit_in_bytes'' \<notin> set (update_names s)" using limit_owner(2) [of s] assms(3) that by auto
    from same [OF this _ u(2)] show ?thesis unfolding readUint_def ReadFile_def u(3) by (simp only: proper_def) simp
  qed
  moreover have "cpuset_settled os good root sp w1" if t: "t = CpusetController root" for root
  proof (rule cpuset_settled_kept)
    show "cpuset_settled os good root sp w" using u(7) t by blast
    show "ReadFile os (path_join [abs_path ds, f]) w1 = ReadFile os (path_join [abs_path ds, f]) w"
      if "f \<in> cpuset_names" "proper_path ds" for f ds
    proof -
      have "f \<notin> set (update_names s)" using cpuset_owner [OF that(1), of s] assms(3) t by auto
      moreover have "proper f" using that(1) by (auto simp: proper_def)
      ultimately show ?thesis using same that(2) unfolding ReadFile_def by metis
    qed
  qed
  ultimately show ?thesis
    using u assms(4) unfolding updatable_def df by (simp only: option.case prod.case) (intro exI [of _ sp] exI [of _ cs], auto)
qed (simp add: updatable_def)

lemma group_wrote:
  assumes "disk os good writable" and "distinct (map sub_Name ss)"
    and "\<And>s. s \<in> set ss \<Longrightarrow> updatable os good writable c r w s" and "good w"
  shows "wrote os good writable (for_each (update_one os c (Some r)) ss) w (assign_all (concat (map (subsystem_writes c r) ss)))"
  using assms(2-)
proof (induction ss arbitrary: w)
  case Nil
  then show ?case using wrote_nothing [of good w os writable] by (simp add: wrote_def ret_def)
next
  case (Cons s ss)
  have s: "updatable os good writable c r w s" using Cons.prems by simp
  have "wrote os good writable (seqn (update_one os c (Some r) s) (for_each (update_one os c (Some r)) ss)) w
      (assign_all (subsystem_writes c r s @ concat (map (subsystem_writes c r) ss)))"
  proof (rule wrote_then [OF update_one_wrote [OF assms(1) Cons.prems(3) s]])
    fix w1 assume w1: "good w1" "\<forall>q. writable q w \<longrightarrow> writable q w1"
      "\<forall>q. os_open os q w1 = (case assign_all (subsystem_writes c r s) q of Some d \<Rightarrow> Inr (d, None) | None \<Rightarrow> os_open os q w)"
    show "wrote os good writable (for_each (update_one os c (Some r)) ss) w1 (assign_all (concat (map (subsystem_writes c r) ss)))"
    proof (rule Cons.IH [OF _ _ w1(1)])
      show "updatable os good writable c r w1 t" if t: "t \<in> set ss" for t
        using Cons.prems(1) t by (intro updatable_kept [OF Cons.prems(2) s _ w1(2,3)]) auto
    qed (use Cons.prems in simp)
  qed
  then show ?case by (simp add: wrote_def seqn_def bnd_def)
qed

lemma group_update_reads:
  assumes "disk os good writable" and "good w" and "cg_err c = None" and "distinct (map sub_Name (cg_subsystems c))"
    and "\<And>s. s \<in> set (cg_subsystems c) \<Longrightarrow> updatable os good writable c r w s"
  shows "\<exists>w1. cgroup_Update os c (Some r) w = (Ok (), w1) \<and>
    (\<forall>q. ReadFile os q w1 = (case assign_all (group_writes c r) q of Some d \<Rightarrow> Ok d | None \<Rightarrow> ReadFile os q w))"
proof -
  obtain w1 where w1: "for_each (update_one os c (Some r)) (cg_subsystems c) w = (Ok (), w1)"
      "\<forall>q. os_open os q w1 = (case assign_all (group_writes c r) q of Some d \<Rightarrow> Inr (d, None) | None \<Rightarrow> os_open os q w)"
    using group_wrote [OF assms(1,4,5,2)] unfolding wrote_def group_writes_def by blast
  have "ReadFile os q w1 = (case assign_all (group_writes c r) q of Some d \<Rightarrow> Ok d | None \<Rightarrow> ReadFile os q w)" for q
    using w1(2) by (cases "assign_all (group_writes c r) q") (simp_all add: ReadFile_def)
  then show ?thesis using w1(1) assms(3) unfolding cgroup_Update_def unless_deleted_def by simp
qed

section \<open>A concrete group\<close>

text \<open>A group with a process, a memory and a cpuset controller, its files with zeros in them, and the limits to set.\<close>

definition limited_group :: cgroup where
  "limited_group = \<lparr>cg_path = StaticPath ''/a'', cg_subsystems =
     [PidsController ''/p'', MemoryController \<lparr>mc_root = ''/m'', mc_ignored = []\<rparr>, CpusetController ''/c''], cg_err = None\<rparr>"

definition limits :: LinuxResources where
  "limits = no_resources\<lparr>lx_Pids := Some (Some 7), lx_Memory := Some \<lparr>lm_Limit = Some 100, lm_Reservation = None, lm_Swap = Some 200,
     lm_Kernel = None, lm_KernelTCP = None, lm_Swappiness = None, lm_DisableOOMKiller = None\<rparr>,
     lx_CPU := Some \<lparr>lc_Shares = None, lc_Quota = None, lc_Period = None, lc_RealtimeRuntime = None, lc_RealtimePeriod = None,
       lc_Cpus = ''1'', lc_Mems = []\<rparr>\<rparr>"

definition zero_files :: "string list" where
  "zero_files = [''/c/cpuset.cpus'', ''/c/cpuset.mems'', ''/c/a/cpuset.cpus'', ''/c/a/cpuset.mems'', ''/p/a/pids.current'',
     ''/p/a/pids.max''] @ concat (map (\<lambda>mdl. map (\<lambda>f. ''/m/a/memory.'' @ mdl @ f)
     [''usage_in_bytes'', ''max_usage_in_bytes'', ''failcnt'', ''limit_in_bytes'']) [[], ''memsw.'', ''kmem.'', ''kmem.tcp.''])"

definition zero_disk :: memfs where
  "zero_disk = \<lparr>mem_files = [(''/m/a/memory.stat'', []), (''/m/a/memory.oom_control'', [])] @ map (\<lambda>f. (f, ''0'')) zero_files,
     mem_dirs = [''/'', ''/p'', ''/p/a'', ''/m'', ''/m/a'', ''/c'', ''/c/a''], mem_faults = []\<rparr>"

abbreviation zero_good :: "memfs \<Rightarrow> bool" where
  "zero_good \<equiv> mem_fixed (mem_dirs zero_disk) (set ([''/m/a/memory.stat'', ''/m/a/memory.oom_control''] @ zero_files))"

lemma map_of_const: "map_of (map (\<lambda>f. (f, c)) fs) q = (if q \<in> set fs then Some c else None)"
  by (induction fs) auto

lemma zero_files_other:
  "''/m/a/memory.stat'' \<notin> set zero_files" "''/m/a/memory.oom_control'' \<notin> set zero_files"
  "set (ancestors ''/p/a'') \<inter> set zero_files = {}" "set (ancestors ''/m/a'') \<inter> set zero_files = {}"
  "set (ancestors ''/c/a'') \<inter> set zero_files = {}"
  by (simp_all add: zero_files_def ancestors_def abs_comps_def render_path_def)

lemma zero_disk_good: "zero_good zero_disk"
  by (auto simp: mem_fixed_def zero_disk_def dom_def map_of_const split: if_splits)

lemma zero_disk_read:
  "q \<in> set zero_files \<Longrightarrow> ReadFile mem_os q zero_disk = Ok ''0''"
  "q \<in> {''/m/a/memory.stat'', ''/m/a/memory.oom_control''} \<Longrightarrow> ReadFile mem_os q zero_disk = Ok []"
proof -
  assume "q \<in> set zero_files"
  moreover from this have "q \<noteq> ''/m/a/memory.stat''" "q \<noteq> ''/m/a/memory.oom_control''" using zero_files_other by metis+
  ultimately show "ReadFile mem_os q zero_disk = Ok ''0''"
    by (simp add: zero_disk_def ReadFile_def mem_open_def fault_def map_of_const)
qed (auto simp: zero_disk_def ReadFile_def mem_open_def fault_def)

text \<open>The files of the example, and where its directories and files are.\<close>

abbreviation limited_files :: "string list" where
  "limited_files \<equiv> [''/m/a/memory.stat'', ''/m/a/memory.oom_control''] @ zero_files"

lemma limited_mkdir:
  assumes "p \<in> {''/p/a'', ''/m/a'', ''/c'', ''/c/a''}" and "zero_good v"
  shows "os_mkdir_all mem_os p v = (None, v)"
  using assms(1)
  by (elim insertE emptyE; intro mem_fixed_mkdir [OF assms(2)];
      simp add: zero_disk_def zero_files_def ancestors_def abs_comps_def render_path_def)

lemma limited_cpuset: "cpuset_settled mem_os zero_good ''/c'' ''/a'' zero_disk"
proof -
  have dirs: "abs_path ([''c''] @ take k [''a'']) \<in> {''/c'', ''/c/a''}" for k by (cases k) (simp_all add: render_path_def)
  have mk: "\<forall>v. zero_good v \<longrightarrow> os_mkdir_all mem_os (abs_path ([''c''] @ take k [''a''])) v = (None, v)" for k
    using dirs [of k] by (intro allI impI limited_mkdir) auto
  have file_in: "cpuset_file [''c''] [''a''] k f \<in> set zero_files" if "f \<in> cpuset_names" for k f
    using that dirs [of k] by (auto simp only: cpuset_file_def) (simp_all add: zero_files_def path_eval)
  have vals: "\<forall>f \<in> cpuset_names. \<exists>d. ReadFile mem_os (cpuset_file [''c''] [''a''] k f) zero_disk = Ok d \<and> \<not> isEmpty d" for k
  proof (rule ballI)
    fix f assume "f \<in> cpuset_names"
    moreover have "\<not> isEmpty ''0''" by code_simp
    ultimately show "\<exists>d. ReadFile mem_os (cpuset_file [''c''] [''a''] k f) zero_disk = Ok d \<and> \<not> isEmpty d"
      using zero_disk_read(1) [OF file_in] by blast
  qed
  have "''/c'' = abs_path [''c'']" "''/a'' = abs_path [''a'']" "proper_path ([''c''] @ [''a''])" by (simp_all add: proper_def render_path_def)
  then show ?thesis using mk vals unfolding cpuset_settled_def by blast
qed

lemma limited_updatable:
  assumes "s \<in> set (cg_subsystems limited_group)"
  shows "updatable mem_os zero_good (\<lambda>p w. p \<in> set limited_files) limited_group limits zero_disk s"
proof -
  have cg: "cg_path limited_group n = Ok ''/a''" for n by (simp add: limited_group_def StaticPath_def)
  have dir: "pids_Path ''/p'' ''/a'' = ''/p/a''" "memory_Path \<lparr>mc_root = ''/m'', mc_ignored = []\<rparr> ''/a'' = ''/m/a''"
    "cpuset_Path ''/c'' ''/a'' = ''/c/a''"
    by (simp_all add: pids_Path_def memory_Path_def cpuset_Path_def path_eval)
  have path: "proper_path [x, ''a''] \<and> ''/'' @ x @ ''/a'' = abs_path [x, ''a'']" if "x \<in> {''p'', ''m'', ''c''}" for x
    using that by (auto simp: proper_def render_path_def)
  have files: "\<forall>kv \<in> set (pids_files limits). path_join [''/p/a'', fst kv] \<in> set limited_files"
      "\<forall>kv \<in> set (memory_create_files limits). path_join [''/m/a'', fst kv] \<in> set limited_files"
      "\<forall>kv \<in> set (cpuset_update_files limits). path_join [''/c/a'', fst kv] \<in> set limited_files"
    by (simp_all add: limits_def zero_files_def pids_files_def memory_create_files_def memory_files_def getMemorySettings_def
        getOomControlValue_def cpuset_update_files_def cpuset_files_def path_eval)
  have "ReadFile mem_os (path_join [''/m/a'', ''memory.limit_in_bytes'']) zero_disk = Ok (FormatUint 0)"
    by (subst zero_disk_read(1)) (simp_all add: zero_files_def print_eval path_eval)
  then have limit: "\<exists>v. readUint mem_os (path_join [''/m/a'', ''memory.limit_in_bytes'']) zero_disk = Ok v"
    by (intro exI) (rule readUint_FormatUint)
  consider "s = PidsController ''/p''" | "s = MemoryController \<lparr>mc_root = ''/m'', mc_ignored = []\<rparr>" | "s = CpusetController ''/c''"
    using assms by (auto simp: limited_group_def)
  then show ?thesis
  proof cases
    case 1
    show ?thesis
      unfolding updatable_def 1 updates_of.simps settings_of.simps option.case prod.case
      by (intro exI [of _ "''/a''"] exI [of _ "[''p'', ''a'']"] conjI)
        (use files(1) path [of "''p''"] limited_mkdir [of "''/p/a''"] in \<open>simp_all only: cg dir, simp_all add: name_defs\<close>)
  next
    case 2
    show ?thesis
      unfolding updatable_def 2 updates_of.simps settings_of.simps option.case prod.case
      by (intro exI [of _ "''/a''"] exI [of _ "[''m'', ''a'']"] conjI)
        (use files(2) limit path [of "''m''"] limited_mkdir [of "''/m/a''"] in \<open>simp_all only: cg dir, simp_all\<close>)
  next
    case 3
    show ?thesis
      unfolding updatable_def 3 updates_of.simps option.case prod.case
      by (intro exI [of _ "''/a''"] exI [of _ "[''c'', ''a'']"] conjI)
        (use files(3) limited_cpuset path [of "''c''"] limited_mkdir [of "''/c/a''"] in \<open>simp_all only: cg dir, simp_all add: name_defs\<close>)
  qed
qed

lemma limited_writes: "group_writes limited_group limits =
    [(''/p/a/pids.max'', ''7''), (''/m/a/memory.limit_in_bytes'', ''100''), (''/m/a/memory.memsw.limit_in_bytes'', ''200''),
     (''/c/a/cpuset.cpus'', ''1'')]"
  by (simp add: group_writes_def subsystem_writes_def limited_group_def limits_def StaticPath_def pids_Path_def memory_Path_def cpuset_Path_def
      path_eval cpuset_update_files_def cpuset_files_def pids_files_def memory_create_files_def memory_files_def getMemorySettings_def getOomControlValue_def print_eval)

lemma limited_distinct: "cg_err limited_group = None" "distinct (map sub_Name (cg_subsystems limited_group))"
  by (simp_all add: limited_group_def name_defs)

section \<open>Properties\<close>

text \<open>C7: Updating a group whose directories exist, whose files can be written and whose cpuset, where it has one,
  has values at every level from the root down: the call succeeds, every file then holds the last value that the resources ask for in the order of the subsystems, whichever order the memory
  controller chooses for its limits, and every other file of the system is as before.\<close>

theorem group_update_read_back:
  assumes "disk os good writable" and "good w" and "cg_err c = None" and "distinct (map sub_Name (cg_subsystems c))"
    and "\<And>s. s \<in> set (cg_subsystems c) \<Longrightarrow> updatable os good writable c r w s"
  shows "\<exists>w1. cgroup_Update os c (Some r) w = (Ok (), w1) \<and>
    (\<forall>q. ReadFile os q w1 = (case assign_all (group_writes c r) q of Some d \<Rightarrow> Ok d | None \<Rightarrow> ReadFile os q w))"
  by (rule group_update_reads [OF assms])

theorem group_update_read_back_witness:
  "\<exists>w1. cgroup_Update mem_os limited_group (Some limits) zero_disk = (Ok (), w1) \<and> ReadFile mem_os ''/m/a/memory.limit_in_bytes'' w1 = Ok ''100''
     \<and> ReadFile mem_os ''/c/a/cpuset.cpus'' w1 = Ok ''1'' \<and> ReadFile mem_os ''/m/a/memory.failcnt'' w1 = Ok ''0''"
proof -
  from group_update_read_back [OF mem_fixed_disk zero_disk_good limited_distinct limited_updatable]
  obtain w1 where "cgroup_Update mem_os limited_group (Some limits) zero_disk = (Ok (), w1)"
      "\<forall>q. ReadFile mem_os q w1 = (case assign_all (group_writes limited_group limits) q of Some d \<Rightarrow> Ok d | None \<Rightarrow> ReadFile mem_os q zero_disk)"
    by blast
  then show ?thesis using zero_disk_read(1) [of "''/m/a/memory.failcnt''"] by (auto simp: limited_writes assign_all_def zero_files_def)
qed

end
