(* ===== verification/V1Limits.thy ===== *)
theory V1Limits
  imports V1Update
begin

text \<open>
  What the statistics of a group of version 1 report after an update. The part of the message that one controller
  fills survives the goroutines of the others (\<open>cgroup_Stat_part\<close>), so the limits can be followed from the
  resources through the files (theory V1Update) into the message.
\<close>

section \<open>Reading a limit back\<close>

text \<open>What a file holds that only one subsystem writes, and only with one value.\<close>

lemma group_writes_at:
  assumes "distinct (map sub_Name (cg_subsystems c))" and "\<And>t. t \<in> set (cg_subsystems c) \<Longrightarrow> updatable os good writable c r w t"
    and "s \<in> set (cg_subsystems c)" and "updates_of s = Some (dir, files)" and "cg_path c (sub_Name s) = Ok sp"
    and "(f, d) \<in> set (files r)" and "\<And>d'. (f, d') \<in> set (files r) \<Longrightarrow> d' = d"
    and "\<And>t. f \<in> set (update_names t) \<Longrightarrow> sub_Name t = sub_Name s"
  shows "assign_all (group_writes c r) (path_join [dir sp, f]) = Some d"
proof -
  obtain cs where cs: "proper_path cs" "dir sp = abs_path cs"
    using updatable_cases [OF assms(2) [OF assms(3)] assms(4)] assms(5) by (metis outcome.inject(1))
  have f: "proper f" using written_names [OF assms(4,6)] update_names_proper by auto
  have "(path_join [dir sp, f], d) \<in> set (subsystem_writes c r s)" using assms(4-6) by (force simp: subsystem_writes_def)
  then have in0: "(path_join [dir sp, f], d) \<in> set (rev (group_writes c r))" using assms(3) by (auto simp: group_writes_def)
  have "d' = d" if d': "(path_join [dir sp, f], d') \<in> set (rev (group_writes c r))" for d'
  proof -
    obtain t where t: "t \<in> set (cg_subsystems c)" "(path_join [dir sp, f], d') \<in> set (subsystem_writes c r t)"
      using d' by (auto simp: group_writes_def)
    obtain dir1 files1 where up: "updates_of t = Some (dir1, files1)"
      using t(2) by (cases "updates_of t") (auto simp: subsystem_writes_def)
    obtain sp1 cs1 where u: "cg_path c (sub_Name t) = Ok sp1" "proper_path cs1" "dir1 sp1 = abs_path cs1"
      by (rule updatable_cases [OF assms(2) [OF t(1)] up])
    obtain f1 where f1: "(f1, d') \<in> set (files1 r)" "path_join [dir sp, f] = path_join [dir1 sp1, f1]"
      using t(2) up u(1) by (auto simp: subsystem_writes_def)
    have "proper f1" using written_names [OF up f1(1)] update_names_proper by auto
    then have "f1 = f" using f1(2) f cs u(2,3) by (simp add: abs_path_inj)
    then have "sub_Name t = sub_Name s" using assms(8) [of t] written_names [OF up f1(1)] by simp
    then have "t = s" using assms(1,3) t(1) by (auto simp: distinct_map inj_on_def)
    then show ?thesis using up assms(4,7) f1(1) \<open>f1 = f\<close> by simp
  qed
  then show ?thesis unfolding assign_all_map_of by (rule map_of_only [OF in0])
qed

section \<open>A part of the message in any order\<close>

text \<open>A part of the message that only the subsystem of one name touches has at the end the value that this
  subsystem gave it.\<close>

lemma stater_keeps:
  assumes "as_stater os s = Some st" and "st sp w m = (r, m1)" and "mt1_CPU m \<noteq> None"
  shows "mt1_CPU m1 \<noteq> None" and "sub_Name s \<noteq> PidsName \<Longrightarrow> mt1_Pids m1 = mt1_Pids m"
    and "sub_Name s \<noteq> MemoryName \<Longrightarrow> mt1_Memory m1 = mt1_Memory m"
proof -
  obtain F where F: "F \<in> slot_of s" "m1 = F m" using stater_owns [OF assms(1), of sp w] assms(2,3) unfolding owns_def by force
  show "mt1_CPU m1 \<noteq> None" using slot_keeps_cpu [OF F(1) assms(3)] F(2) by simp
  show "mt1_Pids m1 = mt1_Pids m" if "sub_Name s \<noteq> PidsName"
    using F that by (cases s) (auto simp: throttling_update_def usage_update_def memory_update_def split: prod.splits)
  show "mt1_Memory m1 = mt1_Memory m" if "sub_Name s \<noteq> MemoryName"
    using F that by (cases s) (auto simp: throttling_update_def usage_update_def memory_update_def split: prod.splits)
qed

lemma stat_job_passed:
  assumes "fold (stat_job os [errPassthrough] w) jobs (Ok errs, m) = (Ok [], m1)"
  shows "errs = []"
proof -
  have "\<exists>errs1. fst (fold (stat_job os [errPassthrough] w) jobs (Ok errs, m)) = Panic \<or>
      fst (fold (stat_job os [errPassthrough] w) jobs (Ok errs, m)) = Ok (errs @ errs1)" for errs m
  proof (induction jobs arbitrary: errs m)
    case (Cons job jobs)
    obtain s sp where job: "job = (s, sp)" by (cases job)
    obtain x m2 where x: "stat_job os [errPassthrough] w job (Ok errs, m) = (x, m2)" by fastforce
    then have "x = Panic \<or> (\<exists>e. x = Ok (errs @ e))"
      by (auto simp: stat_job_def job split: option.splits prod.splits outcome.splits)
    then show ?case using Cons.IH [of _ m2] by (auto simp: x fold_Panic) (metis append.assoc)
  qed simp
  then show ?thesis using assms by (metis append_is_Nil_conv fst_conv outcome.distinct(3) outcome.inject(1))
qed

lemma fold_part:
  assumes keeps: "\<And>s st sp m r m1. as_stater os s = Some st \<Longrightarrow> st sp w m = (r, m1) \<Longrightarrow> mt1_CPU m \<noteq> None \<Longrightarrow> sub_Name s \<noteq> n \<Longrightarrow> p m1 = p m"
    and "fold (stat_job os [errPassthrough] w) jobs (Ok [], m) = (Ok [], m1)" and "mt1_CPU m \<noteq> None"
    and "distinct (map (sub_Name \<circ> fst) jobs)" and "\<And>job. job \<in> set jobs \<Longrightarrow> as_stater os (fst job) \<noteq> None"
  shows "(n \<notin> (sub_Name \<circ> fst) ` set jobs \<longrightarrow> p m1 = p m) \<and>
    (\<forall>s sp st. (s, sp) \<in> set jobs \<longrightarrow> sub_Name s = n \<longrightarrow> as_stater os s = Some st \<longrightarrow>
       (\<exists>ma mb. mt1_CPU ma \<noteq> None \<and> st sp w ma = (Ok (), mb) \<and> p m1 = p mb))"
  using assms(2-)
proof (induction jobs arbitrary: m)
  case (Cons job jobs)
  obtain s sp where job: "job = (s, sp)" by (cases job)
  obtain st where st: "as_stater os s = Some st" using Cons.prems(4) [of job] by (auto simp: job)
  obtain r m2 where r: "st sp w m = (r, m2)" by fastforce
  have m2: "mt1_CPU m2 \<noteq> None" by (rule stater_keeps(1) [OF st r Cons.prems(2)])
  have ok: "r = Ok ()"
  proof (cases r)
    case (Err e)
    then have "stat_job os [errPassthrough] w job (Ok [], m) = (Ok [e], m2)" by (simp add: stat_job_def job st r errPassthrough_def)
    then have "fold (stat_job os [errPassthrough] w) jobs (Ok [e], m2) = (Ok [], m1)" using Cons.prems(1) by simp
    then show ?thesis using stat_job_passed by fastforce
  next
    case Panic
    then have "stat_job os [errPassthrough] w job (Ok [], m) = (Panic, m2)" by (simp add: stat_job_def job st r)
    then show ?thesis using Cons.prems(1) by (simp add: fold_Panic)
  qed simp
  then have "stat_job os [errPassthrough] w job (Ok [], m) = (Ok [], m2)" by (simp add: stat_job_def job st r)
  then have rest: "fold (stat_job os [errPassthrough] w) jobs (Ok [], m2) = (Ok [], m1)" using Cons.prems(1) by simp
  have IH: "(n \<notin> (sub_Name \<circ> fst) ` set jobs \<longrightarrow> p m1 = p m2) \<and>
    (\<forall>s sp st. (s, sp) \<in> set jobs \<longrightarrow> sub_Name s = n \<longrightarrow> as_stater os s = Some st \<longrightarrow>
       (\<exists>ma mb. mt1_CPU ma \<noteq> None \<and> st sp w ma = (Ok (), mb) \<and> p m1 = p mb))"
    using Cons.prems(3,4) by (intro Cons.IH [OF rest m2]) auto
  have here: "\<exists>ma mb. mt1_CPU ma \<noteq> None \<and> st sp w ma = (Ok (), mb) \<and> p m1 = p mb" if "sub_Name s = n"
  proof -
    have "p m1 = p m2" using IH Cons.prems(3) that by (simp add: job)
    then show ?thesis using r ok Cons.prems(2) by blast
  qed
  have skip: "p m2 = p m" if "sub_Name s \<noteq> n" by (rule keeps [OF st r Cons.prems(2) that])
  show ?case using IH here skip st by (auto simp: job)
qed simp


section \<open>The limits in the message\<close>

lemma pids_Stat_limit:
  assumes "pids_Stat os root sp w m = (Ok (), m1)" and "readUint os (path_join [pids_Path root sp, ''pids.max'']) w = Ok n"
  shows "\<exists>p. mt1_Pids m1 = Some p \<and> p1_Limit p = n"
  using assms by (auto simp: pids_Stat_def bnd_eq_Ok)

text \<open>The files of one module fill one entry; the limit is the last of them.\<close>

definition entry_step :: "'w os \<Rightarrow> 'w \<Rightarrow> (string \<Rightarrow> string) \<Rightarrow> ((MemoryEntry \<Rightarrow> MemoryEntry) \<Rightarrow> MemoryStat1 \<Rightarrow> MemoryStat1) \<Rightarrow>
    string \<times> (u64 \<Rightarrow> MemoryEntry \<Rightarrow> MemoryEntry) \<Rightarrow> stat" where
  "entry_step os w pth entry t = (case t of (name, val) \<Rightarrow> bnd (lift_out (readUint os (pth name) w)) (\<lambda>v s.
     (Ok (), s\<lparr>mt1_Memory := map_option (entry (val v)) (mt1_Memory s)\<rparr>)))"

lemma entry_step_Ok:
  "entry_step os w pth entry (name, val) m = (Ok (), m1) \<longleftrightarrow> (\<exists>v. readUint os (pth name) w = Ok v \<and>
     m1 = m\<lparr>mt1_Memory := map_option (entry (val v)) (mt1_Memory m)\<rparr>)"
  by (auto simp: entry_step_def bnd_eq_Ok)

lemma for_each_Cons_Ok: "for_each f (x # xs) w = (Ok (), w1) \<longleftrightarrow> (\<exists>v. f x w = (Ok (), v) \<and> for_each f xs v = (Ok (), w1))"
  by (auto split: prod.splits outcome.splits)

lemma for_each_snoc_Ok: "for_each f (xs @ [x]) w = (Ok (), w1) \<longleftrightarrow> (\<exists>v. for_each f xs w = (Ok (), v) \<and> f x v = (Ok (), w1))"
  by (auto simp: for_each_append split: prod.splits outcome.splits)

lemma memory_module_step:
  "module \<notin> set (mc_ignored mc) \<Longrightarrow> memory_module os mc sp w (module, entry) = for_each (entry_step os w
     (\<lambda>name. path_join [memory_Path mc sp, join ([''memory''] @ (if module \<noteq> [] then [module] else []) @ [name]) ''.'']) entry) entry_files"
  unfolding memory_module_def entry_step_def [abs_def] by simp

lemma entry_loop_keeps:
  assumes "\<And>g x. \<pi> (entry g x) = \<pi> x"
  shows "for_each (entry_step os w pth entry) ts m = (Ok (), m1) \<Longrightarrow> map_option \<pi> (mt1_Memory m1) = map_option \<pi> (mt1_Memory m)"
proof (induction ts arbitrary: m)
  case (Cons t ts)
  obtain name val where t: "t = (name, val)" by (cases t)
  obtain v where "for_each (entry_step os w pth entry) ts (m\<lparr>mt1_Memory := map_option (entry (val v)) (mt1_Memory m)\<rparr>) = (Ok (), m1)"
    using Cons.prems unfolding for_each_Cons_Ok t entry_step_Ok by auto
  from Cons.IH [OF this] show ?case using assms by (simp add: option.map_comp comp_def)
qed simp

lemma entry_files_snoc: "entry_files = butlast entry_files @ [(''limit_in_bytes'', \<lambda>v e. e\<lparr>me_Limit := v\<rparr>)]"
  by (simp add: entry_files_def)

lemma entry_loop_limit:
  assumes "\<And>g x. sel (entry g x) = g (sel x)" and "readUint os (pth ''limit_in_bytes'') w = Ok v"
    and "for_each (entry_step os w pth entry) entry_files m = (Ok (), m1)"
  shows "map_option (me_Limit \<circ> sel) (mt1_Memory m1) = map_option (\<lambda>_. v) (mt1_Memory m)"
proof -
  obtain m2 where m2: "for_each (entry_step os w pth entry) (butlast entry_files) m = (Ok (), m2)"
      "m1 = m2\<lparr>mt1_Memory := map_option (entry (me_Limit_update (\<lambda>_. v))) (mt1_Memory m2)\<rparr>"
    using assms(3) by (subst (asm) entry_files_snoc) (auto simp only: for_each_snoc_Ok entry_step_Ok assms(2) outcome.inject)
  have "map_option (\<lambda>_. v) (mt1_Memory m2) = map_option (\<lambda>_. v) (mt1_Memory m)" by (rule entry_loop_keeps [OF _ m2(1)]) simp
  then show ?thesis using assms(1) m2(2) by (simp add: option.map_comp comp_def)
qed

lemma memory_module_keeps:
  assumes "memory_module os mc sp w (module, entry) m = (Ok (), m1)" and "\<And>g x. \<pi> (entry g x) = \<pi> x"
  shows "map_option \<pi> (mt1_Memory m1) = map_option \<pi> (mt1_Memory m)"
proof (cases "module \<in> set (mc_ignored mc)")
  case True
  then show ?thesis using assms(1) by (simp add: memory_module_def)
next
  case False
  show ?thesis by (rule entry_loop_keeps [where \<pi> = \<pi>, OF assms(2) assms(1) [unfolded memory_module_step [OF False]]])
qed

lemma memory_module_limit:
  assumes "memory_module os mc sp w (module, entry) m = (Ok (), m1)" and "module \<notin> set (mc_ignored mc)"
    and "\<And>g x. sel (entry g x) = g (sel x)"
    and "readUint os (path_join [memory_Path mc sp, join ([''memory''] @ (if module \<noteq> [] then [module] else []) @ [''limit_in_bytes'']) ''.'']) w = Ok v"
  shows "map_option (me_Limit \<circ> sel) (mt1_Memory m1) = map_option (\<lambda>_. v) (mt1_Memory m)"
  by (rule entry_loop_limit [where sel = sel, OF assms(3) _ assms(1) [unfolded memory_module_step [OF assms(2)]]]) (rule assms(4))

lemma memory_Stat_limits:
  assumes "memory_Stat os mc sp w m = (Ok (), m1)" and "[] \<notin> set (mc_ignored mc)" and "''memsw'' \<notin> set (mc_ignored mc)"
    and "readUint os (path_join [memory_Path mc sp, ''memory.limit_in_bytes'']) w = Ok l"
    and "readUint os (path_join [memory_Path mc sp, ''memory.memsw.limit_in_bytes'']) w = Ok sw"
  shows "\<exists>st. mt1_Memory m1 = Some st \<and> me_Limit (m1_Usage st) = l \<and> me_Limit (m1_Swap st) = sw"
proof -
  obtain st oom where "for_each (memory_module os mc sp w) memory_modules (m\<lparr>mt1_Memory := Some st, mt1_MemoryOomControl := Some oom\<rparr>) = (Ok (), m1)"
    using assms(1) unfolding memory_Stat_def by (auto simp: Let_def split: sum.splits outcome.splits)
  then obtain a where a: "mt1_Memory a = Some st" "for_each (memory_module os mc sp w) memory_modules a = (Ok (), m1)" by force
  obtain b c d where chain: "memory_module os mc sp w ([], m1_Usage_update) a = (Ok (), b)"
      "memory_module os mc sp w (''memsw'', m1_Swap_update) b = (Ok (), c)"
      "memory_module os mc sp w (''kmem'', m1_Kernel_update) c = (Ok (), d)"
      "memory_module os mc sp w (''kmem.tcp'', m1_KernelTCP_update) d = (Ok (), m1)"
    using a(2) unfolding memory_modules_def for_each_Cons_Ok by auto
  let ?u = "me_Limit \<circ> m1_Usage" and ?s = "me_Limit \<circ> m1_Swap"
  have "map_option ?u (mt1_Memory b) = map_option (\<lambda>_. l) (mt1_Memory a)"
    by (rule memory_module_limit [OF chain(1) assms(2)]) (use assms(4) in simp_all)
  moreover have "map_option ?u (mt1_Memory c) = map_option ?u (mt1_Memory b)" by (rule memory_module_keeps [OF chain(2)]) simp
  moreover have "map_option ?u (mt1_Memory d) = map_option ?u (mt1_Memory c)" by (rule memory_module_keeps [OF chain(3)]) simp
  moreover have "map_option ?u (mt1_Memory m1) = map_option ?u (mt1_Memory d)" by (rule memory_module_keeps [OF chain(4)]) simp
  ultimately have u: "map_option ?u (mt1_Memory m1) = Some l" using a(1) by simp
  have "map_option (\<lambda>_. sw) (mt1_Memory b) = map_option (\<lambda>_. sw) (mt1_Memory a)" by (rule memory_module_keeps [OF chain(1)]) simp
  moreover have "map_option ?s (mt1_Memory c) = map_option (\<lambda>_. sw) (mt1_Memory b)"
    by (rule memory_module_limit [OF chain(2) assms(3)]) (use assms(5) in simp_all)
  moreover have "map_option ?s (mt1_Memory d) = map_option ?s (mt1_Memory c)" by (rule memory_module_keeps [OF chain(3)]) simp
  moreover have "map_option ?s (mt1_Memory m1) = map_option ?s (mt1_Memory d)" by (rule memory_module_keeps [OF chain(4)]) simp
  ultimately have "map_option ?s (mt1_Memory m1) = Some sw" using a(1) by simp
  with u show ?thesis by auto
qed


lemma stat_jobs_member: "stat_jobs os c ss = Ok jobs \<Longrightarrow> s \<in> set ss \<Longrightarrow> as_stater os s \<noteq> None \<Longrightarrow> cg_path c (sub_Name s) = Ok sp \<Longrightarrow> (s, sp) \<in> set jobs"
  by (induction ss arbitrary: jobs) (auto simp: bind_out_eq_Ok split: option.splits)

text \<open>Statistics that come without an error have the part of one subsystem as its method leaves it.\<close>

lemma cgroup_Stat_part:
  assumes keeps: "\<And>s st sp m r m1. as_stater os s = Some st \<Longrightarrow> st sp w m = (r, m1) \<Longrightarrow> mt1_CPU m \<noteq> None \<Longrightarrow> sub_Name s \<noteq> n \<Longrightarrow> p m1 = p m"
    and "cgroup_Stat os c [] order w = Some (Ok mt)" and "\<And>jobs. mset (order jobs) = mset jobs" and "distinct (map sub_Name (cg_subsystems c))"
    and "s \<in> set (cg_subsystems c)" and "as_stater os s = Some st" and "cg_path c (sub_Name s) = Ok sp" and "sub_Name s = n"
  shows "\<exists>ma mb. st sp w ma = (Ok (), mb) \<and> p mt = p mb"
proof -
  have err: "cg_err c = None" using assms(2) by (cases "cg_err c") (auto simp: cgroup_Stat_def)
  obtain jobs where jobs: "stat_jobs os c (cg_subsystems c) = Ok jobs"
    using assms(2) err by (cases "stat_jobs os c (cg_subsystems c)") (auto simp: cgroup_Stat_def)
  have run: "fold (stat_job os [errPassthrough] w) (order jobs) (Ok [], stats0) = (Ok [], mt)"
    using assms(2) err jobs by (auto simp: cgroup_Stat_def split: prod.splits outcome.splits list.splits if_splits)
  have ms: "set (order jobs) = set jobs" by (rule mset_eq_setD [OF assms(3)])
  have "distinct (map (sub_Name \<circ> fst) jobs)" by (rule stat_jobs_distinct [OF jobs assms(4)])
  then have dist: "distinct (map (sub_Name \<circ> fst) (order jobs))"
    using mset_eq_imp_distinct_iff [of "map (sub_Name \<circ> fst) (order jobs)" "map (sub_Name \<circ> fst) jobs"] assms(3) by simp
  have "(n \<notin> (sub_Name \<circ> fst) ` set (order jobs) \<longrightarrow> p mt = p stats0) \<and>
    (\<forall>s sp st. (s, sp) \<in> set (order jobs) \<longrightarrow> sub_Name s = n \<longrightarrow> as_stater os s = Some st \<longrightarrow>
       (\<exists>ma mb. mt1_CPU ma \<noteq> None \<and> st sp w ma = (Ok (), mb) \<and> p mt = p mb))"
  proof (rule fold_part [OF _ run _ dist])
    show "p m1 = p m" if "as_stater os s = Some st" "st sp w m = (r, m1)" "mt1_CPU m \<noteq> None" "sub_Name s \<noteq> n" for s st sp m r m1
      by (rule keeps [OF that])
    show "as_stater os (fst job) \<noteq> None" if "job \<in> set (order jobs)" for job
      using stat_jobs_members [OF jobs, of "fst job" "snd job"] that ms by simp
  qed (simp add: stats0_def)
  moreover have "(s, sp) \<in> set (order jobs)" using stat_jobs_member [OF jobs assms(5) _ assms(7)] assms(6) ms by simp
  ultimately show ?thesis using assms(6,8) by blast
qed

lemma somes_members:
  "x \<in> set (somes (map (\<lambda>(n, y). map_option (\<lambda>v. (f n, g v)) y) ts)) \<longleftrightarrow> (\<exists>n v. (n, Some v) \<in> set ts \<and> x = (f n, g v))"
  by (force simp: eq_commute [of "Some x"])

lemma memory_files_value:
  assumes "lx_Memory r = Some mem"
  shows "(''memory.'' @ n, d) \<in> set (memory_create_files r) \<longleftrightarrow> (\<exists>v. (n, Some v) \<in> set (getMemorySettings mem) \<and> d = FormatInt v)"
  unfolding memory_create_files_def memory_files_def assms option.case somes_members by auto

lemma memory_limit_files:
  assumes "lx_Memory r = Some mem"
  shows "lm_Limit mem = Some l \<Longrightarrow> (''memory.limit_in_bytes'', d) \<in> set (memory_create_files r) \<longleftrightarrow> d = FormatInt l"
    and "lm_Swap mem = Some sw \<Longrightarrow> (''memory.memsw.limit_in_bytes'', d) \<in> set (memory_create_files r) \<longleftrightarrow> d = FormatInt sw"
  using memory_files_value [OF assms, of "''limit_in_bytes''" d] memory_files_value [OF assms, of "''memsw.limit_in_bytes''" d]
  by (auto simp: getMemorySettings_def)

section \<open>The concrete group\<close>

lemma limited_reads:
  assumes "cgroup_Update mem_os limited_group (Some limits) zero_disk = (Ok (), w1)"
  shows "ReadFile mem_os q w1 = (case assign_all (group_writes limited_group limits) q of Some d \<Rightarrow> Ok d | None \<Rightarrow> ReadFile mem_os q zero_disk)"
  using group_update_reads [OF mem_fixed_disk zero_disk_good limited_distinct limited_updatable] assms by auto

lemma limited_at: "assign_all (group_writes limited_group limits) q =
    (if q = ''/c/a/cpuset.cpus'' then Some ''1'' else if q = ''/m/a/memory.memsw.limit_in_bytes'' then Some ''200''
     else if q = ''/m/a/memory.limit_in_bytes'' then Some ''100'' else if q = ''/p/a/pids.max'' then Some ''7'' else None)"
  by (simp add: limited_writes assign_all_def)

lemma limited_numbers:
  assumes "cgroup_Update mem_os limited_group (Some limits) zero_disk = (Ok (), w1)" and "q \<in> set zero_files"
  shows "\<exists>v. readUint mem_os q w1 = Ok v"
proof -
  have "FormatUint 0 = ''0''" "FormatUint 1 = ''1''" "FormatUint 7 = ''7''" "FormatUint 100 = ''100''" "FormatUint 200 = ''200''"
    by (simp_all add: print_eval)
  then have num: "\<exists>v. d = FormatUint v" if "d \<in> {''0'', ''1'', ''7'', ''100'', ''200''}" for d using that by (metis insertE emptyE)
  have "\<exists>d. ReadFile mem_os q w1 = Ok d \<and> d \<in> {''0'', ''1'', ''7'', ''100'', ''200''}"
    using zero_disk_read(1) [OF assms(2)] unfolding limited_reads [OF assms(1)] limited_at by simp
  then show ?thesis using num by (metis readUint_FormatUint)
qed

text \<open>A loop whose steps all succeed succeeds.\<close>

lemma for_each_total:
  assumes "\<And>x v. x \<in> set xs \<Longrightarrow> \<exists>v1. f x v = (Ok (), v1)" shows "\<exists>w1. for_each f xs w = (Ok (), w1)"
  using assms
proof (induction xs arbitrary: w)
  case (Cons x xs)
  obtain v where "f x w = (Ok (), v)" using Cons.prems [of x w] by auto
  moreover obtain w1 where "for_each f xs v = (Ok (), w1)" using Cons.IH [of v] Cons.prems by auto
  ultimately show ?case by simp
qed simp

lemma limited_memory:
  assumes "cgroup_Update mem_os limited_group (Some limits) zero_disk = (Ok (), w1)"
  shows "\<exists>m1. memory_Stat mem_os \<lparr>mc_root = ''/m'', mc_ignored = []\<rparr> ''/a'' w1 m = (Ok (), m1)"
proof -
  let ?mc = "\<lparr>mc_root = ''/m'', mc_ignored = []\<rparr>"
  have p: "memory_Path ?mc ''/a'' = ''/m/a''" by (simp add: memory_Path_def path_eval)
  have join: "path_join [''/m/a'', f] = ''/m/a/'' @ f" if "proper f" for f
    using path_join_proper [of "[''m'', ''a'']" f] that by (simp add: proper_def render_path_def)
  have "list_all (\<lambda>t. list_all (\<lambda>f. proper (join ([''memory''] @ (if fst t \<noteq> [] then [fst t] else []) @ [fst f]) ''.'') \<and>
      ''/m/a/'' @ join ([''memory''] @ (if fst t \<noteq> [] then [fst t] else []) @ [fst f]) ''.'' \<in> set zero_files) entry_files) memory_modules"
    by (simp add: memory_modules_def entry_files_def zero_files_def proper_def)
  then have files: "\<exists>v. readUint mem_os (path_join [''/m/a'', join ([''memory''] @ (if fst t \<noteq> [] then [fst t] else []) @ [fst f]) ''.'']) w1 = Ok v"
    if "t \<in> set memory_modules" "f \<in> set entry_files" for t f
    using that limited_numbers [OF assms] by (simp only: list_all_iff join)
  have modules: "\<exists>v1. memory_module mem_os ?mc ''/a'' w1 t v = (Ok (), v1)" if t: "t \<in> set memory_modules" for t v
  proof -
    obtain mdl entry where te: "t = (mdl, entry)" by (cases t)
    have "\<exists>v1. entry_step mem_os w1 (\<lambda>name. path_join [memory_Path ?mc ''/a'', join ([''memory''] @ (if mdl \<noteq> [] then [mdl] else []) @ [name]) ''.'']) entry f v
        = (Ok (), v1)" if "f \<in> set entry_files" for f v
      using files [OF t that] unfolding p te by (cases f) (auto simp: entry_step_def bnd_def)
    then show ?thesis unfolding te by (subst memory_module_step) (auto intro: for_each_total)
  qed
  have other: "ReadFile mem_os q w1 = Ok []" if "q \<in> {''/m/a/memory.stat'', ''/m/a/memory.oom_control''}" for q
    using limited_reads [OF assms] zero_disk_read(2) [OF that] that by (auto simp: limited_writes assign_all_def)
  have "os_open mem_os (path_join [''/m/a'', ''memory.stat'']) w1 = Inr ([], None)"
    "os_open mem_os (path_join [''/m/a'', ''memory.oom_control'']) w1 = Inr ([], None)"
    by (intro ReadFile_open; simp add: path_eval other)+
  moreover have "parse_counters numbered ([], None) = Ok []"
    by (simp add: parse_counters_def scan_lines_def raw_lines_def)
  ultimately show ?thesis
    using for_each_total [of memory_modules, OF modules] unfolding memory_Stat_def p
    by (simp add: parseStats_def parseOomControlStats_def Let_def)
qed

lemma limited_stat:
  assumes "cgroup_Update mem_os limited_group (Some limits) zero_disk = (Ok (), w1)"
  shows "\<exists>m. cgroup_Stat mem_os limited_group [] rev w1 = Some (Ok m)"
proof -
  obtain m1 where m1: "memory_Stat mem_os \<lparr>mc_root = ''/m'', mc_ignored = []\<rparr> ''/a'' w1 stats0 = (Ok (), m1)"
    using limited_memory [OF assms] by blast
  have "''/p/a/pids.current'' \<in> set zero_files" "''/p/a/pids.max'' \<in> set zero_files" by (simp_all add: zero_files_def)
  then obtain u v where "readUint mem_os ''/p/a/pids.current'' w1 = Ok u" "readUint mem_os ''/p/a/pids.max'' w1 = Ok v"
    using limited_numbers [OF assms] by meson
  then have "\<exists>m2. pids_Stat mem_os ''/p'' ''/a'' w1 m1 = (Ok (), m2)"
    by (simp add: pids_Stat_def pids_Path_def path_eval bnd_def)
  then show ?thesis
    using m1 by (auto simp: cgroup_Stat_def limited_group_def StaticPath_def stat_job_def)
qed

section \<open>Limits read back\<close>

text \<open>C6: From the resources to the statistics: after an update of a group with a process and a memory controller,
  statistics that come without an error report exactly the process limit, the memory limit and the swap limit that
  the resources ask for, whatever other subsystems the group has and in whatever order the goroutines run.\<close>

theorem v1_limits_read_back:
  assumes "disk os good writable" and "good w" and "cg_err c = None" and "distinct (map sub_Name (cg_subsystems c))"
    and "\<And>s. s \<in> set (cg_subsystems c) \<Longrightarrow> updatable os good writable c r w s"
    and "PidsController root \<in> set (cg_subsystems c)" and "lx_Pids r = Some (Some n)" and "0 < sint n"
    and "MemoryController mc \<in> set (cg_subsystems c)" and "mc_ignored mc = []"
    and "lx_Memory r = Some mem" and "lm_Limit mem = Some l" and "0 \<le> sint l" and "lm_Swap mem = Some sw" and "0 \<le> sint sw"
  shows "\<exists>w1. cgroup_Update os c (Some r) w = (Ok (), w1) \<and>
    (\<forall>order m. (\<forall>jobs. mset (order jobs) = mset jobs) \<and> cgroup_Stat os c [] order w1 = Some (Ok m) \<longrightarrow>
      (\<exists>p st. mt1_Pids m = Some p \<and> p1_Limit p = n \<and> mt1_Memory m = Some st \<and> me_Limit (m1_Usage st) = l \<and> me_Limit (m1_Swap st) = sw))"
proof -
  obtain sp where sp: "cg_path c PidsName = Ok sp"
    by (rule updatable_cases [OF assms(5) [OF assms(6)], of "pids_Path root" pids_files]) simp_all
  obtain mp where mp: "cg_path c MemoryName = Ok mp"
    by (rule updatable_cases [OF assms(5) [OF assms(9)], of "memory_Path mc" memory_create_files]) simp_all
  obtain w1 where w1: "cgroup_Update os c (Some r) w = (Ok (), w1)"
      "\<forall>q. ReadFile os q w1 = (case assign_all (group_writes c r) q of Some d \<Rightarrow> Ok d | None \<Rightarrow> ReadFile os q w)"
    using group_update_reads [OF assms(1-5)] by blast
  have reads: "readUint os (path_join [dir sp, f]) w1 = Ok v"
    if "s \<in> set (cg_subsystems c)" "updates_of s = Some (dir, files)" "cg_path c (sub_Name s) = Ok sp"
      "(f, FormatInt v) \<in> set (files r)" "\<And>d'. (f, d') \<in> set (files r) \<Longrightarrow> d' = FormatInt v"
      "\<And>t. f \<in> set (update_names t) \<Longrightarrow> sub_Name t = sub_Name s" "0 \<le> sint v" for s dir files sp f and v :: i64
  proof -
    have "ReadFile os (path_join [dir sp, f]) w1 = Ok (FormatUint v)"
      using group_writes_at [OF assms(4,5) that(1-6)] w1(2) that(7) by (simp add: FormatInt_pos)
    then show ?thesis by (rule readUint_FormatUint)
  qed
  have pids: "readUint os (path_join [pids_Path root sp, ''pids.max'']) w1 = Ok n"
    by (rule reads [OF assms(6)]) (use assms(7,8) sp limit_owner(1) in \<open>auto simp: pids_files_def\<close>)
  have limit: "readUint os (path_join [memory_Path mc mp, ''memory.limit_in_bytes'']) w1 = Ok l"
    by (rule reads [where dir = "memory_Path mc" and files = memory_create_files, OF assms(9)])
      (use assms(13) mp limit_owner(2) in \<open>simp_all add: memory_limit_files(1) [OF assms(11,12)]\<close>)
  have swap: "readUint os (path_join [memory_Path mc mp, ''memory.memsw.limit_in_bytes'']) w1 = Ok sw"
    by (rule reads [where dir = "memory_Path mc" and files = memory_create_files, OF assms(9)])
      (use assms(15) mp limit_owner(3) in \<open>simp_all add: memory_limit_files(2) [OF assms(11,14)]\<close>)
  have "\<exists>p st. mt1_Pids m = Some p \<and> p1_Limit p = n \<and> mt1_Memory m = Some st \<and> me_Limit (m1_Usage st) = l \<and> me_Limit (m1_Swap st) = sw"
    if m: "cgroup_Stat os c [] order w1 = Some (Ok m)" and order: "\<And>jobs. mset (order jobs) = mset jobs" for order m
  proof -
    have "\<exists>ma mb. pids_Stat os root sp w1 ma = (Ok (), mb) \<and> mt1_Pids m = mt1_Pids mb"
      by (rule cgroup_Stat_part [where p = mt1_Pids and n = PidsName, OF _ m order assms(4,6)]) (use sp stater_keeps(2) in simp_all)
    moreover have "\<exists>ma mb. memory_Stat os mc mp w1 ma = (Ok (), mb) \<and> mt1_Memory m = mt1_Memory mb"
      by (rule cgroup_Stat_part [where p = mt1_Memory and n = MemoryName, OF _ m order assms(4,9)]) (use mp stater_keeps(3) in simp_all)
    ultimately show ?thesis
      using pids_Stat_limit [OF _ pids] memory_Stat_limits [OF _ _ _ limit swap] assms(10) by (metis empty_iff list.set(1))
  qed
  then show ?thesis using w1(1) by blast
qed

theorem v1_limits_read_back_witness:
  "\<exists>w1 m p st. cgroup_Update mem_os limited_group (Some limits) zero_disk = (Ok (), w1) \<and>
     cgroup_Stat mem_os limited_group [] rev w1 = Some (Ok m) \<and> mt1_Pids m = Some p \<and> p1_Limit p = 7 \<and>
     mt1_Memory m = Some st \<and> me_Limit (m1_Usage st) = 100 \<and> me_Limit (m1_Swap st) = 200"
proof -
  have r: "lx_Pids limits = Some (Some 7)" "lx_Memory limits = Some \<lparr>lm_Limit = Some 100, lm_Reservation = None, lm_Swap = Some 200,
     lm_Kernel = None, lm_KernelTCP = None, lm_Swappiness = None, lm_DisableOOMKiller = None\<rparr>" by (simp_all add: limits_def)
  have c: "PidsController ''/p'' \<in> set (cg_subsystems limited_group)"
    "MemoryController \<lparr>mc_root = ''/m'', mc_ignored = []\<rparr> \<in> set (cg_subsystems limited_group)" by (simp_all add: limited_group_def)
  obtain w1 where w1: "cgroup_Update mem_os limited_group (Some limits) zero_disk = (Ok (), w1)"
    and st: "\<forall>order m. (\<forall>jobs. mset (order jobs) = mset jobs) \<and> cgroup_Stat mem_os limited_group [] order w1 = Some (Ok m) \<longrightarrow>
      (\<exists>p st. mt1_Pids m = Some p \<and> p1_Limit p = 7 \<and> mt1_Memory m = Some st \<and> me_Limit (m1_Usage st) = 100 \<and> me_Limit (m1_Swap st) = 200)"
    using v1_limits_read_back [OF mem_fixed_disk zero_disk_good limited_distinct limited_updatable c(1) r(1) _ c(2) _ r(2)] by fastforce
  obtain m where m: "cgroup_Stat mem_os limited_group [] rev w1 = Some (Ok m)" using limited_stat [OF w1] by blast
  have "\<exists>p st. mt1_Pids m = Some p \<and> p1_Limit p = 7 \<and> mt1_Memory m = Some st \<and> me_Limit (m1_Usage st) = 100 \<and> me_Limit (m1_Swap st) = 200"
    using st m by (metis mset_rev)
  then show ?thesis using w1 m by blast
qed

end
