(* ===== verification/V1Events.thy ===== *)
theory V1Events
  imports V1Cgroup Descriptors
begin

text \<open>
  Memory events and file descriptors. The registration of an event opens two descriptors and hands one of
  them to the kernel and to the caller. The locale \<open>descriptors\<close> states what opening and closing do to the
  set of open descriptors; it is interpreted on the directory tree in memory with a list of descriptors.
\<close>

section \<open>Open descriptors\<close>

locale descriptors =
  fixes os :: "'w os" and host :: "'w host" and opened :: "'w \<Rightarrow> nat set"
  assumes eventfd_ok: "h_eventfd host w = (Inr fd, w1) \<Longrightarrow> fd \<notin> opened w \<and> opened w1 = insert fd (opened w)"
    and eventfd_err: "h_eventfd host w = (Inl e, w1) \<Longrightarrow> opened w1 = opened w"
    and open_ok: "h_open_fd host p w = (Inr fd, w1) \<Longrightarrow> fd \<notin> opened w \<and> opened w1 = insert fd (opened w)"
    and open_err: "h_open_fd host p w = (Inl e, w1) \<Longrightarrow> opened w1 = opened w"
    and close_fd: "opened (h_close host fd w) = opened w - {fd}"
    and write_fd: "os_write_file os p d w = (r, w1) \<Longrightarrow> opened w1 = opened w"
begin

lemma memoryEvent_opened:
  assumes "memoryEvent os host m path event w = (r, w1)"
  shows "case r of Ok efd \<Rightarrow> efd \<notin> opened w \<and> opened w1 = insert efd (opened w) | _ \<Rightarrow> opened w1 = opened w"
proof (cases "h_eventfd host w")
  case (Pair a wa)
  show ?thesis
  proof (cases a)
    case (Inl e)
    then show ?thesis using assms Pair eventfd_err [of w e wa] by (auto simp: memoryEvent_def Let_def)
  next
    case (Inr efd)
    then have efd: "efd \<notin> opened w" "opened wa = insert efd (opened w)" using eventfd_ok Pair by auto
    obtain b wb where b: "h_open_fd host (path_join [memory_Path m path, event_File event]) wa = (b, wb)" by fastforce
    show ?thesis
    proof (cases b)
      case (Inl e)
      then have "opened wb = opened wa" using open_err b by simp
      then show ?thesis using assms Pair Inr b Inl efd by (auto simp: memoryEvent_def Let_def close_fd)
    next
      case (Inr fd)
      then have fd: "fd \<notin> opened wa" "opened wb = insert fd (opened wa)" using open_ok b by auto
      obtain r2 wc where wr: "os_write_file os (path_join [memory_Path m path, ''cgroup.event_control''])
          (show_nat efd @ '' '' @ show_nat fd @ '' '' @ event_Arg event) wb = (r2, wc)" by fastforce
      have "opened wc = opened wb" by (rule write_fd [OF wr])
      then show ?thesis
        using assms Pair \<open>a = Inr efd\<close> b Inr wr efd fd by (cases r2) (auto simp: memoryEvent_def Let_def close_fd)
    qed
  qed
qed

end

section \<open>The directory tree with a list of descriptors\<close>

text \<open>The host on that tree: an event descriptor or an opened file is a new descriptor.\<close>

definition fd_host :: "(memfs \<times> nat list) host" where
  "fd_host = \<lparr>h_userns = False, h_ram_in_bytes = (\<lambda>_. Inl ErrEOF), h_custom_size = (\<lambda>_. []),
     h_eventfd = (\<lambda>w. (Inr (new_fd w), (fst w, new_fd w # snd w))),
     h_open_fd = (\<lambda>p w. (case mem_open p (fst w) of Inl e \<Rightarrow> (Inl e, w) | Inr _ \<Rightarrow> (Inr (new_fd w), (fst w, new_fd w # snd w)))),
     h_close = (\<lambda>fd w. (fst w, filter (\<lambda>x. x \<noteq> fd) (snd w))),
     h_bus = \<lparr>bus_connect = (\<lambda>w. (None, w)), bus_start = (\<lambda>_ _ _ w. (None, w)), bus_stop = (\<lambda>_ _ w. (None, w)),
       bus_wait = (\<lambda>w. w), bus_close = (\<lambda>w. w),
       bus_unsupported = (\<lambda>_. False), var_delegate = (\<lambda>_. Some True), set_delegate = (\<lambda>_ w. w)\<rparr>\<rparr>"

interpretation tree_fds: descriptors fd_os fd_host "\<lambda>w. set (snd w)"
proof (unfold_locales, goal_cases)
  case (1 w fd w1)
  then show ?case using new_fd_fresh [of w] by (auto simp: fd_host_def)
next
  case (3 p w fd w1)
  then show ?case using new_fd_fresh [of w] by (auto simp: fd_host_def split: sum.splits)
next
  case (6 p d w r w1)
  then show ?case by (auto simp: fd_os_def on_tree_def split: prod.splits)
qed (auto simp: fd_host_def split: sum.splits)

section \<open>Registration\<close>

text \<open>C17: Registering a memory event leaks no file descriptor: when it succeeds, the descriptor it returns is
  new and the only one left open; when it fails at any point, the open descriptors are those of before.\<close>

theorem memory_event_no_leak:
  assumes "descriptors os host opened" and "RegisterMemoryEvent os host c event w = (r, w1)"
  shows "case r of Ok efd \<Rightarrow> efd \<notin> opened w \<and> opened w1 = insert efd (opened w) | _ \<Rightarrow> opened w1 = opened w"
proof -
  have "((r = Panic \<or> (\<exists>e. r = Err e)) \<and> w1 = w) \<or> (\<exists>m sp. memoryEvent os host m sp event w = (r, w1))"
    using assms(2) by (auto simp: RegisterMemoryEvent_def unless_deleted_def bnd_def fail_def split: option.splits outcome.splits Subsystem.splits)
  then show ?thesis
  proof
    assume "\<exists>m sp. memoryEvent os host m sp event w = (r, w1)"
    then show ?thesis using descriptors.memoryEvent_opened [OF assms(1)] by blast
  qed auto
qed

theorem memory_event_no_leak_witness:
  "\<exists>w1. RegisterMemoryEvent fd_os fd_host \<lparr>cg_path = StaticPath ''/a'', cg_subsystems = [NewMemory ''/c'' []], cg_err = None\<rparr> OOMEvent
      (\<lparr>mem_files = [(''/c/memory/a/memory.oom_control'', [])], mem_dirs = [''/c/memory/a''], mem_faults = []\<rparr>, [2]) = (Ok 3, w1) \<and> set (snd w1) = {3, 2}"
proof -
  let ?w = "(\<lparr>mem_files = [(''/c/memory/a/memory.oom_control'', [])], mem_dirs = [''/c/memory/a''], mem_faults = []\<rparr>, [2])"
  let ?c = "\<lparr>cg_path = StaticPath ''/a'', cg_subsystems = [NewMemory ''/c'' []], cg_err = None\<rparr>"
  have path: "memory_Path \<lparr>mc_root = ''/c/memory'', mc_ignored = []\<rparr> ''/a'' = ''/c/memory/a''"
    by (simp add: memory_Path_def path_eval)
  obtain w1 where reg: "RegisterMemoryEvent fd_os fd_host ?c OOMEvent ?w = (Ok 3, w1)"
    by (simp add: RegisterMemoryEvent_def unless_deleted_def getSubsystem_def NewMemory_def name_defs StaticPath_def bnd_def memoryEvent_def
        Let_def path path_eval fd_host_def fd_os_def on_tree_def new_fd_def mem_open_def mem_write_file_def mem_open_file_def mem_fd_write_def
        fault_def path_dir_def path_split_def)
  from memory_event_no_leak [OF tree_fds.descriptors_axioms reg] reg show ?thesis by auto
qed

end
