(* ===== verification/V1Locks.thy ===== *)
theory V1Locks
  imports V1CgroupFacts "HOL-Library.Multiset"
begin

text \<open>
  The mutex of a \<open>cgroup1\<close> group (\<open>cgroup.go\<close>). Every method locks its group until it returns, so one call
  is one step of the system, with one exception: \<open>MoveTo\<close> calls \<open>Add\<close> of the destination, which locks the
  destination while the source stays locked. Here calls of \<open>MoveTo\<close> are threads that advance from one
  locking to the next and interleave in any order. A group is named by the number of its object, since a
  lock belongs to the object. The lemmas compare a call that runs alone with \<open>MoveTo1\<close>, show which calls
  block each other for ever, and a discipline under which all calls return.
\<close>

section \<open>Threads\<close>

text \<open>A call of \<open>MoveTo\<close> from one object to another: before its first statement, in its outer loop with the
  remaining subsystems, in its inner loop with the remaining processes, or returned. In the loops it holds
  the lock of the source.\<close>

datatype mover =
    Start nat nat
  | Subs nat nat "Subsystem list"
  | Moving nat nat "Process list" "Subsystem list"
  | Done "unit outcome"

fun holds :: "mover \<Rightarrow> nat option" where
  "holds (Start src dst) = None"
| "holds (Subs src dst ss) = Some src"
| "holds (Moving src dst ps ss) = Some src"
| "holds (Done r) = None"

text \<open>The lock that the next step of a thread needs; \<open>Add\<close> refuses a process that is not positive before it
  locks.\<close>

fun awaits :: "mover \<Rightarrow> nat option" where
  "awaits (Start src dst) = Some src"
| "awaits (Moving src dst (p # ps) ss) = (if 0 < sint (pr_Pid p) then Some dst else None)"
| "awaits t = None"

fun returned :: "mover \<Rightarrow> bool" where
  "returned (Done r) = True"
| "returned t = False"

text \<open>The next step of a thread that has the lock it needs. \<open>groups\<close> gives the group of an object.\<close>

fun advance :: "'w os \<Rightarrow> (nat \<Rightarrow> cgroup) \<Rightarrow> mover \<Rightarrow> 'w \<Rightarrow> mover \<times> 'w" where
  "advance os groups (Start src dst) w = (case cg_err (groups src) of
     Some e \<Rightarrow> (Done (Err e), w)
   | None \<Rightarrow> (Subs src dst (cg_subsystems (groups src)), w))"
| "advance os groups (Subs src dst []) w = (Done (Ok ()), w)"
| "advance os groups (Subs src dst (s # ss)) w =
     (case processes os (groups src) (sub_Name s) True cgroupProcs1 w of
        Panic \<Rightarrow> (Done Panic, w)
      | Err e \<Rightarrow> (Done (Err e), w)
      | Ok (Some e, _) \<Rightarrow> (Done (Err e), w)
      | Ok (None, ps) \<Rightarrow> (Moving src dst ps ss, w))"
| "advance os groups (Moving src dst [] ss) w = (Subs src dst ss, w)"
| "advance os groups (Moving src dst (p # ps) ss) w = (case Add os (groups dst) p [] w of
     (Ok _, w1) \<Rightarrow> (Moving src dst ps ss, w1)
   | (Err e, w1) \<Rightarrow>
       if contains (error_text e) ''no such process'' then (Moving src dst ps ss, w1) else (Done (Err e), w1)
   | (Panic, w1) \<Rightarrow> (Done Panic, w1))"
| "advance os groups (Done r) w = (Done r, w)"

definition lock_free :: "mover list \<Rightarrow> nat \<Rightarrow> bool" where
  "lock_free ts ob = (\<forall>t \<in> set ts. holds t \<noteq> Some ob)"

definition ready :: "mover list \<Rightarrow> mover \<Rightarrow> bool" where
  "ready ts t = (\<not> returned t \<and> (case awaits t of None \<Rightarrow> True | Some ob \<Rightarrow> lock_free ts ob))"

text \<open>A step of the system: one thread that is ready advances.\<close>

inductive run_step :: "'w os \<Rightarrow> (nat \<Rightarrow> cgroup) \<Rightarrow> mover list \<times> 'w \<Rightarrow> mover list \<times> 'w \<Rightarrow> bool" for os groups where
  "i < length ts \<Longrightarrow> ready ts (ts ! i) \<Longrightarrow> advance os groups (ts ! i) w = (t, w1) \<Longrightarrow>
     run_step os groups (ts, w) (ts[i := t], w1)"

inductive_cases run_stepE: "run_step os groups (ts, w) s"
inductive_cases run_step_pairE: "run_step os groups (ts, w) (us, w1)"

section \<open>One call alone\<close>

text \<open>What is left of a call, as the function that runs to the end.\<close>

definition move_subsystems :: "'w os \<Rightarrow> cgroup \<Rightarrow> cgroup \<Rightarrow> Subsystem list \<Rightarrow> ('w, unit) go" where
  "move_subsystems os c destination = for_each (\<lambda>s w.
     (case processes os c (sub_Name s) True cgroupProcs1 w of
        Panic \<Rightarrow> (Panic, w)
      | Err e \<Rightarrow> (Err e, w)
      | Ok (Some e, _) \<Rightarrow> (Err e, w)
      | Ok (None, procs) \<Rightarrow> move_loop os destination procs w))"

fun rest :: "'w os \<Rightarrow> (nat \<Rightarrow> cgroup) \<Rightarrow> mover \<Rightarrow> ('w, unit) go" where
  "rest os groups (Start src dst) = MoveTo1 os (groups src) (groups dst)"
| "rest os groups (Subs src dst ss) = move_subsystems os (groups src) (groups dst) ss"
| "rest os groups (Moving src dst ps ss) =
     seqn (move_loop os (groups dst) ps) (move_subsystems os (groups src) (groups dst) ss)"
| "rest os groups (Done r) = (\<lambda>w. (r, w))"

lemma advance_rest:
  "advance os groups t w = (t1, w1) \<Longrightarrow> rest os groups t1 w1 = rest os groups t w"
  by (cases "(os, groups, t, w)" rule: advance.cases)
    (auto simp: MoveTo1_def move_subsystems_def unless_deleted_def seqn_def bnd_def split: option.splits outcome.splits prod.splits if_splits)

text \<open>Each step of a thread makes it smaller: the subsystems that are left, then the processes that are left.\<close>

fun todo :: "(nat \<Rightarrow> cgroup) \<Rightarrow> mover \<Rightarrow> nat \<times> nat" where
  "todo groups (Start src dst) = (length (cg_subsystems (groups src)) + 2, 0)"
| "todo groups (Subs src dst ss) = (length ss + 1, 0)"
| "todo groups (Moving src dst ps ss) = (length ss + 1, length ps + 1)"
| "todo groups (Done r) = (0, 0)"

abbreviation less_todo :: "((nat \<times> nat) \<times> (nat \<times> nat)) set" where
  "less_todo \<equiv> less_than <*lex*> less_than"

lemma advance_todo:
  "\<not> returned t \<Longrightarrow> (todo groups (fst (advance os groups t w)), todo groups t) \<in> less_todo"
  by (cases "(os, groups, t, w)" rule: advance.cases) (auto split: option.splits outcome.splits prod.splits if_splits)

lemma run_step_single:
  "run_step os groups ([t], w) (us, w1) \<longleftrightarrow> ready [t] t \<and> (\<exists>t1. us = [t1] \<and> advance os groups t w = (t1, w1))"
proof
  assume "run_step os groups ([t], w) (us, w1)"
  then show "ready [t] t \<and> (\<exists>t1. us = [t1] \<and> advance os groups t w = (t1, w1))"
    by (elim run_step_pairE) simp
next
  assume r: "ready [t] t \<and> (\<exists>t1. us = [t1] \<and> advance os groups t w = (t1, w1))"
  then obtain t1 where t1: "us = [t1]" "advance os groups t w = (t1, w1)" by blast
  have "run_step os groups ([t], w) ([t][0 := t1], w1)" using r t1(2) by (intro run_step.intros) simp_all
  then show "run_step os groups ([t], w) (us, w1)" using t1(1) by simp
qed

fun route :: "mover \<Rightarrow> (nat \<times> nat) option" where
  "route (Start src dst) = Some (src, dst)"
| "route (Subs src dst ss) = Some (src, dst)"
| "route (Moving src dst ps ss) = Some (src, dst)"
| "route (Done r) = None"

lemma advance_route: "route (fst (advance os groups t w)) \<in> {route t, None}"
  by (cases "(os, groups, t, w)" rule: advance.cases) (auto split: option.splits outcome.splits prod.splits if_splits)

lemma ready_alone: "route t = Some (src, dst) \<Longrightarrow> src \<noteq> dst \<Longrightarrow> ready [t] t"
  by (cases t rule: awaits.cases) (auto simp: ready_def lock_free_def)

lemma route_None: "route t = None \<longleftrightarrow> returned t"
  by (cases t) auto

lemma rest_reached:
  "\<lbrakk>case route t of Some (src, dst) \<Rightarrow> src \<noteq> dst | None \<Rightarrow> True; rest os groups t w = (r, w1)\<rbrakk> \<Longrightarrow>
     (run_step os groups)\<^sup>*\<^sup>* ([t], w) ([Done r], w1)"
proof (induction "todo groups t" arbitrary: t w rule: wf_induct_rule [OF wf_lex_prod [OF wf_less_than wf_less_than]])
  case (1 t w)
  show ?case
  proof (cases "route t")
    case None
    then show ?thesis using 1(3) by (cases t) auto
  next
    case (Some sd)
    obtain t1 w2 where adv: "advance os groups t w = (t1, w2)" by fastforce
    have "ready [t] t" using Some 1(2) by (cases sd) (auto intro: ready_alone)
    then have step: "run_step os groups ([t], w) ([t1], w2)" using adv by (simp add: run_step_single)
    have "(todo groups t1, todo groups t) \<in> less_todo"
      using advance_todo [of t groups os w] Some adv route_None [of t] by simp
    moreover have "case route t1 of Some (src, dst) \<Rightarrow> src \<noteq> dst | None \<Rightarrow> True"
      using advance_route [of os groups t w] adv 1(2) by auto
    moreover have "rest os groups t1 w2 = (r, w1)" using advance_rest [OF adv] 1(3) by simp
    ultimately have "(run_step os groups)\<^sup>*\<^sup>* ([t1], w2) ([Done r], w1)" by (rule 1(1))
    with step show ?thesis by (rule converse_rtranclp_into_rtranclp)
  qed
qed

lemma rest_invariant:
  assumes "(run_step os groups)\<^sup>*\<^sup>* ([t], w) s"
  shows "\<exists>t1. fst s = [t1] \<and> rest os groups t1 (snd s) = rest os groups t w"
  using assms
proof (induction rule: rtranclp_induct)
  case (step s s1)
  then obtain t1 where t1: "fst s = [t1]" "rest os groups t1 (snd s) = rest os groups t w" by blast
  have "run_step os groups ([t1], snd s) (fst s1, snd s1)" using step.hyps(2) t1(1) by (metis prod.collapse)
  then obtain t2 where t2: "fst s1 = [t2]" "advance os groups t1 (snd s) = (t2, snd s1)"
    by (cases s1) (auto simp: run_step_single)
  then show ?case using advance_rest [OF t2(2)] t1(2) by simp
qed simp

definition busy_group :: cgroup where
  "busy_group = \<lparr>cg_path = StaticPath ''/a'', cg_subsystems = [PidsController ''/p''], cg_err = None\<rparr>"

text \<open>C21: A call of MoveTo between two different groups that nothing interferes with returns, and does what the
  function does that runs without locks.\<close>

theorem move_alone:
  assumes "src \<noteq> dst"
  shows "(run_step os groups)\<^sup>*\<^sup>* ([Start src dst], w) ([Done r], w1) \<longleftrightarrow> MoveTo1 os (groups src) (groups dst) w = (r, w1)"
proof
  assume "(run_step os groups)\<^sup>*\<^sup>* ([Start src dst], w) ([Done r], w1)"
  from rest_invariant [OF this] show "MoveTo1 os (groups src) (groups dst) w = (r, w1)" by auto
qed (use assms rest_reached [of "Start src dst" os groups w r w1] in simp)

theorem move_alone_witness:
  "(run_step mem_os (\<lambda>_. busy_group))\<^sup>*\<^sup>* ([Start 0 1], busy_fs) ([Done (Ok ())], busy_fs)"
proof -
  have five: "write_attempts os p d 5 err w = (case os_fd_write os p d w of (None, w1) \<Rightarrow> (Ok (), w1)
      | (Some e, w1) \<Rightarrow> if \<not> errors_is_errno e EINVAL then (Err e, w1) else write_attempts os p d 4 (Some e) (os_sleep os 30 w1))"
    for os :: "memfs os" and p d err w
    using write_attempts.simps(2) [of os p d 4 err w] by simp
  have "Add mem_os busy_group \<lparr>pr_Subsystem = ''pids'', pr_Pid = 7, pr_Path = ''/p/a/''\<rparr> [] busy_fs = (Ok (), busy_fs)"
    by (simp add: Add_def cgroup_add_def unless_deleted_def busy_group_def StaticPath_def name_defs subsystemsFilter_def pathers_def
        pids_Path_def bnd_def writeCgroupProcs_def path_eval cgroupProcs1_def busy_fs_def mem_write_file_def mem_open_file_def
        mem_fd_write_def fault_def print_eval seqn_def sys_def five)
  then have "MoveTo1 mem_os busy_group busy_group busy_fs = (Ok (), busy_fs)"
    using busy_processes by (simp add: MoveTo1_def unless_deleted_def busy_group_def name_defs)
  then show ?thesis using move_alone [of 0 1 mem_os "\<lambda>_. busy_group" busy_fs "Ok ()" busy_fs] by simp
qed

section \<open>Calls that never return\<close>

definition stuck :: "'w os \<Rightarrow> (nat \<Rightarrow> cgroup) \<Rightarrow> mover list \<times> 'w \<Rightarrow> bool" where
  "stuck os groups s = (\<forall>s1. \<not> run_step os groups s s1)"

lemma stuck_iff: "stuck os groups (ts, w) \<longleftrightarrow> (\<forall>t \<in> set ts. \<not> ready ts t)"
proof
  assume s: "stuck os groups (ts, w)"
  show "\<forall>t \<in> set ts. \<not> ready ts t"
  proof
    fix t assume "t \<in> set ts"
    then obtain i where i: "i < length ts" "ts ! i = t" by (auto simp: in_set_conv_nth)
    obtain t1 w1 where "advance os groups t w = (t1, w1)" by fastforce
    then show "\<not> ready ts t" using s i run_step.intros [of i ts os groups w t1 w1] by (auto simp: stuck_def)
  qed
qed (auto simp: stuck_def elim!: run_stepE)

text \<open>The first subsystem of a group lists a process that can be moved.\<close>

definition occupied :: "'w os \<Rightarrow> cgroup \<Rightarrow> 'w \<Rightarrow> bool" where
  "occupied os c w = (cg_err c = None \<and> (\<exists>s ss p ps. cg_subsystems c = s # ss \<and>
     processes os c (sub_Name s) True cgroupProcs1 w = Ok (None, p # ps) \<and> 0 < sint (pr_Pid p)))"

lemma occupied_moves:
  assumes "occupied os (groups src) w"
  obtains ss p ps where "advance os groups (Start src dst) w = (Subs src dst (cg_subsystems (groups src)), w)"
    and "advance os groups (Subs src dst (cg_subsystems (groups src))) w = (Moving src dst (p # ps) ss, w)"
    and "0 < sint (pr_Pid p)"
  using assms by (auto simp: occupied_def)

lemma occupied_busy: "occupied mem_os busy_group busy_fs"
  using busy_processes by (simp add: occupied_def busy_group_def name_defs)

text \<open>Moving a group that has a process to itself never returns: the call waits for the lock that it holds.\<close>

theorem move_to_self_blocks:
  assumes "occupied os (groups ob) w" and "(run_step os groups)\<^sup>*\<^sup>* ([Start ob ob], w) s"
  shows "\<not> list_all returned (fst s) \<and> (\<exists>s1. (run_step os groups)\<^sup>*\<^sup>* s s1 \<and> stuck os groups s1)"
proof -
  obtain ss p ps where a: "advance os groups (Start ob ob) w = (Subs ob ob (cg_subsystems (groups ob)), w)"
    "advance os groups (Subs ob ob (cg_subsystems (groups ob))) w = (Moving ob ob (p # ps) ss, w)" "0 < sint (pr_Pid p)"
    using occupied_moves [of os groups ob w ob] assms(1) by metis
  let ?s0 = "([Start ob ob], w)" and ?s1 = "([Subs ob ob (cg_subsystems (groups ob))], w)" and ?s2 = "([Moving ob ob (p # ps) ss], w)"
  have st: "stuck os groups ?s2" using a(3) by (simp add: stuck_iff ready_def lock_free_def)
  have r: "run_step os groups ?s0 t \<longleftrightarrow> t = ?s1" "run_step os groups ?s1 t \<longleftrightarrow> t = ?s2" for t
    using a(1,2) by (cases t; auto simp: run_step_single ready_def lock_free_def)+
  have "s \<in> {?s0, ?s1, ?s2}"
    using assms(2)
  proof (induction rule: rtranclp_induct)
    case (step y z)
    then show ?case using r st unfolding stuck_def by blast
  qed simp
  moreover have s12: "(run_step os groups)\<^sup>*\<^sup>* ?s1 ?s2" using r(2) by blast
  moreover have "run_step os groups ?s0 ?s1" using r(1) by blast
  from this s12 have "(run_step os groups)\<^sup>*\<^sup>* ?s0 ?s2" by (rule converse_rtranclp_into_rtranclp)
  ultimately show ?thesis using st by auto
qed

theorem move_to_self_blocks_witness:
  "\<exists>s. (run_step mem_os (\<lambda>_. busy_group))\<^sup>*\<^sup>* ([Start 0 0], busy_fs) s \<and> stuck mem_os (\<lambda>_. busy_group) s"
  using move_to_self_blocks [of mem_os "\<lambda>_. busy_group" 0 busy_fs "([Start 0 0], busy_fs)"] occupied_busy by auto

text \<open>C24: Two groups that are moved into each other at the same time can block each other: each call holds the
  lock of its source and waits for the lock of the other.\<close>

theorem crossing_moves_block:
  assumes "a \<noteq> b" and "occupied os (groups a) w" and "occupied os (groups b) w"
  shows "\<exists>s. (run_step os groups)\<^sup>*\<^sup>* ([Start a b, Start b a], w) s \<and> stuck os groups s \<and> \<not> list_ex returned (fst s)"
proof -
  obtain sa pa psa where A: "advance os groups (Start a b) w = (Subs a b (cg_subsystems (groups a)), w)"
    "advance os groups (Subs a b (cg_subsystems (groups a))) w = (Moving a b (pa # psa) sa, w)" "0 < sint (pr_Pid pa)"
    using occupied_moves [of os groups a w b] assms(2) by metis
  obtain sb pb psb where B: "advance os groups (Start b a) w = (Subs b a (cg_subsystems (groups b)), w)"
    "advance os groups (Subs b a (cg_subsystems (groups b))) w = (Moving b a (pb # psb) sb, w)" "0 < sint (pr_Pid pb)"
    using occupied_moves [of os groups b w a] assms(3) by metis
  have first: "run_step os groups ([t, u], w) ([t1, u], w)" if "ready [t, u] t" "advance os groups t w = (t1, w)" for t u t1
    using run_step.intros [of 0 "[t, u]" os groups w t1 w] that by simp
  have second: "run_step os groups ([t, u], w) ([t, u1], w)" if "ready [t, u] u" "advance os groups u w = (u1, w)" for t u u1
    using run_step.intros [of 1 "[t, u]" os groups w u1 w] that by simp
  note rd = ready_def lock_free_def
  have "(run_step os groups)\<^sup>*\<^sup>* ([Start a b, Start b a], w) ([Subs a b (cg_subsystems (groups a)), Subs b a (cg_subsystems (groups b))], w)"
    using first [OF _ A(1), of "Start b a"] second [OF _ B(1), of "Subs a b (cg_subsystems (groups a))"] assms(1)
    by (auto simp: rd intro!: converse_rtranclp_into_rtranclp)
  also have "(run_step os groups)\<^sup>*\<^sup>* ([Subs a b (cg_subsystems (groups a)), Subs b a (cg_subsystems (groups b))], w)
      ([Moving a b (pa # psa) sa, Moving b a (pb # psb) sb], w)"
    using first [OF _ A(2), of "Subs b a (cg_subsystems (groups b))"] second [OF _ B(2), of "Moving a b (pa # psa) sa"]
    by (auto simp: rd intro!: converse_rtranclp_into_rtranclp)
  finally show ?thesis using A(3) B(3) by (intro exI conjI) (auto simp: stuck_iff rd)
qed

theorem crossing_moves_block_witness:
  "\<exists>s. (run_step mem_os (\<lambda>_. busy_group))\<^sup>*\<^sup>* ([Start 0 1, Start 1 0], busy_fs) s \<and> stuck mem_os (\<lambda>_. busy_group) s \<and> \<not> list_ex returned (fst s)"
  using crossing_moves_block [of 0 1 mem_os "\<lambda>_. busy_group" busy_fs] occupied_busy by simp

section \<open>A discipline under which all calls return\<close>

definition upward :: "(nat \<Rightarrow> nat) \<Rightarrow> mover \<Rightarrow> bool" where
  "upward rank t = (case route t of Some (src, dst) \<Rightarrow> rank src < rank dst | None \<Rightarrow> True)"

lemma upward_step: "run_step os groups s s1 \<Longrightarrow> list_all (upward rank) (fst s) \<Longrightarrow> list_all (upward rank) (fst s1)"
proof (cases s; cases s1)
  fix ts us w w1 assume s: "run_step os groups s s1" "list_all (upward rank) (fst s)" "s = (ts, w)" "s1 = (us, w1)"
  obtain i t where i: "i < length ts" "advance os groups (ts ! i) w = (t, w1)" "us = ts[i := t]"
    using s(1) unfolding s(3,4) by (elim run_step_pairE) blast
  have "upward rank (ts ! i)" using s(2,3) i(1) by (simp add: list_all_length)
  then have "upward rank t" using advance_route [of os groups "ts ! i" w] i(2) by (auto simp: upward_def)
  then show "list_all (upward rank) (fst s1)"
    using s(2,3) i by (auto simp: s(4) list_all_iff dest!: set_update_subset_insert [THEN subsetD])
qed

lemma upward_progress:
  assumes "list_all (upward rank) ts" and "\<not> list_all returned ts"
  shows "\<exists>t \<in> set ts. ready ts t"
proof (cases "\<exists>t \<in> set ts. holds t \<noteq> None")
  case False
  obtain t where t: "t \<in> set ts" "\<not> returned t" using assms(2) by (auto simp: list_all_iff)
  moreover have "lock_free ts ob" for ob using False by (auto simp: lock_free_def)
  ultimately have "ready ts t" by (simp add: ready_def split: option.split)
  then show ?thesis using t(1) by blast
next
  case True
  define H where "H = {ob. \<exists>t \<in> set ts. holds t = Some ob}"
  have "H \<subseteq> (\<lambda>t. the (holds t)) ` set ts" by (force simp: H_def)
  then have fin: "finite H" by (rule finite_subset) simp
  obtain ob0 where "ob0 \<in> H" using True by (auto simp: H_def)
  then have "Max (rank ` H) \<in> rank ` H" using fin by (intro Max_in) auto
  then obtain ob where ob: "ob \<in> H" "rank ob = Max (rank ` H)" by auto
  then obtain t where t: "t \<in> set ts" "holds t = Some ob" by (auto simp: H_def)
  have "lock_free ts d" if "rank ob < rank d" for d
  proof (rule ccontr)
    assume "\<not> lock_free ts d"
    then have "d \<in> H" by (auto simp: lock_free_def H_def)
    then have "rank d \<le> Max (rank ` H)" using fin by (intro Max_ge) auto
    then show False using ob(2) that by simp
  qed
  moreover have "upward rank t" using assms(1) t(1) by (simp add: list_all_iff)
  ultimately have "ready ts t" using t(2) by (cases t rule: awaits.cases) (auto simp: ready_def upward_def)
  then show ?thesis using t(1) by blast
qed

lemma run_step_decreases:
  assumes "run_step os groups s s1"
  shows "(image_mset (todo groups) (mset (fst s1)), image_mset (todo groups) (mset (fst s))) \<in> mult less_todo"
proof -
  obtain ts w where s: "s = (ts, w)" by (cases s)
  obtain i t w1 where i: "i < length ts" "ready ts (ts ! i)" "advance os groups (ts ! i) w = (t, w1)" "s1 = (ts[i := t], w1)"
    using assms unfolding s by (elim run_stepE) blast
  let ?I = "image_mset (todo groups) (mset ts - {#ts ! i#})"
  have "(todo groups t, todo groups (ts ! i)) \<in> less_todo"
    using advance_todo [of "ts ! i" groups os w] i(2,3) by (simp add: ready_def)
  then have "(?I + {#todo groups t#}, ?I + {#todo groups (ts ! i)#}) \<in> mult less_todo"
    by (intro one_step_implies_mult) auto
  moreover have "mset (ts[i := t]) = (mset ts - {#ts ! i#}) + {#t#}" using i(1) by (simp add: mset_update)
  moreover have "mset ts = (mset ts - {#ts ! i#}) + {#ts ! i#}" using i(1) by simp
  ultimately show ?thesis unfolding s i(4) fst_conv by (metis image_mset_union image_mset_single)
qed

text \<open>C14: Any number of calls of MoveTo make only finitely many steps together, in every order of their steps. If
  every call moves from a group to one of a higher rank, for some ranking of the groups, then they
  are stuck only when all have returned: no two calls block each other.\<close>

theorem upward_moves_return:
  assumes "\<forall>(src, dst) \<in> set calls. (rank src :: nat) < rank dst"
  shows "wf {(s1, s). run_step os groups s s1} \<and>
    (\<forall>s. (run_step os groups)\<^sup>*\<^sup>* (map (\<lambda>(src, dst). Start src dst) calls, w) s \<longrightarrow> stuck os groups s \<longrightarrow> list_all returned (fst s))"
proof (intro conjI allI impI)
  have "wf (inv_image (mult less_todo) (\<lambda>s. image_mset (todo groups) (mset (fst s))))"
    by (intro wf_inv_image wf_mult wf_lex_prod wf_less_than)
  then show "wf {(s1, s). run_step os groups s s1}"
    by (rule wf_subset) (auto dest!: run_step_decreases)
next
  fix s assume s: "(run_step os groups)\<^sup>*\<^sup>* (map (\<lambda>(src, dst). Start src dst) calls, w) s" and st: "stuck os groups s"
  have "list_all (upward rank) (fst s)"
    using s
  proof (induction rule: rtranclp_induct)
    case base
    then show ?case using assms by (auto simp: list_all_iff upward_def)
  next
    case (step y z)
    then show ?case using upward_step by blast
  qed
  then show "list_all returned (fst s)"
    using upward_progress [of rank "fst s"] st stuck_iff [of os groups "fst s" "snd s"] by auto
qed

theorem upward_moves_return_witness:
  "wf {(s1, s). run_step mem_os (\<lambda>_. busy_group) s s1} \<and>
   \<not> stuck mem_os (\<lambda>_. busy_group) ([Start 0 1, Start 0 2, Start 1 2], busy_fs)"
proof -
  let ?calls = "[(0, 1), (0, 2), (1, 2)]"
  have up: "\<forall>(src, dst) \<in> set ?calls. (src :: nat) < dst" by simp
  note moves = upward_moves_return [OF up, of mem_os "\<lambda>_. busy_group" busy_fs]
  have "stuck mem_os (\<lambda>_. busy_group) (map (\<lambda>(src, dst). Start src dst) ?calls, busy_fs) \<longrightarrow>
      list_all returned (map (\<lambda>(src, dst). Start src dst) ?calls)"
    using moves by (metis fst_conv rtranclp.rtrancl_refl)
  then show ?thesis using moves by simp
qed

end
