(* ===== verification/Cgctl.thy ===== *)
theory Cgctl
  imports V2ManagerFacts V2Systemd V2Stats CgroupMode
begin

text \<open>
  The command \<open>cgctl\<close> (\<open>cmd/cgctl/main.go\<close>), which runs one operation of package \<open>cgroup2\<close> or of the root
  package per invocation. The flag parser (\<open>urfave/cli\<close>) is no code of the repository: what it hands to an
  action is the record \<open>cli\<close>. An action returns the lines it prints, or its error; the state is that of
  the process (the package variables of \<open>cgroup2\<close> and the system). The JSON encoder is a parameter. The
  lemmas show that the commands agree on which group a path names and which paths they refuse, what
  \<open>new --enable\<close> writes, and which process \<open>systemd\<close> puts into the unit.
\<close>

section \<open>The command line\<close>

record cli =
  cli_args :: "string list"
  cli_mountpoint :: string
  cli_enable :: bool

text \<open>\<open>clix.Args().Get(n)\<close>, and \<open>First\<close> for 0: the empty string when there is no such argument.\<close>

definition cli_arg :: "cli \<Rightarrow> nat \<Rightarrow> string" where
  "cli_arg clix n = (if n < length (cli_args clix) then cli_args clix ! n else [])"

definition default_mountpoint :: string where
  "default_mountpoint = ''/sys/fs/cgroup''"

definition empty_resources :: Resources where
  "empty_resources = \<lparr>res_CPU = None, res_Memory = None, res_Pids = None, res_IO = None, res_RDMA = None, res_HugeTlb = None, res_Devices = []\<rparr>"

section \<open>The actions\<close>

text \<open>\<open>cgctl new\<close>: the group is kept when enabling the controllers fails.\<close>

definition newCommand :: "'w os \<Rightarrow> 'w bpf \<Rightarrow> cli \<Rightarrow> ('w, string list) go" where
  "newCommand os bpf clix =
     bnd (NewManager os bpf (cli_mountpoint clix) (cli_arg clix 0) (Some empty_resources)) (\<lambda>c.
       if cli_enable clix
       then bnd (reads (RootControllers os c)) (\<lambda>controllers.
              seqn (ToggleControllers os c controllers Enable) (ret []))
       else ret [])"

definition load_group :: "cli \<Rightarrow> Manager outcome" where
  "load_group clix = Load (cli_arg clix 0) [WithMountpoint (cli_mountpoint clix)]"

definition delCommand :: "'w os \<Rightarrow> cli \<Rightarrow> ('w, string list) go" where
  "delCommand os clix = bnd (lift_out (load_group clix)) (\<lambda>c. seqn (Delete os c) (ret []))"

definition listCommand :: "'w os \<Rightarrow> cli \<Rightarrow> ('w, string list) go" where
  "listCommand os clix = bnd (lift_out (load_group clix)) (\<lambda>c w. (case Procs os c True w of
     (Some e, _) \<Rightarrow> (Err e, w)
   | (None, found) \<Rightarrow> (Ok (map FormatUint found), w)))"

definition listControllersCommand :: "'w os \<Rightarrow> cli \<Rightarrow> ('w, string list) go" where
  "listControllersCommand os clix = bnd (lift_out (load_group clix)) (\<lambda>c. reads (Controllers os c))"

definition statCommand :: "'w os \<Rightarrow> (string \<Rightarrow> 'f::zero \<times> gerror option) \<Rightarrow> string list \<Rightarrow> ('f Metrics \<Rightarrow> string outcome) \<Rightarrow>
    cli \<Rightarrow> ('w, string list) go" where
  "statCommand os pf hps encode clix = bnd (lift_out (load_group clix)) (\<lambda>c.
     bnd (reads (Stat os pf hps (mgr_path c))) (\<lambda>stats.
     bnd (lift_out (encode stats)) (\<lambda>line. ret [line])))"

text \<open>The process that \<open>cgctl systemd\<close> names: its own when there is no argument, and otherwise what \<open>Atoi\<close>
  returns, whose error is dropped.\<close>

definition systemd_pid :: "cli \<Rightarrow> i64 \<Rightarrow> i64" where
  "systemd_pid clix self = (let pidStr = cli_arg clix 1 in if pidStr \<noteq> [] then fst (Atoi pidStr) else self)"

definition newSystemdCommand :: "'w systemd \<Rightarrow> i64 \<Rightarrow> cli \<Rightarrow> ('w pkg, string list) go" where
  "newSystemdCommand sd self clix =
     bnd (NewSystemd sd [] (cli_arg clix 0) (systemd_pid clix self) (Some empty_resources)) (\<lambda>_. ret [])"

definition deleteSystemdCommand :: "'w systemd \<Rightarrow> cli \<Rightarrow> 'w \<Rightarrow> (string list outcome \<times> 'w) option" where
  "deleteSystemdCommand sd clix w =
     map_option (\<lambda>(r, w1). (bind_out r (\<lambda>_. Ok []), w1)) (DeleteSystemd sd (LoadSystemd [] (cli_arg clix 0)) w)"

fun mode_line :: "CGMode \<Rightarrow> string" where
  "mode_line Legacy = ''legacy''"
| "mode_line Hybrid = ''hybrid''"
| "mode_line Unified = ''unified''"
| "mode_line Unavailable = ''cgroups unavailable''"

definition modeCommand :: "(string \<Rightarrow> gerror + int) \<Rightarrow> string list outcome" where
  "modeCommand statfs = Ok [mode_line (fst (Mode statfs None))]"

section \<open>The program\<close>

datatype command = CmdMode | CmdNew | CmdDel | CmdList | CmdListControllers | CmdStat | CmdSystemd | CmdDelSystemd

fun command_name :: "command \<Rightarrow> string" where
  "command_name CmdMode = ''mode''"
| "command_name CmdNew = ''new''"
| "command_name CmdDel = ''del''"
| "command_name CmdList = ''list''"
| "command_name CmdListControllers = ''list-controllers''"
| "command_name CmdStat = ''stat''"
| "command_name CmdSystemd = ''systemd''"
| "command_name CmdDelSystemd = ''del-systemd''"

definition commands :: "command list" where
  "commands = [CmdMode, CmdNew, CmdDel, CmdList, CmdListControllers, CmdStat, CmdSystemd, CmdDelSystemd]"

text \<open>What the program runs on: the system, the libraries, and the number of its own process.\<close>

record ('w, 'f) env =
  env_os :: "'w os"
  env_bpf :: "'w bpf"
  env_systemd :: "'w systemd"
  env_float :: "string \<Rightarrow> 'f \<times> gerror option"
  env_page_sizes :: "string list"
  env_encode :: "'f Metrics \<Rightarrow> string outcome"
  env_statfs :: "string \<Rightarrow> gerror + int"
  env_pid :: i64

fun run_command :: "('w, 'f::zero) env \<Rightarrow> command \<Rightarrow> cli \<Rightarrow> 'w pkg \<Rightarrow> (string list outcome \<times> 'w pkg) option" where
  "run_command env CmdMode clix p = Some (modeCommand (env_statfs env), p)"
| "run_command env CmdNew clix p = Some (on_system (newCommand (env_os env) (env_bpf env) clix) p)"
| "run_command env CmdDel clix p = Some (on_system (delCommand (env_os env) clix) p)"
| "run_command env CmdList clix p = Some (on_system (listCommand (env_os env) clix) p)"
| "run_command env CmdListControllers clix p = Some (on_system (listControllersCommand (env_os env) clix) p)"
| "run_command env CmdStat clix p =
     Some (on_system (statCommand (env_os env) (env_float env) (env_page_sizes env) (env_encode env) clix) p)"
| "run_command env CmdSystemd clix p = Some (newSystemdCommand (env_systemd env) (env_pid env) clix p)"
| "run_command env CmdDelSystemd clix p =
     map_option (\<lambda>(r, w). (r, p\<lparr>pk_system := w\<rparr>)) (deleteSystemdCommand (env_systemd env) clix (pk_system p))"

text \<open>The end of \<open>main\<close>: what goes to the standard output, what to the standard error, and the exit status.
  A panic prints the stack, which is left out, and ends the process with status 2.\<close>

fun exit_of :: "string list outcome \<Rightarrow> string list \<times> string list \<times> nat" where
  "exit_of (Ok out) = (out, [], 0)"
| "exit_of (Err e) = ([], [error_text e], 1)"
| "exit_of Panic = ([], [], 2)"

definition cgctl_main :: "('w, 'f::zero) env \<Rightarrow> command \<Rightarrow> cli \<Rightarrow> 'w pkg \<Rightarrow> ((string list \<times> string list \<times> nat) \<times> 'w pkg) option" where
  "cgctl_main env cmd clix p = map_option (\<lambda>(r, p1). (exit_of r, p1)) (run_command env cmd clix p)"

lemmas action_defs = newCommand_def delCommand_def listCommand_def listControllersCommand_def statCommand_def load_group_def

lemma load_group_eq:
  "load_group clix = (case VerifyGroupPath (cli_arg clix 0) of
     Some e \<Rightarrow> Err e
   | None \<Rightarrow> Ok \<lparr>unifiedMountpoint = cli_mountpoint clix, mgr_path = path_join [cli_mountpoint clix, cli_arg clix 0]\<rparr>)"
  by (simp add: load_group_def Load_def WithMountpoint_def split: option.split)

definition uses_group :: "command \<Rightarrow> bool" where
  "uses_group cmd = (cmd \<in> {CmdNew, CmdDel, CmdList, CmdListControllers, CmdStat})"

text \<open>C23: Every command on a group that is not managed by systemd refuses the same paths: with a path that is not
  valid, or none, it prints the error, exits with status 1 and has not touched the system.\<close>

theorem cgctl_refuses_bad_path:
  assumes "uses_group cmd" and "VerifyGroupPath (cli_arg clix 0) = Some e"
  shows "cgctl_main env cmd clix p = Some (([], [error_text e], 1), p)"
  using assms
  by (cases cmd)
    (simp_all add: uses_group_def cgctl_main_def action_defs load_group_eq [unfolded load_group_def] NewManager_def on_system_def bnd_def empty_resources_def)

theorem cgctl_refuses_bad_path_witness:
  "\<forall>sd p. cgctl_main \<lparr>env_os = mem_os, env_bpf = mem_bpf, env_systemd = sd, env_float = (\<lambda>_. (0 :: int, None)), env_page_sizes = [],
      env_encode = (\<lambda>_. Panic), env_statfs = (\<lambda>_. Inl ErrEOF), env_pid = 1\<rparr> CmdDel
      \<lparr>cli_args = [], cli_mountpoint = default_mountpoint, cli_enable = False\<rparr> p =
    Some (([], [''cgroups: invalid group path''], 1), p)"
  by (intro allI, subst cgctl_refuses_bad_path [where e = ErrInvalidGroupPath])
    (simp_all add: uses_group_def cli_arg_def VerifyGroupPath_def)

text \<open>The commands agree on the group that an argument names: what \<open>new\<close> has made is what \<open>del\<close>, \<open>list\<close>,
  \<open>list-controllers\<close> and \<open>stat\<close> load, and what \<open>systemd\<close> has made is what \<open>del-systemd\<close> loads.\<close>

theorem cgctl_commands_agree:
  "(NewManager os bpf (cli_mountpoint clix) (cli_arg clix 0) r w = (Ok c, w1) \<longrightarrow> load_group clix = Ok c) \<and>
   (NewSystemd sd [] (cli_arg clix 0) pid r p = (Ok c, p1) \<longrightarrow> LoadSystemd [] (cli_arg clix 0) = c)"
  by (auto simp: load_group_eq NewManager_def NewSystemd_def LoadSystemd_def closing_def Let_def seqn_def bnd_def
      split: option.splits prod.splits outcome.splits)

theorem cgctl_commands_agree_witness:
  "load_group \<lparr>cli_args = [''/a''], cli_mountpoint = ''/m'', cli_enable = False\<rparr> = Ok \<lparr>unifiedMountpoint = ''/m'', mgr_path = ''/m/a''\<rparr>"
proof -
  let ?clix = "\<lparr>cli_args = [''/a''], cli_mountpoint = ''/m'', cli_enable = False\<rparr>"
  let ?w = "\<lparr>mem_files = [(''/m/cgroup.subtree_control'', [])], mem_dirs = [], mem_faults = []\<rparr>"
  obtain w1 where "NewManager mem_os mem_bpf (cli_mountpoint ?clix) (cli_arg ?clix 0) (Some empty_resources) ?w =
      (Ok \<lparr>unifiedMountpoint = ''/m'', mgr_path = ''/m/a''\<rparr>, w1)"
    by (simp add: NewManager_def VerifyGroupPath_def manager_eval mem_eval EnabledControllers_def opt_list_def
        setResources_def writeValues_def Resources_Values_def setDevices_def empty_resources_def cli_arg_def)
  then show ?thesis by (rule cgctl_commands_agree [THEN conjunct1, THEN mp])
qed

text \<open>C22: With --enable, \<open>new\<close> enables the controllers that the mount point lists, once the group is there, in the
  mount point and in every ancestor of the group. The command reports the result of the last write; the
  group is kept when that one failed.\<close>

theorem cgctl_new_enables:
  assumes "proper_path (ms @ gs)" and "ms \<noteq> []" and "gs \<noteq> []"
    and "cli_mountpoint clix = abs_path ms" and "cli_arg clix 0 = abs_path gs" and "cli_enable clix"
    and new: "NewManager os bpf (abs_path ms) (abs_path gs) (Some empty_resources) w = (Ok c, w1)"
    and ctl: "ReadFile os (abs_path (ms @ [''cgroup.controllers''])) w1 = Ok listed"
  shows "newCommand os bpf clix w =
    (bind_out (toggle_result os (Fields listed) Enable (subtree_files ms gs) None w1) (\<lambda>_. Ok []),
     toggle_all os (Fields listed) Enable (subtree_files ms gs) w1)"
proof -
  have "mgr_path c = path_join [abs_path ms, abs_path gs]" "unifiedMountpoint c = abs_path ms"
    using new by (auto simp: NewManager_def seqn_eq_Ok empty_resources_def Let_def split: option.splits)
  moreover have "path_join [abs_path ms, abs_path gs] = abs_path (ms @ gs)" using assms(1-3) by simp
  moreover have "path_join [abs_path ms, ''cgroup.controllers''] = abs_path (ms @ [''cgroup.controllers''])"
    using assms(1) by (intro path_join_proper) (auto simp: proper_def)
  ultimately have c: "c = \<lparr>unifiedMountpoint = abs_path ms, mgr_path = abs_path (ms @ gs)\<rparr>"
      and r: "RootControllers os c w1 = Ok (Fields listed)"
    using ctl by (simp_all add: RootControllers_def)
  show ?thesis
    using assms(4-6) new r toggle_controllers_ancestors [OF assms(1,2) c, of os "Fields listed" Enable w1]
    by (cases "toggle_result os (Fields listed) Enable (subtree_files ms gs) None w1")
       (simp_all add: newCommand_def seqn_def)
qed

theorem cgctl_new_enables_witness:
  "\<exists>w1. newCommand mem_os mem_bpf \<lparr>cli_args = [''/a''], cli_mountpoint = ''/m'', cli_enable = True\<rparr>
      \<lparr>mem_files = [(''/m/cgroup.controllers'', ''cpu pids''), (''/m/cgroup.subtree_control'', [])], mem_dirs = [], mem_faults = []\<rparr> = (Ok [], w1) \<and>
    map_of (mem_files w1) ''/m/cgroup.subtree_control'' = Some ''+cpu +pids''"
proof -
  let ?clix = "\<lparr>cli_args = [''/a''], cli_mountpoint = ''/m'', cli_enable = True\<rparr>"
  let ?w = "\<lparr>mem_files = [(''/m/cgroup.controllers'', ''cpu pids''), (''/m/cgroup.subtree_control'', [])], mem_dirs = [], mem_faults = []\<rparr>"
  have abs: "abs_path [''m''] = ''/m''" "abs_path [''a''] = ''/a''" "abs_path ([''m''] @ [''cgroup.controllers'']) = ''/m/cgroup.controllers''"
    by (simp_all add: render_path_def)
  obtain c w1 where new: "NewManager mem_os mem_bpf (abs_path [''m'']) (abs_path [''a'']) (Some empty_resources) ?w = (Ok c, w1)"
      and w1: "mem_files w1 = mem_files ?w" "mem_faults w1 = []"
    unfolding abs
    by (simp add: NewManager_def VerifyGroupPath_def manager_eval mem_eval EnabledControllers_def opt_list_def
        setResources_def writeValues_def Resources_Values_def setDevices_def empty_resources_def)
  have ctl: "ReadFile mem_os (abs_path ([''m''] @ [''cgroup.controllers''])) w1 = Ok ''cpu pids''"
    unfolding abs by (simp add: ReadFile_def mem_eval w1)
  have files: "subtree_files [''m''] [''a''] = [''/m/cgroup.subtree_control'']"
    by (simp add: subtree_files_def render_path_def subtreeControl_def)
  have listed: "Fields ''cpu pids'' = [''cpu'', ''pids'']"
    using fields_word_space [of "''cpu''" "CHR '' ''" "''pids''"] fields_word [of "''pids''"]
    by (simp add: plain_word_def plain_char_def ascii_space_def)
  have wr: "writeSubtreeControl mem_os ''/m/cgroup.subtree_control'' [''cpu'', ''pids''] Enable w1 =
      (Ok (), w1\<lparr>mem_files := [(''/m/cgroup.controllers'', ''cpu pids''), (''/m/cgroup.subtree_control'', ''+cpu +pids'')]\<rparr>)"
    by (simp add: writeSubtreeControl_def seqn_def bnd_def sys_def mem_open_file_def mem_fd_write_def fault_def toggled_def
        toggleFunc_def Enable_def w1)
  have p: "proper_path ([''m''] @ [''a''])" by (simp add: proper_def)
  have "newCommand mem_os mem_bpf ?clix ?w = (Ok [], w1\<lparr>mem_files :=
      [(''/m/cgroup.controllers'', ''cpu pids''), (''/m/cgroup.subtree_control'', ''+cpu +pids'')]\<rparr>)"
    by (subst cgctl_new_enables [OF p _ _ _ _ _ new ctl])
      (simp_all add: abs cli_arg_def listed files toggle_result_def toggle_all_def wr)
  then show ?thesis by simp
qed

lemma Atoi_syntax: "Atoi s = (v, Some ErrSyntax) \<Longrightarrow> v = 0"
  by (auto simp: Atoi_def ParseInt_def Let_def split: list.splits prod.splits option.splits num_error.splits if_splits)

lemma Atoi_range:
  assumes "Atoi s = (v, Some ErrRange)"
  shows "v = (if hd s = CHR ''-'' then - of_nat (2 ^ 63) else of_nat (2 ^ 63 - 1))"
  using assms
  by (auto simp: Atoi_def ParseInt_def Let_def bit_size_def split: list.splits prod.splits option.splits num_error.splits if_splits)

text \<open>Which process the unit of \<open>systemd\<close> gets: that of the argument if it is a number, process 0 if it is not
  one at all, and the largest process number if it is too large; the error of the parser is lost. With -1
  there is no process, and an existing unit is left as it is.\<close>

theorem cgctl_systemd_pid:
  assumes "cli_arg clix 1 = s" and "s \<noteq> []" and "Atoi s = (v, e)"
  shows "newSystemdProperty ''PIDs'' (VarPids pids) \<in> set (base_properties grp (systemd_pid clix self)) \<longleftrightarrow>
    v \<noteq> - 1 \<and> pids = [case e of
        None \<Rightarrow> ucast v | Some ErrSyntax \<Rightarrow> 0 | Some ErrRange \<Rightarrow> if hd s = CHR ''-'' then 0 else - 1]"
proof -
  have "systemd_pid clix self = v" using assms by (simp add: systemd_pid_def)
  then have "newSystemdProperty ''PIDs'' (VarPids pids) \<in> set (base_properties grp (systemd_pid clix self)) \<longleftrightarrow>
      v \<noteq> - 1 \<and> pids = [ucast v]"
    by (auto simp: base_properties_def newSystemdProperty_def)
  moreover have "e = Some ErrSyntax \<Longrightarrow> v = 0" using assms(3) Atoi_syntax [of s v] by simp
  moreover have "e = Some ErrRange \<Longrightarrow> v = (if hd s = CHR ''-'' then - of_nat (2 ^ 63) else of_nat (2 ^ 63 - 1))"
    using Atoi_range [of s v] assms(3) by simp
  ultimately show ?thesis
    by (auto split: option.splits num_error.splits)
qed

theorem cgctl_systemd_pid_witness:
  "newSystemdProperty ''PIDs'' (VarPids [0]) \<in> set (base_properties ''a.scope'' (systemd_pid
      \<lparr>cli_args = [''a.scope'', ''init''], cli_mountpoint = default_mountpoint, cli_enable = False\<rparr> 7))"
proof -
  have "Atoi ''init'' = (0, Some ErrSyntax)" by (simp add: parse_eval)
  from cgctl_systemd_pid [OF _ _ this, of "\<lparr>cli_args = [''a.scope'', ''init''], cli_mountpoint = default_mountpoint, cli_enable = False\<rparr>"]
  show ?thesis by (simp add: cli_arg_def)
qed
end
