(* ===== verification/Spec2Isabelle.thy ===== *)
theory Spec2Isabelle
  imports V2ManagerFacts V2Convert V2Systemd V2Events V1NewLoad V1Limits V1Events V1Locks Cgctl
begin

text \<open>
  A verification library for the Go module \<open>containerd/cgroups\<close>, which creates, limits, measures and removes
  Linux control groups. The module has four parts: the root package (\<open>utils.go\<close>) tells which version of
  control groups the host runs, package \<open>cgroup1\<close> manages groups that have one directory in the hierarchy of
  each controller, and package \<open>cgroup2\<close> manages groups of the unified hierarchy, directly or through
  systemd; the command \<open>cgctl\<close> runs one operation of them per call. All work by reading and writing small
  files. The library models the four parts with their operations, errors and panics, and proves what makes
  each of them correct.

  \<^bold>\<open>How the program is modelled.\<close> A Go function that can fail is a function to the type \<open>outcome\<close> of theory
  Prelude (\<open>Ok\<close>, \<open>Err\<close> with an error value, \<open>Panic\<close>); one that acts on the system takes the state of the
  system and returns the next one (\<open>('w, 'a) go\<close>), composed with \<open>bnd\<close>, \<open>seqn\<close>, \<open>handle\<close> and \<open>for_each\<close> in
  the order of the code. Machine integers are words (\<open>u64\<close>, \<open>i64\<close> read with \<open>sint\<close>, \<open>u32\<close>, \<open>u16\<close>), with
  the wrap-around of Go. A map is an association list in the order in which \<open>range\<close> visits it, which the
  properties leave open. Structs are records, the subsystems of \<open>cgroup1\<close> one datatype. The kernel and the
  libraries that the module calls are parameters: records of functions on an arbitrary system state (\<open>os\<close>
  for package \<open>os\<close>, \<open>bpf\<close> for the eBPF library, \<open>systemd\<close> and \<open>bus\<close> for D-Bus, \<open>procs\<close> for signals and
  processes, \<open>inotify\<close>, \<open>host\<close> for the rest, \<open>float64_ops\<close> for floating point). What is relied on of them is stated in
  locales: \<open>disk\<close> (a write is read back), \<open>poll\<close> (a polling loop makes progress), \<open>unit_manager\<close> (transient
  units), \<open>directories\<close> (a directory that was made stays there), \<open>descriptors\<close> and \<open>inotify_fds\<close> (opening and closing). They
  are interpreted on a directory tree in memory with injected faults (\<open>mem_os\<close>), on that tree with a list of
  descriptors, and on a list of units; the witnesses of the properties run on these.

  \<^bold>\<open>The theories.\<close>
  \<^item> Prelude, GoStrings, GoNumbers, GoPaths, GoOS: outcomes and errors, and what the module uses of Go's
    library: \<open>strings\<close>, \<open>bufio.Scanner\<close> with its limit of 64 KB, \<open>strconv\<close>, \<open>path/filepath\<close>, \<open>os\<close>. The lemmas
    reduce numbers to digits, clean paths to lists of proper elements, and batches of writes to finite maps.
  \<^item> Counters, Polling: parsing counters in both packages (\<open>parseUint\<close>, \<open>parseKV\<close>), and the two loops that both
    packages run on the system, polling a freezer and removing a directory.
  \<^item> V2Values, V2Device, V2Paths: the resource types of \<open>cgroup2\<close> and the values they are written as
    (\<open>cpu.go\<close>, \<open>memory.go\<close>, \<open>io.go\<close>, \<open>pids.go\<close>, \<open>rdma.go\<close>, \<open>hugetlb.go\<close>, \<open>state.go\<close>, \<open>Resources\<close> of \<open>manager.go\<close>);
    the compiler of device rules to eBPF (\<open>devicefilter.go\<close>, \<open>ebpf.go\<close>) with a machine that runs its output;
    group paths and systemd names (\<open>paths.go\<close>, \<open>utils.go\<close>).
  \<^item> V2Metrics, V2Stats: the statistics of \<open>cgroup2\<close> (\<open>manager.go\<close>, \<open>utils.go\<close>).
  \<^item> V2Manager, V2ManagerFacts: \<open>Manager\<close> with all its methods (\<open>manager.go\<close>): creating, updating, enabling
    controllers, listing, moving, freezing, killing and deleting, and the goroutine of \<open>EventChan\<close> as an
    inductive step relation.
  \<^item> V2Events: \<open>MemoryEventFD\<close> and \<open>EventChan\<close> with its inotify descriptor: the goroutine, its bounded channel, its
    consumer and the system as a step relation, which refines the rounds of V2Manager (locale \<open>inotify_fds\<close>).
  \<^item> V2Systemd: groups through systemd (\<open>NewSystemd\<close> to \<open>DeleteSystemd\<close> of \<open>manager.go\<close>).
  \<^item> OCISpec, V2Convert: the resources of the OCI specification, as far as they are used, and their conversion
    to \<open>cgroup2\<close> (\<open>ToResources\<close>, \<open>ConvertCPUSharesToCgroupV2Value\<close>).
  \<^item> CgroupMode: the root package.
  \<^item> V1Metrics, V1Controllers, V1Cpuset, V1Stats: the messages and the controllers of \<open>cgroup1\<close>: what \<open>Create\<close> and
    \<open>Update\<close> write (locale \<open>settings\<close>, interpreted for nine controllers), the cpuset recursion, and the \<open>Stat\<close>
    methods, each of which owns a part of the message (locale \<open>slot\<close>, interpreted for seven).
  \<^item> V1Paths, V1Subsystem, V1Cgroup, V1CgroupFacts: the path functions (\<open>paths.go\<close>, \<open>v1.go\<close>), the subsystems with
    the interfaces they satisfy and the hierarchies (\<open>subsystem.go\<close>, \<open>systemd.go\<close>, \<open>utils.go\<close>), and the group
    with all its methods (\<open>cgroup.go\<close>, \<open>control.go\<close>, \<open>opts.go\<close>), whose life is the step relation \<open>cstep\<close>.
  \<^item> V1Update, V1Limits: what an update of a whole group writes (\<open>group_writes\<close>) and leaves alone, with the
    cpuset files where every level already has values (\<open>cpuset_settled\<close>), and the limits that the statistics
    report afterwards, whatever the other subsystems and the order of the goroutines.
  \<^item> V1NewLoad, V1Events: a group that was created is loaded again (locale \<open>directories\<close>), and the registration
    of memory events leaks no file descriptor (locale \<open>descriptors\<close>). Descriptors has the example system that
    V1Events and V2Events share.
  \<^item> V1Locks: the mutex. Every method is one step of its group except \<open>MoveTo\<close>, which locks a second group; its
    calls are threads (\<open>mover\<close>) that advance from one locking to the next in any interleaving (\<open>run_step\<close>).
  \<^item> Cgctl: the actions of the command (\<open>cmd/cgctl/main.go\<close>), what it prints and its exit status.

  \<^bold>\<open>What is shown.\<close> Refinement: the compiled device filter decides as the last rule that applies. Invariants and
  safety: a verified group stays inside the mount point, a group with tasks is never removed (both
  packages), the written values belong to enabled controllers, a deleted \<open>cgroup1\<close> group stays as it is and
  its path and subsystems never change, \<open>EventChan\<close> sends one error at most and neither it nor the
  registration of events leaks a descriptor, and \<open>cgctl\<close> refuses an invalid path before it touches anything. Round trips: CPU limits, counters,
  \<open>io.stat\<close>, pressure, blkio and \<open>/proc/PID/cgroup\<close> files, unit names, and the limits of an OCI
  specification: in \<open>cgroup2\<close> through conversion, update and statistics (below), in \<open>cgroup1\<close> through the update and
  the statistics of a group (V1Limits). Order: the concurrent \<open>Stat\<close> of \<open>cgroup1\<close> and the
  conversion of throttle lists do not depend on the order of goroutines and of map iteration. Concurrency:
  calls of \<open>MoveTo\<close> do what the function without locks does when alone, block each other when they cross or
  when a group is moved to itself, and all return when they follow a ranking of the groups. Termination:
  \<open>freeze\<close> returns when the kernel makes progress, and provably does not when it never does. Errors: what a
  failed \<open>NewManager\<close> leaves behind, which inputs panic. Several theorems state behaviour that contradicts
  a comment or loses a setting; they are what the code does, such as the order of the memory and the swap
  limit, the quota "max" sent to systemd, or the panic of \<open>Delete\<close> on groups of the systemd hierarchy.

  \<^bold>\<open>Bounds.\<close> There is no fuel: loops that end are structural recursion or have a measure (\<open>ensureParent\<close> on the
  length of the path, \<open>startUnit\<close> on its one retry, five attempts of \<open>remove\<close> and \<open>writeCgroupProcs\<close>), and
  loops that may not end are \<open>partial_function (option)\<close>, with \<open>None\<close> for not returning. Only \<open>mem_tree\<close>, the
  directory tree of the example system, is cut at the number of its directories, which no branch exceeds.

  \<^bold>\<open>Not modelled.\<close> The generated protobuf code (the messages are records); log output and the debug flag of
  \<open>cgctl\<close>; file modes; the parsing of the command line and the encoding as JSON, which are libraries. A method
  of a \<open>cgroup1\<close> group other than \<open>MoveTo\<close> is one atomic step. The verb \<open>%q\<close> keeps bytes beyond ASCII, and
  \<open>os.Stat\<close> is \<open>Lstat\<close>, since the files of the kernel's file system are no links. One read of a file is
  atomic. Floating point is a parameter; the curve of the CPU weights is proved for exact reals.
\<close>

section \<open>From an OCI specification to the statistics\<close>

text \<open>The files of all resource types but huge pages, whose file name has the page size in it.\<close>

definition resource_files :: "string list" where
  "resource_files = [''cpu.weight'', ''cpu.max'', ''cpuset.cpus'', ''cpuset.mems'', ''memory.swap.max'', ''memory.min'', ''memory.max'',
     ''memory.low'', ''memory.high'', ''memory.oom.group'', ''pids.max'', ''io.bfq.weight'', ''io.max'', ''rdma.max'']"

lemma resource_files_proper: "proper_path resource_files"
  by (simp add: resource_files_def proper_def)

lemma Resources_Values_files:
  "v \<in> set (Resources_Values r) \<Longrightarrow> res_HugeTlb r = None \<Longrightarrow> filename v \<in> set resource_files"
  by (auto simp: Resources_Values_def opt_list_def CPU_Values_def Memory_Values_def Pids_Values_def IO_Values_def RDMA_Values_def
      int_value_def resource_files_def split: option.splits if_splits)

text \<open>The values that go to one of three files, from the memory and the process limits.\<close>

lemma Resources_Values_of:
  assumes "v \<in> set (Resources_Values r)" and "res_HugeTlb r = None" and "res_Memory r = Some m" and "res_Pids r = Some q"
  shows "controller_of v = ''memory'' \<Longrightarrow> v \<in> set (Memory_Values m)" and "controller_of v = ''pids'' \<Longrightarrow> v \<in> set (Pids_Values q)"
proof -
  consider "v \<in> set (opt_list CPU_Values (res_CPU r))" | "v \<in> set (Memory_Values m)" | "v \<in> set (Pids_Values q)"
    | "v \<in> set (opt_list IO_Values (res_IO r))" | "v \<in> set (opt_list RDMA_Values (res_RDMA r))"
    using assms by (auto simp: Resources_Values_def opt_list_def split: option.splits)
  note by_source = this
  have src: "controller_of v \<in> {''cpu'', ''cpuset''} \<or> v \<in> set (Memory_Values m) \<or> v \<in> set (Pids_Values q) \<or> controller_of v \<in> {''io'', ''rdma''}"
    by (rule by_source)
      (auto dest!: cpu_source.vals_controller io_source.vals_controller rdma_source.vals_controller simp: opt_list_def split: option.splits if_splits)
  show "v \<in> set (Memory_Values m)" if "controller_of v = ''memory''"
    using src that pids_source.vals_controller [of v q] by auto
  show "v \<in> set (Pids_Values q)" if "controller_of v = ''pids''"
    using src that memory_source.vals_controller [of v m] by auto
qed

lemma int_value_file: "v \<in> set (int_value f x) \<Longrightarrow> filename v = f \<and> map_option VInt64 x = Some (contents v)"
  by (cases x) (simp_all add: int_value_def)

lemma Memory_Values_of:
  assumes "v \<in> set (Memory_Values m)"
  shows "filename v = ''memory.max'' \<Longrightarrow> map_option VInt64 (mem_Max m) = Some (contents v)"
    and "filename v = ''memory.swap.max'' \<Longrightarrow> map_option VInt64 (mem_Swap m) = Some (contents v)"
proof -
  have "filename v = ''memory.swap.max'' \<and> map_option VInt64 (mem_Swap m) = Some (contents v)
      \<or> filename v = ''memory.max'' \<and> map_option VInt64 (mem_Max m) = Some (contents v)
      \<or> filename v = ''memory.min'' \<or> filename v = ''memory.low'' \<or> filename v = ''memory.high'' \<or> filename v = ''memory.oom.group''"
    using assms unfolding Memory_Values_def set_append Un_iff by (elim disjE) (drule int_value_file, blast)+
  note by_file = this
  show "map_option VInt64 (mem_Max m) = Some (contents v)" if "filename v = ''memory.max''"
    using by_file that by (elim disjE conjE) (assumption | simp)+
  show "map_option VInt64 (mem_Swap m) = Some (contents v)" if "filename v = ''memory.swap.max''"
    using by_file that by (elim disjE conjE) (assumption | simp)+
qed

lemma assign_file_writes:
  assumes "proper_path cs" and "\<And>v. v \<in> set vs \<Longrightarrow> proper (filename v)" and "v0 \<in> set vs"
    and "\<And>v. v \<in> set vs \<Longrightarrow> filename v = filename v0 \<Longrightarrow> contents v = contents v0"
  shows "assign_all (file_writes (abs_path cs) vs) (abs_path (cs @ [filename v0])) = Some (data_of v0)"
proof -
  have at: "path_join [abs_path cs, filename v] = abs_path (cs @ [filename v])" if "v \<in> set vs" for v
    using assms(1,2) that by simp
  have in0: "(abs_path (cs @ [filename v0]), data_of v0) \<in> set (rev (file_writes (abs_path cs) vs))"
    using at [OF assms(3)] assms(3) by (force simp: file_writes_def)
  have only: "d = data_of v0" if d: "(abs_path (cs @ [filename v0]), d) \<in> set (rev (file_writes (abs_path cs) vs))" for d
  proof -
    obtain v where v: "v \<in> set vs" "path_join [abs_path cs, filename v] = abs_path (cs @ [filename v0])" "d = data_of v"
      using d unfolding file_writes_def by auto
    then have "filename v = filename v0"
      using at [OF v(1)] abs_path_inj [of "cs @ [filename v]" "cs @ [filename v0]"] assms(1-3) by simp
    then show ?thesis using assms(4) v(1,3) by (simp add: data_of_def)
  qed
  show ?thesis unfolding assign_all_map_of by (rule map_of_only [OF in0 only])
qed

lemma getStatFileContentUint64_FormatUint:
  assumes "ReadFile os p w = Ok (FormatUint v)"
  shows "getStatFileContentUint64 os p w = v"
proof -
  have "FormatUint v \<noteq> []" by (rule uint_codec.print_not_Nil)
  moreover have "take 32 (FormatUint v) = FormatUint v" using length_FormatUint [of v] by simp
  moreover have "trim_space (FormatUint v) = FormatUint v" by (rule trim_space_word [OF uint_codec.print_plain])
  ultimately show ?thesis
    using FormatUint_not_max by (simp add: getStatFileContentUint64_def ReadFile_open [OF assms] read32_def Let_def)
qed

lemma res_Devices_ToResources: "res_Devices (ToResources F ord spec) = []"
  by (simp add: ToResources_def)

lemma sint_diff_ordered:
  fixes s l :: i64
  assumes "0 \<le> sint l" and "sint l \<le> sint s"
  shows "sint (s - l) = sint s - sint l"
proof -
  have "s - l = of_int (sint s - sint l)" by simp
  moreover have "sint s < 2 ^ 63" using sint_lt [of s] by simp
  ultimately show ?thesis using assms by (simp only: signed_of_int) (simp add: signed_take_bit_int_eq_self)
qed

text \<open>A file holds a value after Update when all values that go to this file are the same.\<close>

lemma update_reads_value:
  assumes "disk os good writable" and "good w" and "res_Devices r = []" and "res_HugeTlb r = None"
    and "mgr_path c = abs_path cs" and "proper_path cs"
    and "\<And>v. v \<in> set (Resources_Values r) \<Longrightarrow> writable (path_join [mgr_path c, filename v]) w"
  shows "\<exists>w1. Update os bpf c (Some r) w = (Ok (), w1) \<and> (\<forall>v0 \<in> set (Resources_Values r).
    (\<forall>v \<in> set (Resources_Values r). filename v = filename v0 \<longrightarrow> contents v = contents v0) \<longrightarrow>
    ReadFile os (abs_path (cs @ [filename v0])) w1 = Ok (data_of v0))"
proof -
  obtain w1 where w1: "Update os bpf c (Some r) w = (Ok (), w1)"
      "\<And>p d. assign_all (file_writes (mgr_path c) (Resources_Values r)) p = Some d \<Longrightarrow> ReadFile os p w1 = Ok d"
    using Update_file_writes [where good = good and writable = writable, OF assms(1-3,7)] by blast
  have proper: "proper (filename v)" if "v \<in> set (Resources_Values r)" for v
    using Resources_Values_files [OF that assms(4)] resource_files_proper by (auto simp: list_all_iff)
  have "ReadFile os (abs_path (cs @ [filename v0])) w1 = Ok (data_of v0)"
    if "v0 \<in> set (Resources_Values r)" "\<forall>v \<in> set (Resources_Values r). filename v = filename v0 \<longrightarrow> contents v = contents v0" for v0
  proof (rule w1(2))
    show "assign_all (file_writes (mgr_path c) (Resources_Values r)) (abs_path (cs @ [filename v0])) = Some (data_of v0)"
      unfolding assms(5) by (rule assign_file_writes [OF assms(6) proper that(1)]) (use that(2) in auto)
  qed
  then show ?thesis using w1(1) by blast
qed

text \<open>The statistics read a signed value that is not negative as it is.\<close>

lemma stat_reads_int: "ReadFile os p w = Ok (FormatInt x) \<Longrightarrow> 0 \<le> sint x \<Longrightarrow> getStatFileContentUint64 os p w = x"
  by (simp add: FormatInt_pos getStatFileContentUint64_FormatUint)


definition oci_example :: LinuxResources where
  "oci_example = \<lparr>lx_Devices = [],
     lx_Memory = Some \<lparr>lm_Limit = Some 1000, lm_Reservation = None, lm_Swap = Some 1500, lm_Kernel = None, lm_KernelTCP = None,
       lm_Swappiness = None, lm_DisableOOMKiller = None\<rparr>,
     lx_CPU = None, lx_Pids = Some (Some 5), lx_BlockIO = None, lx_HugepageLimits = None, lx_Network = None, lx_Rdma = None\<rparr>"


end
